theory Spec2Isabelle
  imports Main
begin

section \<open>JavaScript values\<close>

text \<open>
  The values an Inspector property can hold. Numbers are the integer-valued ones
  (fractions, NaN and the infinities are left out). Arrays and plain objects are trees;
  an object is the list of its own properties in enumeration order, and its prototype
  is \<^verbatim>\<open>Object.prototype\<close>.
  \<open>JRemovedProperty\<close> is the reference to the one object
  \<^verbatim>\<open>$.oc.inspector.removedProperty = {removed: true}\<close>: the source tests for it with
  \<^verbatim>\<open>===\<close>, which a second object with the same content does not pass.
  Reading a name that an object does not own goes on to \<^verbatim>\<open>Object.prototype\<close>, so the
  members of that object are values too: \<open>JBuiltin name\<close> is the built-in function that
  \<^verbatim>\<open>Object.prototype\<close> holds under the name (\<open>JBuiltin ''constructor''\<close> is the function
  \<^verbatim>\<open>Object\<close>), and \<open>JObjectPrototype\<close> is the object \<^verbatim>\<open>Object.prototype\<close> itself.
\<close>

datatype jsval =
    JUndefined
  | JNull
  | JBool bool
  | JNum int
  | JStr string
  | JArr "jsval list"
  | JObj "(string \<times> jsval) list"
  | JRemovedProperty
  | JBuiltin string
  | JObjectPrototype

type_synonym jsobject = "(string \<times> jsval) list"

fun typeof :: "jsval \<Rightarrow> string" where
  "typeof JUndefined = ''undefined''"
| "typeof JNull = ''object''"
| "typeof (JBool b) = ''boolean''"
| "typeof (JNum n) = ''number''"
| "typeof (JStr s) = ''string''"
| "typeof (JArr xs) = ''object''"
| "typeof (JObj kvs) = ''object''"
| "typeof JRemovedProperty = ''object''"
| "typeof (JBuiltin name) = ''function''"
| "typeof JObjectPrototype = ''object''"

text \<open>
  The values that are objects: what the setter of \<^verbatim>\<open>__proto__\<close> accepts as a
  prototype, besides \<^verbatim>\<open>null\<close>.
\<close>

fun is_object :: "jsval \<Rightarrow> bool" where
  "is_object (JArr xs) = True"
| "is_object (JObj kvs) = True"
| "is_object JRemovedProperty = True"
| "is_object (JBuiltin name) = True"
| "is_object JObjectPrototype = True"
| "is_object v = False"

subsection \<open>Errors\<close>

text \<open>
  The errors the source throws (\<open>UniqueIdUndefined\<close>, \<open>EditorClassNotDefined\<close>,
  \<open>CannotFindTH\<close>) and those of the language and the DOM under it: the TypeError of a
  call on null (\<open>NullElement\<close>), the TypeError of \<open>buildEditor\<close> when the registry entry
  is no editor class, so that \<^verbatim>\<open>new\<close> fails or the object it makes has no editor
  methods (\<open>NotAConstructor\<close>), the TypeError of an assignment that strict code may
  not make (\<open>NotWritable\<close>), the SyntaxError of \<^verbatim>\<open>querySelector\<close> (\<open>InvalidSelector\<close>),
  and a row that names no group. A call either returns a value or throws; a state that
  has been changed before the throw stays changed.
\<close>

datatype error =
    UniqueIdUndefined
  | EditorClassNotDefined string
  | CannotFindTH
  | NullElement
  | NotAConstructor
  | NotWritable
  | InvalidSelector
  | GroupNotFound

datatype 'a outcome = Returns 'a | Throws error

subsection \<open>Objects: own properties\<close>

text \<open>
  The own property of an object under a key: \<^verbatim>\<open>undefined\<close> when the object has no
  such key. That is what \<^verbatim>\<open>obj[key]\<close> reads when the object owns the key; what it
  reads otherwise is \<open>obj_read\<close> below.
\<close>

fun obj_get :: "jsobject \<Rightarrow> string \<Rightarrow> jsval" where
  "obj_get [] key = JUndefined"
| "obj_get ((k, v) # kvs) key = (if k = key then v else obj_get kvs key)"

definition obj_has :: "jsobject \<Rightarrow> string \<Rightarrow> bool" where
  "obj_has obj key = (key \<in> set (map fst obj))"

text \<open>
  A key that is a canonical array index (decimal digits, no leading zero, below
  \<open>2^32 - 1\<close>) is enumerated before the other keys, in ascending order; the other keys
  are enumerated in the order of their creation.
\<close>

definition digit_val :: "char \<Rightarrow> nat" where
  "digit_val c = of_char c - 48"

definition is_digit :: "char \<Rightarrow> bool" where
  "is_digit c = (48 \<le> (of_char c :: nat) \<and> (of_char c :: nat) \<le> 57)"

definition digits_val :: "string \<Rightarrow> nat" where
  "digits_val ds = foldl (\<lambda>n c. 10 * n + digit_val c) 0 ds"

definition array_index :: "string \<Rightarrow> nat option" where
  "array_index key =
     (if key = [] then None
      else if \<not> list_all is_digit key then None
      else if hd key = CHR ''0'' \<and> key \<noteq> ''0'' then None
      else if digits_val key < 4294967295 then Some (digits_val key)
      else None)"

fun obj_replace :: "string \<Rightarrow> jsval \<Rightarrow> jsobject \<Rightarrow> jsobject" where
  "obj_replace key value [] = []"
| "obj_replace key value ((k, v) # kvs) =
     (if k = key then (k, value) # kvs else (k, v) # obj_replace key value kvs)"

fun obj_insert_index :: "nat \<Rightarrow> string \<Rightarrow> jsval \<Rightarrow> jsobject \<Rightarrow> jsobject" where
  "obj_insert_index n key value [] = [(key, value)]"
| "obj_insert_index n key value ((k, v) # kvs) =
     (case array_index k of
        Some m \<Rightarrow>
          (if m < n then (k, v) # obj_insert_index n key value kvs
           else (key, value) # (k, v) # kvs)
      | None \<Rightarrow> (key, value) # (k, v) # kvs)"

text \<open>
  The own property of a key is given a value: an existing key keeps its place, a new
  one is created.
\<close>

definition own_set :: "string \<Rightarrow> jsval \<Rightarrow> jsobject \<Rightarrow> jsobject" where
  "own_set key value obj =
     (if obj_has obj key then obj_replace key value obj
      else (case array_index key of
              Some n \<Rightarrow> obj_insert_index n key value obj
            | None \<Rightarrow> obj @ [(key, value)]))"

text \<open>\<^verbatim>\<open>delete obj[key]\<close>: the own property goes, if there is one.\<close>

definition obj_delete :: "string \<Rightarrow> jsobject \<Rightarrow> jsobject" where
  "obj_delete key obj = filter (\<lambda>kv. fst kv \<noteq> key) obj"

subsection \<open>Objects: the prototype chain\<close>

text \<open>
  The members of \<^verbatim>\<open>Object.prototype\<close>: its methods, and the accessor \<^verbatim>\<open>__proto__\<close>,
  whose getter returns the prototype of the object it is read on. \<open>object_prototype\<close>
  is what a name reads on an object that does not own it and whose prototype is
  \<^verbatim>\<open>Object.prototype\<close>; the page is taken not to have added members of its own.
\<close>

definition object_prototype_methods :: "string list" where
  "object_prototype_methods =
     [''constructor'', ''hasOwnProperty'', ''isPrototypeOf'', ''propertyIsEnumerable'',
      ''toLocaleString'', ''toString'', ''valueOf'', ''__defineGetter__'',
      ''__defineSetter__'', ''__lookupGetter__'', ''__lookupSetter__'']"

definition object_prototype :: "string \<Rightarrow> jsval" where
  "object_prototype key =
     (if key = ''__proto__'' then JObjectPrototype
      else if key \<in> set object_prototype_methods then JBuiltin key
      else JUndefined)"

text \<open>
  The prototype of an object that the surface writes to: \<^verbatim>\<open>Object.prototype\<close> as long
  as nothing else has been assigned to its \<^verbatim>\<open>__proto__\<close>, and the value assigned
  (\<^verbatim>\<open>null\<close> or an object) after that.
\<close>

datatype prototype = ObjectPrototype | SetTo jsval

text \<open>
  What the assignment \<^verbatim>\<open>obj[key] = value\<close> does for a key that the object does not
  own: it creates the key, or it finds the setter of \<^verbatim>\<open>__proto__\<close> on the chain and
  calls it, or it finds a member that may not be overwritten and fails.
\<close>

datatype assignment = CreatesKey | CallsProtoSetter | Rejected

text \<open>
  A prototype that has been assigned is an object of any kind (an array, a function),
  with members of its own kind behind it. What a name reads through such an object, and
  what an assignment meets there, is the parameter \<open>through\<close> of the two functions that
  follow; with \<^verbatim>\<open>null\<close> for a prototype there is no chain at all.
\<close>

definition inherited :: "(jsval \<Rightarrow> string \<Rightarrow> jsval) \<Rightarrow> prototype \<Rightarrow> string \<Rightarrow> jsval" where
  "inherited through proto key =
     (case proto of
        ObjectPrototype \<Rightarrow> object_prototype key
      | SetTo v \<Rightarrow> if v = JNull then JUndefined else through v key)"

definition assignment_of ::
  "(jsval \<Rightarrow> string \<Rightarrow> assignment) \<Rightarrow> prototype \<Rightarrow> string \<Rightarrow> assignment" where
  "assignment_of through proto key =
     (case proto of
        ObjectPrototype \<Rightarrow> if key = ''__proto__'' then CallsProtoSetter else CreatesKey
      | SetTo v \<Rightarrow> if v = JNull then CreatesKey else through v key)"

text \<open>\<^verbatim>\<open>obj[key]\<close>: the own property, or else what the chain has.\<close>

definition obj_read ::
  "(jsval \<Rightarrow> string \<Rightarrow> jsval) \<Rightarrow> prototype \<Rightarrow> jsobject \<Rightarrow> string \<Rightarrow> jsval" where
  "obj_read through proto obj key =
     (if obj_has obj key then obj_get obj key else inherited through proto key)"

text \<open>
  \<^verbatim>\<open>obj[key] = value\<close> on an object given by its own properties and its prototype. The
  setter of \<^verbatim>\<open>__proto__\<close> stores no key: it replaces the prototype when the value is
  \<^verbatim>\<open>null\<close> or an object and does nothing otherwise.
\<close>

definition obj_assign ::
  "(jsval \<Rightarrow> string \<Rightarrow> assignment) \<Rightarrow> string \<Rightarrow> jsval \<Rightarrow> jsobject \<times> prototype
     \<Rightarrow> (jsobject \<times> prototype) outcome" where
  "obj_assign through key value obj =
     (if obj_has (fst obj) key then Returns (own_set key value (fst obj), snd obj)
      else
        (case assignment_of through (snd obj) key of
           CreatesKey \<Rightarrow> Returns (own_set key value (fst obj), snd obj)
         | CallsProtoSetter \<Rightarrow>
             Returns (fst obj,
                      if value = JObjectPrototype then ObjectPrototype
                      else if is_object value \<or> value = JNull then SetTo value
                      else snd obj)
         | Rejected \<Rightarrow> Throws NotWritable))"

subsection \<open>Serialisation and cloning\<close>

text \<open>
  \<^verbatim>\<open>JSON.stringify\<close> writes a value as a JSON document. The document is kept as a tree:
  JSON text is an injective rendering of it, so two texts are equal exactly when the
  trees are. Only own properties are written. A property whose value is \<^verbatim>\<open>undefined\<close>
  or a function is left out of an object, such an array element is written \<^verbatim>\<open>null\<close>,
  and \<^verbatim>\<open>JSON.stringify\<close> of \<^verbatim>\<open>undefined\<close> or of a function is \<^verbatim>\<open>undefined\<close> (here
  \<open>None\<close>). \<^verbatim>\<open>Object.prototype\<close> has no enumerable property.
\<close>

datatype json =
    JsonNull
  | JsonBool bool
  | JsonNum int
  | JsonStr string
  | JsonArr "json list"
  | JsonObj "(string \<times> json) list"

fun JSON_stringify :: "jsval \<Rightarrow> json option" where
  "JSON_stringify JUndefined = None"
| "JSON_stringify JNull = Some JsonNull"
| "JSON_stringify (JBool b) = Some (JsonBool b)"
| "JSON_stringify (JNum n) = Some (JsonNum n)"
| "JSON_stringify (JStr s) = Some (JsonStr s)"
| "JSON_stringify (JArr xs) =
     Some (JsonArr (map (\<lambda>x. case JSON_stringify x of None \<Rightarrow> JsonNull | Some j \<Rightarrow> j) xs))"
| "JSON_stringify (JObj kvs) =
     Some (JsonObj (concat (map (\<lambda>kv. case JSON_stringify (snd kv) of
                                         None \<Rightarrow> [] | Some j \<Rightarrow> [(fst kv, j)]) kvs)))"
| "JSON_stringify JRemovedProperty = Some (JsonObj [(''removed'', JsonBool True)])"
| "JSON_stringify (JBuiltin name) = None"
| "JSON_stringify JObjectPrototype = Some (JsonObj [])"

text \<open>
  \<^verbatim>\<open>$.extend(true, {}, value)\<close>: the deep copy that the constructor takes of the values.
  Plain objects and arrays are copied member by member into a new object or array, and
  a member whose value is \<^verbatim>\<open>undefined\<close> is not copied: in an object the key is
  missing from the copy, in an array the place stays empty, so that the copy of an
  array ends with its last defined element. A key \<^verbatim>\<open>__proto__\<close> is not copied
  either (jQuery 3.4 and later). The copy of the removed-property object is a new
  object with the same content, no longer the sentinel itself; \<^verbatim>\<open>Object.prototype\<close>
  counts as a plain object without members, and a function is not copied but shared.
\<close>

fun extend_deep :: "jsval \<Rightarrow> jsval" where
  "extend_deep (JArr xs) =
     JArr (rev (dropWhile (\<lambda>v. v = JUndefined) (rev (map extend_deep xs))))"
| "extend_deep (JObj kvs) =
     JObj (concat (map (\<lambda>kv. if snd kv = JUndefined \<or> fst kv = ''__proto__'' then []
                              else [(fst kv, extend_deep (snd kv))]) kvs))"
| "extend_deep JRemovedProperty = JObj [(''removed'', JBool True)]"
| "extend_deep JObjectPrototype = JObj []"
| "extend_deep v = v"

definition clone_values :: "jsobject \<Rightarrow> jsobject" where
  "clone_values obj =
     concat (map (\<lambda>kv. if snd kv = JUndefined \<or> fst kv = ''__proto__'' then []
                        else [(fst kv, extend_deep (snd kv))]) obj)"

subsection \<open>Comparison\<close>

text \<open>
  The \<^verbatim>\<open>==\<close> operator where \<open>comparePropertyValues\<close> reaches it: the operands are not
  both of type \<^verbatim>\<open>object\<close>. Equal primitives are equal, a function equals itself only,
  \<^verbatim>\<open>null\<close> and \<^verbatim>\<open>undefined\<close> equal each other and nothing else, two different
  primitives of one type differ. What is left compares operands of different types after
  a conversion to number or to string; that conversion is the parameter \<open>coerce\<close>.
\<close>

definition is_nullish :: "jsval \<Rightarrow> bool" where
  "is_nullish v = (v = JUndefined \<or> v = JNull)"

definition abstract_eq :: "(jsval \<Rightarrow> jsval \<Rightarrow> bool) \<Rightarrow> jsval \<Rightarrow> jsval \<Rightarrow> bool" where
  "abstract_eq coerce a b =
     (if is_nullish a \<or> is_nullish b then is_nullish a \<and> is_nullish b
      else if typeof a = typeof b \<and> typeof a \<noteq> ''object'' then a = b
      else coerce a b)"

definition comparePropertyValues ::
  "(jsval \<Rightarrow> jsval \<Rightarrow> bool) \<Rightarrow> jsval \<Rightarrow> jsval \<Rightarrow> bool" where
  "comparePropertyValues coerce oldValue newValue =
     (if oldValue = JUndefined \<and> newValue \<noteq> JUndefined then False
      else if oldValue \<noteq> JUndefined \<and> newValue = JUndefined then False
      else if typeof oldValue = ''object'' \<and> typeof newValue = ''object''
        then JSON_stringify oldValue = JSON_stringify newValue
      else abstract_eq coerce oldValue newValue)"

text \<open>
  The position of the first element of a list that passes a test, as the search loops of
  the source find it.
\<close>

fun first_index :: "('a \<Rightarrow> bool) \<Rightarrow> 'a list \<Rightarrow> nat option" where
  "first_index P [] = None"
| "first_index P (x # xs) = (if P x then Some 0 else map_option Suc (first_index P xs))"

section \<open>Groups\<close>

text \<open>
  Modelled from the spec: the Group and GroupManager classes are not part of this file.
  A group is the implicit root or a node with an index and a parent; its level is one
  more than its parent's, and the root's is 0. \<open>createGroup\<close> makes the node,
  \<open>getGroupAndAllParents\<close> lists a group followed by its parent, grandparent and so on
  up to the root. The manager's record of which groups are expanded is a table from
  groups to booleans; a row's \<^verbatim>\<open>data-group-index\<close> attribute holds the identifier of a
  group, which is the group itself here.
\<close>

datatype group = RootGroup | Group "nat option" group

fun parentGroup :: "group \<Rightarrow> group option" where
  "parentGroup RootGroup = None"
| "parentGroup (Group index parent) = Some parent"

fun getLevel :: "group \<Rightarrow> nat" where
  "getLevel RootGroup = 0"
| "getLevel (Group index parent) = Suc (getLevel parent)"

fun getGroupAndAllParents :: "group \<Rightarrow> group list" where
  "getGroupAndAllParents RootGroup = [RootGroup]"
| "getGroupAndAllParents (Group index parent) = Group index parent # getGroupAndAllParents parent"

definition createGroup :: "nat option \<Rightarrow> group \<Rightarrow> group" where
  "createGroup index parent = Group index parent"

section \<open>The data model\<close>

datatype item_type = GroupItem | PropertyItem

record property_def =
  property :: "string option"
  itemType :: item_type
  groupIndex :: "nat option"
  title :: string
  description :: "string option"
  type :: "string option"
  default :: jsval
  showExternalParam :: bool

text \<open>
  An editor is an object of another class; the surface sees it through its methods.
  Each field is what the method of that name returns (\<open>editorValidate\<close> for
  \<^verbatim>\<open>validate()\<close>, \<open>editorGroup\<close> for the \<^verbatim>\<open>group\<close> field of a grouped editor).
\<close>

record editor =
  propertyDefinition :: property_def
  getPropertyName :: "string option"
  getUndefinedValue :: jsval
  editorValidate :: bool
  isGroupedEditor :: bool
  supportsExternalParameterEditor :: bool
  editorGroup :: group

record externalParameterEditor =
  extPropertyName :: "string option"
  isEditorVisible :: bool
  getValue :: string
  extValidate :: bool

text \<open>
  A table row: its identity, the attributes and classes the surface reads and writes,
  the class list of its first anchor (the expand control) when it has one, and whether
  it has a \<^verbatim>\<open>TH\<close> cell.
\<close>

record row =
  rowId :: nat
  data_property :: "string option"
  data_group_index :: "group option"
  data_parent_group_index :: "group option"
  data_group_level :: "nat option"
  classes :: "string list"
  link :: "string list option"
  hasHead :: bool

text \<open>
  The class helpers of \<^verbatim>\<open>$.oc.foundation.element\<close>, on a class
  list.
\<close>

definition hasClass :: "string list \<Rightarrow> string \<Rightarrow> bool" where
  "hasClass cs c = (c \<in> set cs)"

definition addClass :: "string \<Rightarrow> string list \<Rightarrow> string list" where
  "addClass c cs = (if hasClass cs c then cs else cs @ [c])"

definition removeClass :: "string \<Rightarrow> string list \<Rightarrow> string list" where
  "removeClass c cs = removeAll c cs"

definition toggleClass :: "string \<Rightarrow> bool \<Rightarrow> string list \<Rightarrow> string list" where
  "toggleClass c add cs = (if add then addClass c cs else removeClass c cs)"

text \<open>
  The calls the surface makes on its collaborators, in the order it makes them, and
  the changes of expansion state and of row classes during a toggle. Editors are
  named by their position in \<open>editors\<close>, rows by their identity.
\<close>

datatype event =
    OnInspectorPropertyChanged nat string jsval
  | OnChange string jsval
  | UpdateDisplayedValue nat jsval
  | UnmarkInvalidGroups
  | EditorValidate nat
  | ExternalValidate nat
  | MarkInvalid nat
  | FindGroupRows group bool
  | SetTimeout nat
  | RowToggled nat bool
  | SetGroupStatus group bool

record options =
  enableExternalParameterEditor :: bool
  onChange :: bool
  onPopupDisplayed :: bool
  onPopupHidden :: bool

definition DEFAULTS :: options where
  "DEFAULTS = \<lparr>enableExternalParameterEditor = False, onChange = False,
     onPopupDisplayed = False, onPopupHidden = False\<rparr>"

text \<open>
  A pending \<^verbatim>\<open>setTimeout\<close> of \<open>expandOrCollapseRows\<close>: the row to toggle when it fires,
  the rows still to do after it, and the arguments of the call.
\<close>

record timer =
  timerRow :: nat
  timerRows :: "nat list"
  timerCollapse :: bool
  timerDuration :: nat

text \<open>
  What the page contributes beyond this model. \<open>readThrough\<close> and \<open>assignThrough\<close> say
  what a name reads, and what an assignment to it meets, on the chain behind a
  prototype that has been assigned through \<^verbatim>\<open>__proto__\<close>. \<open>querySelectorQuoted\<close> is the
  answer of \<^verbatim>\<open>querySelector\<close> to the selector that \<open>markPropertyChanged\<close> makes from a
  name with a character that CSS reads as syntax inside the quotes: a syntax error, no
  element, or the position of the first row that the selector as parsed matches.
\<close>

record host =
  readThrough :: "jsval \<Rightarrow> string \<Rightarrow> jsval"
  assignThrough :: "jsval \<Rightarrow> string \<Rightarrow> assignment"
  querySelectorQuoted :: "string \<Rightarrow> row list \<Rightarrow> nat option outcome"

text \<open>
  The state of a surface: the schema as parsed, the values (their own properties and
  their prototype) and the snapshot of them, the editors and external parameter editors
  in the order they were made, the rows of its table, its group, the expansion table of
  the group manager, the pending timers and the journal of events, and the page it
  lives in. \<open>onChange\<close> in the options says whether a callback is configured. The
  snapshot is an object that the constructor makes and nothing assigns to: its
  prototype is \<^verbatim>\<open>Object.prototype\<close>.
\<close>

record surface =
  inspectorUniqueId :: string
  surfaceOptions :: options
  parsedProperties :: "property_def list"
  "values" :: jsobject
  valuesPrototype :: prototype
  originalValues :: jsobject
  editors :: "editor list"
  externalParameterEditors :: "externalParameterEditor list"
  rows :: "row list"
  surfaceGroup :: group
  groupManager :: "group \<Rightarrow> bool"
  timers :: "timer list"
  journal :: "event list"
  page :: host

definition record_event :: "event \<Rightarrow> surface \<Rightarrow> surface" where
  "record_event e s = s\<lparr>journal := journal s @ [e]\<rparr>"

section \<open>Building\<close>

text \<open>
  The namespace \<^verbatim>\<open>$.oc.inspector\<close> as the surface uses it: the registered editor
  classes by name, each a constructor from the property definition and the group, and
  the constructor of external parameter editors.
\<close>

record inspector =
  propertyEditors :: "string \<Rightarrow> (property_def \<Rightarrow> group \<Rightarrow> editor) option"
  externalParameterEditor :: "property_def \<Rightarrow> externalParameterEditor"

definition isGroupExpanded :: "(group \<Rightarrow> bool) \<Rightarrow> group \<Rightarrow> bool" where
  "isGroupExpanded manager g = manager g"

definition getRowCssClass :: "(group \<Rightarrow> bool) \<Rightarrow> property_def \<Rightarrow> group \<Rightarrow> string list" where
  "getRowCssClass manager p g =
     [case itemType p of GroupItem \<Rightarrow> ''group'' | PropertyItem \<Rightarrow> ''property'']
     @ (if itemType p = PropertyItem \<and> parentGroup g \<noteq> None
          then [if isGroupExpanded manager g then ''expanded'' else ''collapsed'']
        else [])
     @ (if itemType p = PropertyItem \<and> \<not> showExternalParam p
          then [''no-external-parameter''] else [])"

definition applyGroupIndexAttribute :: "property_def \<Rightarrow> group \<Rightarrow> bool \<Rightarrow> row \<Rightarrow> row" where
  "applyGroupIndexAttribute p g isGroupedControl r =
     (if itemType p = GroupItem \<or> isGroupedControl
        then r\<lparr>data_group_index := Some g, data_parent_group_index := parentGroup g\<rparr>
      else if parentGroup g \<noteq> None then r\<lparr>data_parent_group_index := Some g\<rparr>
      else r)"

definition buildGroupExpandControl ::
  "(group \<Rightarrow> bool) \<Rightarrow> property_def \<Rightarrow> bool \<Rightarrow> group \<Rightarrow> row \<Rightarrow> row" where
  "buildGroupExpandControl manager p force g r =
     (if itemType p \<noteq> GroupItem \<and> \<not> force then r
      else if link r = None
        then r\<lparr>link := Some (''expandControl'' #
                     (if isGroupExpanded manager g then [''expanded''] else []))\<rparr>
      else r)"

text \<open>
  \<open>applyGroupLevelToRow\<close> keeps a level that is already set, and fails on a row
  without a \<^verbatim>\<open>TH\<close> cell.
\<close>

definition applyGroupLevelToRow :: "group \<Rightarrow> row \<Rightarrow> row outcome" where
  "applyGroupLevelToRow g r =
     (if data_group_level r \<noteq> None then Returns r
      else if \<not> hasHead r then Throws CannotFindTH
      else Returns (r\<lparr>data_group_level := Some (getLevel g)\<rparr>))"

definition buildRow :: "(group \<Rightarrow> bool) \<Rightarrow> nat \<Rightarrow> property_def \<Rightarrow> group \<Rightarrow> row" where
  "buildRow manager rid p g =
     buildGroupExpandControl manager p False g
       (applyGroupIndexAttribute p g False
          \<lparr>rowId = rid,
           data_property = (case property p of
                              None \<Rightarrow> None
                            | Some name \<Rightarrow> if name = [] then None else Some name),
           data_group_index = None,
           data_parent_group_index = None,
           data_group_level = None,
           classes = getRowCssClass manager p g,
           link = None,
           hasHead = True\<rparr>)"

text \<open>
  The registry \<^verbatim>\<open>$.oc.inspector.propertyEditors\<close> is a plain object, and
  \<open>validateEditorType\<close> reads it with \<^verbatim>\<open>propertyEditors[type]\<close>: under a kind that is not
  registered the read goes on to \<^verbatim>\<open>Object.prototype\<close>, and what it finds there is not
  \<^verbatim>\<open>undefined\<close> for the names of its members.
\<close>

definition validateEditorType :: "inspector \<Rightarrow> string option \<Rightarrow> unit outcome" where
  "validateEditorType env t =
     (let t' = (case t of None \<Rightarrow> ''string'' | Some name \<Rightarrow> name)
      in if propertyEditors env t' = None \<and> object_prototype t' = JUndefined
           then Throws (EditorClassNotDefined t')
         else Returns ())"

text \<open>
  \<open>buildEditor\<close> returns the row as it leaves it and the editor it has pushed, if any.
  A kind that has passed \<open>validateEditorType\<close> without being registered is a member of
  \<^verbatim>\<open>Object.prototype\<close>: \<^verbatim>\<open>new\<close> on it fails, or makes an object without the methods of
  an editor (for \<^verbatim>\<open>constructor\<close>), on which the next call fails.
\<close>

definition buildEditor ::
  "inspector \<Rightarrow> (group \<Rightarrow> bool) \<Rightarrow> row \<Rightarrow> property_def \<Rightarrow> group
     \<Rightarrow> (row \<times> editor list) outcome" where
  "buildEditor env manager r p g =
     (if itemType p \<noteq> PropertyItem then Returns (r, [])
      else
        (case validateEditorType env (type p) of
           Throws e \<Rightarrow> Throws e
         | Returns u \<Rightarrow>
             (case propertyEditors env (case type p of None \<Rightarrow> ''string'' | Some name \<Rightarrow> name) of
                None \<Rightarrow> Throws NotAConstructor
              | Some new_editor \<Rightarrow>
                  (let editor = new_editor p g in
                   if isGroupedEditor editor then
                     Returns
                       (buildGroupExpandControl manager p True (editorGroup editor)
                          (applyGroupIndexAttribute p (editorGroup editor) True
                             (r\<lparr>classes := addClass ''control-group'' (classes r)\<rparr>)),
                        [editor])
                   else Returns (r, [editor])))))"

text \<open>
  The loop of \<open>build\<close> over the parsed properties, with the \<open>currentGroup\<close> cursor; the
  rows and editors made so far are carried along. A row takes its identity from its
  place in the table.
\<close>

fun build_loop ::
  "inspector \<Rightarrow> (group \<Rightarrow> bool) \<Rightarrow> group \<Rightarrow> property_def list \<Rightarrow> group
     \<Rightarrow> row list \<Rightarrow> editor list \<Rightarrow> (row list \<times> editor list) outcome" where
  "build_loop env manager surface_group [] currentGroup tbody eds = Returns (tbody, eds)"
| "build_loop env manager surface_group (p # ps) currentGroup tbody eds =
     (let currentGroup' =
            (if itemType p = GroupItem
               then createGroup (groupIndex p) surface_group
             else if groupIndex p = None then surface_group
             else currentGroup);
          r = buildRow manager (length tbody) p currentGroup'
      in case (if itemType p = GroupItem
                 then (case parentGroup currentGroup' of
                         None \<Rightarrow> Throws NullElement
                       | Some parent \<Rightarrow> applyGroupLevelToRow parent r)
               else applyGroupLevelToRow currentGroup' r) of
           Throws e \<Rightarrow> Throws e
         | Returns r1 \<Rightarrow>
             (case buildEditor env manager r1 p currentGroup' of
                Throws e \<Rightarrow> Throws e
              | Returns (r2, new_editors) \<Rightarrow>
                  build_loop env manager surface_group ps currentGroup'
                    (tbody @ [r2]) (eds @ new_editors)))"

definition findPropertyDefinition :: "property_def list \<Rightarrow> string option \<Rightarrow> property_def option" where
  "findPropertyDefinition ps name = find (\<lambda>definition. property definition = name) ps"

fun buildExternalParameterEditor ::
  "inspector \<Rightarrow> property_def list \<Rightarrow> editor list \<Rightarrow> row list \<Rightarrow> externalParameterEditor list" where
  "buildExternalParameterEditor env ps eds [] = []"
| "buildExternalParameterEditor env ps eds (r # rs) =
     (if hasClass (classes r) ''no-external-parameter'' \<or> data_property r = None
        then buildExternalParameterEditor env ps eds rs
      else
        (case first_index (\<lambda>e. getPropertyName e = data_property r) eds of
           Some i \<Rightarrow>
             (if \<not> supportsExternalParameterEditor (eds ! i)
                then buildExternalParameterEditor env ps eds rs
              else (case findPropertyDefinition ps (data_property r) of
                      None \<Rightarrow> buildExternalParameterEditor env ps eds rs
                    | Some d \<Rightarrow> externalParameterEditor env d
                               # buildExternalParameterEditor env ps eds rs))
         | None \<Rightarrow>
             (case findPropertyDefinition ps (data_property r) of
                None \<Rightarrow> buildExternalParameterEditor env ps eds rs
              | Some d \<Rightarrow> externalParameterEditor env d
                         # buildExternalParameterEditor env ps eds rs)))"

text \<open>
  The constructor of a root surface (no parent surface, no group passed) in a page:
  \<open>properties\<close> is the list as \<^verbatim>\<open>processPropertyGroups\<close> returns it, \<open>vals\<close> is \<open>None\<close>
  for null and otherwise the own properties of a plain object, \<open>uniqueId\<close> is \<open>None\<close>
  for undefined, and \<open>manager\<close> is the expansion table of the new group manager.
  Focusing the first editor is left out.
\<close>

definition Surface ::
  "inspector \<Rightarrow> host \<Rightarrow> property_def list \<Rightarrow> jsobject option \<Rightarrow> string option \<Rightarrow> options
     \<Rightarrow> (group \<Rightarrow> bool) \<Rightarrow> surface outcome" where
  "Surface env h properties vals uniqueId opts manager =
     (case uniqueId of
        None \<Rightarrow> Throws UniqueIdUndefined
      | Some uid \<Rightarrow>
          (let vs = (case vals of None \<Rightarrow> [] | Some obj \<Rightarrow> obj)
           in case build_loop env manager RootGroup properties RootGroup [] [] of
                Throws e \<Rightarrow> Throws e
              | Returns (tbody, eds) \<Rightarrow>
                  Returns
                    \<lparr>inspectorUniqueId = uid,
                     surfaceOptions = opts,
                     parsedProperties = properties,
                     values = vs,
                     valuesPrototype = ObjectPrototype,
                     originalValues = clone_values vs,
                     editors = eds,
                     externalParameterEditors =
                       (if enableExternalParameterEditor opts
                          then buildExternalParameterEditor env properties eds tbody
                        else []),
                     rows = tbody,
                     surfaceGroup = RootGroup,
                     groupManager = manager,
                     timers = [],
                     journal = [],
                     page = h\<rparr>))"

section \<open>Field grouping\<close>

text \<open>
  Modelled from the spec: \<open>findGroupRows\<close>, \<open>findGroupRow\<close> and \<open>setGroupStatus\<close> belong
  to the group manager, which is not part of this file. The spec gives
  \<^verbatim>\<open>findGroupRows(rootElement, groupIndex, includeDescendants)\<close>: the rows that belong
  to the group and, if requested, the rows of all its descendant groups. A row belongs
  to the group named by its \<^verbatim>\<open>data-parent-group-index\<close>; the rows are returned by
  identity, in table order. \<open>findGroupRow\<close> is the row that carries the group's own
  index, and \<open>setGroupStatus\<close> records the expansion state.
\<close>

definition isDescendantOf :: "group \<Rightarrow> group \<Rightarrow> bool" where
  "isDescendantOf h g = (g \<in> set (tl (getGroupAndAllParents h)))"

definition findGroupRows :: "row list \<Rightarrow> group \<Rightarrow> bool \<Rightarrow> nat list" where
  "findGroupRows table g includeDescendants =
     map rowId
       (filter (\<lambda>r. case data_parent_group_index r of
                       None \<Rightarrow> False
                     | Some h \<Rightarrow> h = g \<or> (includeDescendants \<and> isDescendantOf h g))
          table)"

definition findGroupRow :: "row list \<Rightarrow> group \<Rightarrow> nat option" where
  "findGroupRow table g = map_option rowId (find (\<lambda>r. data_group_index r = Some g) table)"

definition setGroupStatus :: "group \<Rightarrow> bool \<Rightarrow> surface \<Rightarrow> surface" where
  "setGroupStatus g expanded s =
     record_event (SetGroupStatus g expanded) (s\<lparr>groupManager := (groupManager s)(g := expanded)\<rparr>)"

text \<open>The two \<open>toggleClass\<close> calls on one row of the table.\<close>

definition toggleRow :: "nat \<Rightarrow> bool \<Rightarrow> surface \<Rightarrow> surface" where
  "toggleRow rid collapse s =
     record_event (RowToggled rid collapse)
       (s\<lparr>rows := map (\<lambda>r. if rowId r = rid
                              then r\<lparr>classes := toggleClass ''expanded'' (\<not> collapse)
                                                   (toggleClass ''collapsed'' collapse (classes r))\<rparr>
                            else r) (rows s)\<rparr>)"

text \<open>
  \<open>expandOrCollapseRows\<close> pops the last row. Without animation it toggles the row and
  goes on with the rest; with animation it schedules that work with \<open>setTimeout\<close> and
  returns.
\<close>

function expandOrCollapseRows :: "nat list \<Rightarrow> bool \<Rightarrow> nat \<Rightarrow> bool \<Rightarrow> surface \<Rightarrow> surface" where
  "expandOrCollapseRows rs collapse duration noAnimation s =
     (if rs = [] then s
      else if \<not> noAnimation then
        record_event (SetTimeout duration)
          (s\<lparr>timers := timers s @ [\<lparr>timerRow = last rs, timerRows = butlast rs,
                                      timerCollapse = collapse, timerDuration = duration\<rparr>]\<rparr>)
      else expandOrCollapseRows (butlast rs) collapse duration noAnimation
             (toggleRow (last rs) collapse s))"
  by pat_completeness auto
termination
  by (relation "measure (\<lambda>(rs, collapse, duration, noAnimation, s). length rs)") auto

text \<open>
  The callback of the oldest pending timer: it toggles its row and calls
  \<open>expandOrCollapseRows\<close> on the rows that are left, with animation.
\<close>

definition fire_timer :: "surface \<Rightarrow> surface" where
  "fire_timer s =
     (case timers s of
        [] \<Rightarrow> s
      | t # ts \<Rightarrow>
          expandOrCollapseRows (timerRows t) (timerCollapse t) (timerDuration t) False
            (toggleRow (timerRow t) (timerCollapse t) (s\<lparr>timers := ts\<rparr>)))"

text \<open>
  \<^verbatim>\<open>Math.round(50 / n)\<close> for \<open>n\<close> rows rounds halves up. For no rows the quotient is
  infinite, and no timer is set with it; the model has 0 there.
\<close>

definition round_duration :: "nat \<Rightarrow> nat" where
  "round_duration n = (if n = 0 then 0 else (100 + n) div (2 * n))"

text \<open>
  \<open>toggleGroup\<close> is given a row of the table by identity. A row without an anchor makes
  the class helper fail on null; a row without a group index names no group.
\<close>

definition toggleGroup :: "nat \<Rightarrow> bool \<Rightarrow> surface \<Rightarrow> unit outcome \<times> surface" where
  "toggleGroup rid forceExpand s =
     (case first_index (\<lambda>r. rowId r = rid) (rows s) of
        None \<Rightarrow> (Throws NullElement, s)
      | Some i \<Rightarrow>
          (case link (rows s ! i) of
             None \<Rightarrow> (Throws NullElement, s)
           | Some lk \<Rightarrow>
               (let collapse = (hasClass lk ''expanded'' \<and> \<not> forceExpand);
                    s1 = s\<lparr>rows := (rows s)[i := (rows s ! i)\<lparr>link := Some
                            (if collapse then removeClass ''expanded'' lk
                             else addClass ''expanded'' lk)\<rparr>]\<rparr>
                in case data_group_index (rows s ! i) of
                     None \<Rightarrow> (Throws GroupNotFound, s1)
                   | Some g \<Rightarrow>
                       (let propertyRows = findGroupRows (rows s1) g (\<not> collapse);
                            duration = round_duration (length propertyRows);
                            s2 = record_event (FindGroupRows g (\<not> collapse)) s1;
                            s3 = expandOrCollapseRows propertyRows collapse duration forceExpand s2
                        in (Returns (), setGroupStatus g (\<not> collapse) s3)))))"

text \<open>
  The loop of \<open>expandGroupParents\<close>, over the groups in the order it visits
  them.
\<close>

fun expandGroupParents_loop :: "group list \<Rightarrow> surface \<Rightarrow> unit outcome \<times> surface" where
  "expandGroupParents_loop [] s = (Returns (), s)"
| "expandGroupParents_loop (g # gs) s =
     (case findGroupRow (rows s) g of
        None \<Rightarrow> expandGroupParents_loop gs s
      | Some rid \<Rightarrow>
          (case toggleGroup rid True s of
             (Throws e, s') \<Rightarrow> (Throws e, s')
           | (Returns u, s') \<Rightarrow> expandGroupParents_loop gs s'))"

definition expandGroupParents :: "group \<Rightarrow> surface \<Rightarrow> unit outcome \<times> surface" where
  "expandGroupParents g s = expandGroupParents_loop (rev (getGroupAndAllParents g)) s"

section \<open>Nested surfaces support\<close>

text \<open>
  \<^verbatim>\<open>parent.insertBefore(row, mergeAfterRow.nextSibling)\<close> on the rows of the table that
  holds the anchor: a row that is already in the table is moved, and an anchor that is
  in no table has no parent node.
\<close>

definition insertAfter :: "nat \<Rightarrow> row \<Rightarrow> row list \<Rightarrow> row list outcome" where
  "insertAfter anchor r table =
     (if rowId r = anchor then
        (if first_index (\<lambda>x. rowId x = anchor) table = None then Throws NullElement
         else Returns table)
      else
        (let table' = filter (\<lambda>x. rowId x \<noteq> rowId r) table
         in case first_index (\<lambda>x. rowId x = anchor) table' of
              None \<Rightarrow> Throws NullElement
            | Some i \<Rightarrow> Returns (take (Suc i) table' @ [r] @ drop (Suc i) table')))"

text \<open>
  The loop of \<open>mergeChildSurface\<close> over the child's rows, from the last to the first;
  \<open>g\<close> is the child surface's group. The table is returned as the loop left it, also
  when a row has stopped it.
\<close>

fun mergeChildSurface_loop :: "group \<Rightarrow> nat \<Rightarrow> row list \<Rightarrow> row list \<Rightarrow> unit outcome \<times> row list" where
  "mergeChildSurface_loop g mergeAfterRow [] table = (Returns (), table)"
| "mergeChildSurface_loop g mergeAfterRow (r # rs) table =
     (case insertAfter mergeAfterRow r table of
        Throws e \<Rightarrow> (Throws e, table)
      | Returns table1 \<Rightarrow>
          (case applyGroupLevelToRow g r of
             Throws e \<Rightarrow> (Throws e, table1)
           | Returns r' \<Rightarrow>
               mergeChildSurface_loop g mergeAfterRow rs
                 (map (\<lambda>x. if rowId x = rowId r then r' else x) table1)))"

text \<open>
  \<open>mergeChildSurface\<close> on the surface whose table holds the anchor row; \<open>child\<close> is the
  surface that is merged, with the rows of its own table. The result is the table that
  now holds the rows; that the child's container is repointed to it is not recorded.
\<close>

definition mergeChildSurface :: "surface \<Rightarrow> nat \<Rightarrow> surface \<Rightarrow> unit outcome \<times> surface" where
  "mergeChildSurface child mergeAfterRow s =
     (case mergeChildSurface_loop (surfaceGroup child) mergeAfterRow (rev (rows child)) (rows s) of
        (result, table) \<Rightarrow> (result, s\<lparr>rows := table\<rparr>))"

section \<open>Internal API for the editors\<close>

definition getPropertyValue :: "surface \<Rightarrow> string \<Rightarrow> jsval" where
  "getPropertyValue s name =
     obj_read (readThrough (page s)) (valuesPrototype s) (values s) name"

definition findPropertyEditor :: "surface \<Rightarrow> string option \<Rightarrow> nat option" where
  "findPropertyEditor s name =
     first_index (\<lambda>e. getPropertyName e = name) (editors s)"

definition findExternalParameterEditor :: "surface \<Rightarrow> string option \<Rightarrow> nat option" where
  "findExternalParameterEditor s name =
     first_index (\<lambda>e. extPropertyName e = name) (externalParameterEditors s)"

text \<open>
  \<open>markPropertyChanged\<close> pastes the name between double quotes into the selector
  \<^verbatim>\<open>tr[data-property="..."]\<close>. Inside the quotes CSS takes every character for itself
  except the double quote, the backslash, the line breaks (line feed, carriage return,
  form feed) and the null character; a name without them is plain, and the selector
  made from it matches the rows whose attribute is that name.
\<close>

definition selector_plain :: "string \<Rightarrow> bool" where
  "selector_plain name =
     list_all (\<lambda>c. c \<notin> set [CHR 0x22, CHR 0x5C, CHR 0x0A, CHR 0x0D, CHR 0x0C, CHR 0x00]) name"

definition querySelector_row :: "host \<Rightarrow> string \<Rightarrow> row list \<Rightarrow> nat option outcome" where
  "querySelector_row h name table =
     (if selector_plain name
        then Returns (first_index (\<lambda>r. data_property r = Some name) table)
      else querySelectorQuoted h name table)"

text \<open>
  \<open>querySelector\<close> finds the first row of the table that the selector matches, or null.
  The class helper reads the class list of the element it is given, so a null row ends
  the call with a TypeError.
\<close>

definition markPropertyChanged :: "string \<Rightarrow> bool \<Rightarrow> surface \<Rightarrow> unit outcome \<times> surface" where
  "markPropertyChanged name changed s =
     (case querySelector_row (page s) name (rows s) of
        Throws e \<Rightarrow> (Throws e, s)
      | Returns None \<Rightarrow> (Throws NullElement, s)
      | Returns (Some i) \<Rightarrow>
          (if length (rows s) \<le> i then (Throws NullElement, s)
           else
             (Returns (),
              s\<lparr>rows := (rows s)[i := (rows s ! i)\<lparr>classes :=
                   (if changed then addClass ''changed'' (classes (rows s ! i))
                    else removeClass ''changed'' (classes (rows s ! i)))\<rparr>]\<rparr>)))"

definition notifyEditorsPropertyChanged :: "string \<Rightarrow> jsval \<Rightarrow> surface \<Rightarrow> surface" where
  "notifyEditorsPropertyChanged name value s =
     s\<lparr>journal := journal s @
        map (\<lambda>i. OnInspectorPropertyChanged i name value) [0..<length (editors s)]\<rparr>"

text \<open>
  The first statement of \<open>setPropertyValue\<close>: the assignment to \<^verbatim>\<open>this.values[property]\<close>,
  or for \<^verbatim>\<open>undefined\<close> the deletion of the key when the property does not read
  \<^verbatim>\<open>undefined\<close>.
\<close>

definition writeValue :: "string \<Rightarrow> jsval \<Rightarrow> surface \<Rightarrow> surface outcome" where
  "writeValue name value s =
     (if value \<noteq> JUndefined then
        (case obj_assign (assignThrough (page s)) name value (values s, valuesPrototype s) of
           Throws e \<Rightarrow> Throws e
         | Returns obj \<Rightarrow> Returns (s\<lparr>values := fst obj, valuesPrototype := snd obj\<rparr>))
      else if obj_read (readThrough (page s)) (valuesPrototype s) (values s) name \<noteq> JUndefined
        then Returns (s\<lparr>values := obj_delete name (values s)\<rparr>)
      else Returns s)"

definition setPropertyValue ::
  "(jsval \<Rightarrow> jsval \<Rightarrow> bool) \<Rightarrow> string \<Rightarrow> jsval \<Rightarrow> bool \<Rightarrow> bool \<Rightarrow> surface
     \<Rightarrow> jsval outcome \<times> surface" where
  "setPropertyValue coerce name value supressChangeEvents forceEditorUpdate s =
     (case writeValue name value s of
        Throws e \<Rightarrow> (Throws e, s)
      | Returns s1 \<Rightarrow>
          (let r = (if \<not> supressChangeEvents then
                      (case markPropertyChanged name
                              (if obj_read (readThrough (page s1)) ObjectPrototype
                                    (originalValues s1) name = JUndefined then True
                               else \<not> comparePropertyValues coerce
                                        (obj_read (readThrough (page s1)) ObjectPrototype
                                           (originalValues s1) name) value) s1 of
                         (Throws e, s2) \<Rightarrow> (Throws e, s2)
                       | (Returns u, s2) \<Rightarrow>
                           (let s3 = notifyEditorsPropertyChanged name value s2
                            in (Returns (),
                                if onChange (surfaceOptions s3)
                                  then record_event (OnChange name value) s3 else s3)))
                    else (Returns (), s1))
           in case r of
                (Throws e, s4) \<Rightarrow> (Throws e, s4)
              | (Returns u, s4) \<Rightarrow>
                  (Returns value,
                   if forceEditorUpdate then
                     (case findPropertyEditor s4 (Some name) of
                        Some i \<Rightarrow> record_event (UpdateDisplayedValue i value) s4
                      | None \<Rightarrow> s4)
                   else s4)))"

section \<open>External API\<close>

text \<open>
  A property definition without a name is read and written under the key
  \<^verbatim>\<open>undefined\<close>. The result of \<open>getValues\<close> is a new object, given like the values by
  its own properties and its prototype, and \<^verbatim>\<open>result[property.property] = value\<close> is an
  assignment like any other.
\<close>

definition property_key :: "string option \<Rightarrow> string" where
  "property_key p = (case p of None \<Rightarrow> ''undefined'' | Some name \<Rightarrow> name)"

fun getValues_loop ::
  "surface \<Rightarrow> property_def list \<Rightarrow> jsobject \<times> prototype \<Rightarrow> (jsobject \<times> prototype) outcome" where
  "getValues_loop s [] result = Returns result"
| "getValues_loop s (p # ps) result =
     (if itemType p \<noteq> PropertyItem then getValues_loop s ps result
      else
        (let externalParameterEditor = findExternalParameterEditor s (property p) in
         if (case externalParameterEditor of
               None \<Rightarrow> True
             | Some j \<Rightarrow> \<not> isEditorVisible (externalParameterEditors s ! j))
         then
           (let value = getPropertyValue s (property_key (property p));
                value' = (if value = JUndefined then
                            (case findPropertyEditor s (property p) of
                               Some i \<Rightarrow> getUndefinedValue (editors s ! i)
                             | None \<Rightarrow> default p)
                          else value)
            in if value' = JRemovedProperty then getValues_loop s ps result
               else (case obj_assign (assignThrough (page s)) (property_key (property p))
                            value' result of
                       Throws e \<Rightarrow> Throws e
                     | Returns result' \<Rightarrow> getValues_loop s ps result'))
         else
           (case obj_assign (assignThrough (page s)) (property_key (property p))
                   (JStr (''{{ '' @ getValue (externalParameterEditors s ! the externalParameterEditor)
                            @ '' }}'')) result of
              Throws e \<Rightarrow> Throws e
            | Returns result' \<Rightarrow> getValues_loop s ps result')))"

definition getValues :: "surface \<Rightarrow> (jsobject \<times> prototype) outcome" where
  "getValues s = getValues_loop s (parsedProperties s) ([], ObjectPrototype)"



definition hasChanges :: "(jsval \<Rightarrow> jsval \<Rightarrow> bool) \<Rightarrow> surface \<Rightarrow> bool" where
  "hasChanges coerce s =
     (\<not> comparePropertyValues coerce (JObj (originalValues s)) (JObj (values s)))"

section \<open>Conditions and examples used in the statements\<close>

text \<open>
  In the data model only a group marker lacks a property name, and a property is
  described once. A property named \<^verbatim>\<open>__proto__\<close> is set apart: an assignment under
  that name stores no key.
\<close>

definition named_schema :: "property_def list \<Rightarrow> bool" where
  "named_schema ps =
     list_all (\<lambda>p. itemType p = GroupItem
                   \<or> (property p \<noteq> None \<and> property p \<noteq> Some ''__proto__'')) ps"

definition wellformed_schema :: "property_def list \<Rightarrow> bool" where
  "wellformed_schema ps =
     (named_schema ps
      \<and> distinct (map property (filter (\<lambda>p. itemType p = PropertyItem) ps)))"

text \<open>
  The test of \<open>getValues\<close> and \<open>validate\<close>: an external parameter
  editor is attached and visible.
\<close>

definition externalVisible :: "surface \<Rightarrow> string option \<Rightarrow> bool" where
  "externalVisible s name =
     (case findExternalParameterEditor s name of
        None \<Rightarrow> False
      | Some j \<Rightarrow> isEditorVisible (externalParameterEditors s ! j))"

text \<open>
  Modelled from the spec: the editor classes are not part of this file. The spec's
  example has a property of type \<^verbatim>\<open>string\<close> with default \<^verbatim>\<open>#fff\<close> and no stored value
  read back as \<^verbatim>\<open>#fff\<close>, so the undefined-value substitute of the string editor is the
  default of its property definition; the editor is named after its property, is not
  grouped, and accepts its value.
\<close>

definition stringEditor :: "property_def \<Rightarrow> group \<Rightarrow> editor" where
  "stringEditor p g =
     \<lparr>propertyDefinition = p, getPropertyName = property p, getUndefinedValue = default p,
      editorValidate = True, isGroupedEditor = False, supportsExternalParameterEditor = True,
      editorGroup = g\<rparr>"

definition example_inspector :: inspector where
  "example_inspector =
     \<lparr>propertyEditors = (\<lambda>t. if t = ''string'' then Some stringEditor else None),
      externalParameterEditor =
        (\<lambda>p. \<lparr>extPropertyName = property p, isEditorVisible = False, getValue = [],
               extValidate = True\<rparr>)\<rparr>"

definition appearance_group :: property_def where
  "appearance_group =
     \<lparr>property = None, itemType = GroupItem, groupIndex = Some 1, title = ''Appearance'',
      description = None, type = None, default = JUndefined, showExternalParam = False\<rparr>"

definition color_property :: property_def where
  "color_property =
     \<lparr>property = Some ''color'', itemType = PropertyItem, groupIndex = Some 1,
      title = ''Color'', description = None, type = Some ''string'', default = JStr ''#fff'',
      showExternalParam = False\<rparr>"

definition example_schema :: "property_def list" where
  "example_schema = [appearance_group, color_property]"

text \<open>
  The page of the examples. It refuses the selector made from a name that is not plain
  with a syntax error, which is what a browser answers when a double quote in the name
  cuts the quoted value short. None of the examples assigns an object as a prototype,
  so the other two answers are never asked for.
\<close>

definition plain_host :: host where
  "plain_host =
     \<lparr>readThrough = (\<lambda>v key. JUndefined), assignThrough = (\<lambda>v key. CreatesKey),
      querySelectorQuoted = (\<lambda>name table. Throws InvalidSelector)\<rparr>"

text \<open>
  The surface that the constructor builds from the example schema and no values.
\<close>

definition example_surface :: surface where
  "example_surface =
     \<lparr>inspectorUniqueId = ''inspector-1'',
      surfaceOptions = DEFAULTS,
      parsedProperties = example_schema,
      values = [],
      valuesPrototype = ObjectPrototype,
      originalValues = [],
      editors = [stringEditor color_property (Group (Some 1) RootGroup)],
      externalParameterEditors = [],
      rows =
        [\<lparr>rowId = 0, data_property = None,
           data_group_index = Some (Group (Some 1) RootGroup),
           data_parent_group_index = Some RootGroup, data_group_level = Some 0,
           classes = [''group''], link = Some [''expandControl'', ''expanded''],
           hasHead = True\<rparr>,
         \<lparr>rowId = 1, data_property = Some ''color'', data_group_index = None,
           data_parent_group_index = Some (Group (Some 1) RootGroup),
           data_group_level = Some 1,
           classes = [''property'', ''expanded'', ''no-external-parameter''],
           link = None, hasHead = True\<rparr>],
      surfaceGroup = RootGroup,
      groupManager = (\<lambda>g. True),
      timers = [],
      journal = [],
      page = plain_host\<rparr>"

text \<open>
  A conversion for \<^verbatim>\<open>==\<close> on operands of different types that
  equates none.
\<close>

definition no_coercion :: "jsval \<Rightarrow> jsval \<Rightarrow> bool" where
  "no_coercion a b = False"

text \<open>
  The own properties of the values after the write of \<open>setPropertyValue\<close> under a name
  other than \<^verbatim>\<open>__proto__\<close>, when their prototype is \<^verbatim>\<open>Object.prototype\<close>: stored,
  deleted, or left as they are.
\<close>

definition written :: "string \<Rightarrow> jsval \<Rightarrow> jsobject \<Rightarrow> jsobject" where
  "written name v obj =
     (if v \<noteq> JUndefined then own_set name v obj
      else if obj_get obj name \<noteq> JUndefined then obj_delete name obj
      else obj)"

text \<open>
  What \<^verbatim>\<open>this.originalValues[name]\<close> reads: the snapshot's own property, or the member
  of \<^verbatim>\<open>Object.prototype\<close> of that name.
\<close>

definition originalValue :: "surface \<Rightarrow> string \<Rightarrow> jsval" where
  "originalValue s name =
     (if obj_has (originalValues s) name then obj_get (originalValues s) name
      else object_prototype name)"

text \<open>
  The position of the first element of a list that goes by a name, said without the
  search loop.
\<close>

definition first_named :: "('a \<Rightarrow> string option) \<Rightarrow> string option \<Rightarrow> 'a list \<Rightarrow> nat \<Rightarrow> bool" where
  "first_named f name xs j =
     (j < length xs \<and> f (xs ! j) = name \<and> (\<forall>k<j. f (xs ! k) \<noteq> name))"

text \<open>
  The last step of \<open>setPropertyValue\<close>: the owning editor redisplays the
  value when asked to.
\<close>

definition forceUpdate :: "string \<Rightarrow> jsval \<Rightarrow> bool \<Rightarrow> surface \<Rightarrow> surface" where
  "forceUpdate name v force s =
     (if force then (case findPropertyEditor s (Some name) of
                       Some i \<Rightarrow> record_event (UpdateDisplayedValue i v) s
                     | None \<Rightarrow> s)
      else s)"

text \<open>
  What one turn of the loop of \<open>getValues\<close> does to the own properties of the result,
  for a property that is not named \<^verbatim>\<open>__proto__\<close>.
\<close>

definition getValues_step :: "surface \<Rightarrow> property_def \<Rightarrow> jsobject \<Rightarrow> jsobject" where
  "getValues_step s p result =
     (if itemType p \<noteq> PropertyItem then result
      else if externalVisible s (property p) then
        own_set (property_key (property p))
          (JStr (''{{ '' @ getValue (externalParameterEditors s
                     ! the (findExternalParameterEditor s (property p))) @ '' }}'')) result
      else if getPropertyValue s (property_key (property p)) \<noteq> JUndefined then
        (if getPropertyValue s (property_key (property p)) = JRemovedProperty then result
         else own_set (property_key (property p))
                (getPropertyValue s (property_key (property p))) result)
      else
        (case findPropertyEditor s (property p) of
           Some i \<Rightarrow>
             (if getUndefinedValue (editors s ! i) = JRemovedProperty then result
              else own_set (property_key (property p)) (getUndefinedValue (editors s ! i)) result)
         | None \<Rightarrow>
             (if default p = JRemovedProperty then result
              else own_set (property_key (property p)) (default p) result)))"



text \<open>
  A property of the default kind (no type, no default), and the row of such a property
  under the root group.
\<close>

definition text_property :: "string \<Rightarrow> property_def" where
  "text_property name =
     \<lparr>property = Some name, itemType = PropertyItem, groupIndex = None, title = name,
      description = None, type = None, default = JUndefined, showExternalParam = True\<rparr>"

definition text_row :: "nat \<Rightarrow> string \<Rightarrow> row" where
  "text_row rid name =
     \<lparr>rowId = rid, data_property = Some name, data_group_index = None,
      data_parent_group_index = None, data_group_level = Some 0,
      classes = [''property''], link = None, hasHead = True\<rparr>"

text \<open>
  The surface that the constructor builds for the properties \<^verbatim>\<open>a\<close>
  and \<^verbatim>\<open>b\<close> with the values \<^verbatim>\<open>{a: 1, b:
  2}\<close>.
\<close>

definition ab_surface :: surface where
  "ab_surface =
     \<lparr>inspectorUniqueId = ''inspector-2'',
      surfaceOptions = DEFAULTS,
      parsedProperties = [text_property ''a'', text_property ''b''],
      values = [(''a'', JNum 1), (''b'', JNum 2)],
      valuesPrototype = ObjectPrototype,
      originalValues = [(''a'', JNum 1), (''b'', JNum 2)],
      editors = [stringEditor (text_property ''a'') RootGroup,
                 stringEditor (text_property ''b'') RootGroup],
      externalParameterEditors = [],
      rows = [text_row 0 ''a'', text_row 1 ''b''],
      surfaceGroup = RootGroup,
      groupManager = (\<lambda>g. True),
      timers = [],
      journal = [],
      page = plain_host\<rparr>"

text \<open>
  The kind under which \<open>validateEditorType\<close> looks a property up, and the
  properties for which it fails.
\<close>

definition editorKind :: "property_def \<Rightarrow> string" where
  "editorKind p = (case type p of None \<Rightarrow> ''string'' | Some name \<Rightarrow> name)"

definition unknownKind :: "inspector \<Rightarrow> property_def \<Rightarrow> bool" where
  "unknownKind env p = (itemType p = PropertyItem \<and> propertyEditors env (editorKind p) = None)"

text \<open>
  The \<open>currentGroup\<close> cursor of \<open>build\<close> after an item.
\<close>

definition nextGroup :: "group \<Rightarrow> group \<Rightarrow> property_def \<Rightarrow> group" where
  "nextGroup sg cg p =
     (if itemType p = GroupItem then createGroup (groupIndex p) sg
      else if groupIndex p = None then sg
      else cg)"

text \<open>A row after \<open>applyGroupLevelToRow\<close> has succeeded for a group.\<close>

definition leveled :: "group \<Rightarrow> row \<Rightarrow> row" where
  "leveled g r = (if data_group_level r \<noteq> None then r else r\<lparr>data_group_level := Some (getLevel g)\<rparr>)"

text \<open>
  What a toggle leaves alone in a row: its identity, its group attributes, and whether it
  has an anchor.
\<close>

definition skeleton :: "row \<Rightarrow> nat \<times> group option \<times> group option \<times> bool" where
  "skeleton r = (rowId r, data_group_index r, data_parent_group_index r, link r = None)"

text \<open>
  The events of an animation that runs to its end, for the rows in the order they are
  popped.
\<close>

fun animation_steps :: "nat list \<Rightarrow> bool \<Rightarrow> nat \<Rightarrow> event list" where
  "animation_steps [] c d = []"
| "animation_steps [r] c d = [RowToggled r c]"
| "animation_steps (r # r' # rs) c d = RowToggled r c # SetTimeout d # animation_steps (r' # rs) c d"

text \<open>
  A table with a subgroup: group 1 (collapsed) holds a property and group 2, which is
  expanded and holds a property of its own.
\<close>

definition nested_surface :: surface where
  "nested_surface =
     example_surface\<lparr>rows :=
       [\<lparr>rowId = 0, data_property = None,
          data_group_index = Some (Group (Some 1) RootGroup),
          data_parent_group_index = Some RootGroup, data_group_level = Some 0,
          classes = [''group''], link = Some [''expandControl''], hasHead = True\<rparr>,
        \<lparr>rowId = 1, data_property = Some ''color'', data_group_index = None,
          data_parent_group_index = Some (Group (Some 1) RootGroup),
          data_group_level = Some 1,
          classes = [''property'', ''collapsed'', ''no-external-parameter''],
          link = None, hasHead = True\<rparr>,
        \<lparr>rowId = 2, data_property = None,
          data_group_index = Some (Group (Some 2) (Group (Some 1) RootGroup)),
          data_parent_group_index = Some (Group (Some 1) RootGroup),
          data_group_level = Some 1,
          classes = [''group'', ''collapsed''], link = Some [''expandControl'', ''expanded''],
          hasHead = True\<rparr>,
        \<lparr>rowId = 3, data_property = Some ''width'', data_group_index = None,
          data_parent_group_index = Some (Group (Some 2) (Group (Some 1) RootGroup)),
          data_group_level = Some 2,
          classes = [''property'', ''collapsed'', ''no-external-parameter''],
          link = None, hasHead = True\<rparr>],
       groupManager := (\<lambda>g. True)(Group (Some 1) RootGroup := False)\<rparr>"

text \<open>
  Rows are told apart by their identity, and every row that carries a group index has an
  expand control.
\<close>

definition toggle_ready :: "row list \<Rightarrow> bool" where
  "toggle_ready table =
     (distinct (map rowId table)
      \<and> list_all (\<lambda>r. data_group_index r = None \<or> link r \<noteq> None) table)"

text \<open>
  The events of one forced \<open>toggleGroup\<close> on the row of a group, if the table
  has one.
\<close>

definition forced_events :: "row list \<Rightarrow> group \<Rightarrow> event list" where
  "forced_events table h =
     (case findGroupRow table h of
        None \<Rightarrow> []
      | Some rid \<Rightarrow>
          FindGroupRows h True
            # map (\<lambda>r. RowToggled r False) (rev (findGroupRows table h True))
            @ [SetGroupStatus h True])"

text \<open>The example surface after group 1 has been collapsed.\<close>

definition collapsed_surface :: surface where
  "collapsed_surface =
     example_surface\<lparr>rows :=
       [\<lparr>rowId = 0, data_property = None,
          data_group_index = Some (Group (Some 1) RootGroup),
          data_parent_group_index = Some RootGroup, data_group_level = Some 0,
          classes = [''group''], link = Some [''expandControl''], hasHead = True\<rparr>,
        \<lparr>rowId = 1, data_property = Some ''color'', data_group_index = None,
          data_parent_group_index = Some (Group (Some 1) RootGroup),
          data_group_level = Some 1,
          classes = [''property'', ''no-external-parameter'', ''collapsed''],
          link = None, hasHead = True\<rparr>],
       groupManager := (\<lambda>g. True)(Group (Some 1) RootGroup := False)\<rparr>"


text \<open>
  A child surface with two rows that have no group level yet, rooted at group 1.
\<close>

definition child_row :: "nat \<Rightarrow> string \<Rightarrow> row" where
  "child_row rid name =
     \<lparr>rowId = rid, data_property = Some name, data_group_index = None,
      data_parent_group_index = Some (Group (Some 1) RootGroup), data_group_level = None,
      classes = [''property''], link = None, hasHead = True\<rparr>"

definition child_surface :: surface where
  "child_surface =
     example_surface\<lparr>
       parsedProperties := [text_property ''x'', text_property ''y''],
       editors := [stringEditor (text_property ''x'') (Group (Some 1) RootGroup),
                   stringEditor (text_property ''y'') (Group (Some 1) RootGroup)],
       rows := [child_row 10 ''x'', child_row 11 ''y''],
       surfaceGroup := Group (Some 1) RootGroup\<rparr>"

text \<open>
  A string property named \<^verbatim>\<open>constructor\<close> with default \<^verbatim>\<open>x\<close>, and the surface that
  the constructor builds from it and no values.
\<close>

definition constructor_property :: property_def where
  "constructor_property =
     \<lparr>property = Some ''constructor'', itemType = PropertyItem, groupIndex = None,
      title = ''Constructor'', description = None, type = Some ''string'', default = JStr ''x'',
      showExternalParam = False\<rparr>"

definition constructor_surface :: surface where
  "constructor_surface =
     \<lparr>inspectorUniqueId = ''inspector-3'',
      surfaceOptions = DEFAULTS,
      parsedProperties = [constructor_property],
      values = [],
      valuesPrototype = ObjectPrototype,
      originalValues = [],
      editors = [stringEditor constructor_property RootGroup],
      externalParameterEditors = [],
      rows =
        [\<lparr>rowId = 0, data_property = Some ''constructor'', data_group_index = None,
           data_parent_group_index = None, data_group_level = Some 0,
           classes = [''property'', ''no-external-parameter''],
           link = None, hasHead = True\<rparr>],
      surfaceGroup = RootGroup,
      groupManager = (\<lambda>g. True),
      timers = [],
      journal = [],
      page = plain_host\<rparr>"

text \<open>
  A conversion for \<^verbatim>\<open>==\<close> that equates the function \<^verbatim>\<open>Object\<close> with its source
  text and nothing else: \<^verbatim>\<open>==\<close> compares a function with a string by the function's
  string form.
\<close>

definition source_coercion :: "jsval \<Rightarrow> jsval \<Rightarrow> bool" where
  "source_coercion a b =
     (a = JBuiltin ''constructor'' \<and> b = JStr ''function Object() { [native code] }'')"

text \<open>
  The surface that the constructor builds for one property named
  \<^verbatim>\<open>__proto__\<close> and no values.
\<close>

definition proto_surface :: surface where
  "proto_surface =
     \<lparr>inspectorUniqueId = ''inspector-4'',
      surfaceOptions = DEFAULTS,
      parsedProperties = [text_property ''__proto__''],
      values = [],
      valuesPrototype = ObjectPrototype,
      originalValues = [],
      editors = [stringEditor (text_property ''__proto__'') RootGroup],
      externalParameterEditors = [],
      rows = [text_row 0 ''__proto__''],
      surfaceGroup = RootGroup,
      groupManager = (\<lambda>g. True),
      timers = [],
      journal = [],
      page = plain_host\<rparr>"

text \<open>
  The error of \<open>buildEditor\<close> for a kind that is not registered, and a namespace
  in which no kind is.
\<close>

definition kindError :: "string \<Rightarrow> error" where
  "kindError kind =
     (if object_prototype kind = JUndefined then EditorClassNotDefined kind else NotAConstructor)"

definition bare_inspector :: inspector where
  "bare_inspector = example_inspector\<lparr>propertyEditors := (\<lambda>t. None)\<rparr>"

text \<open>
  A surface on which every way of resolving a value occurs: \<^verbatim>\<open>a\<close> has a visible
  external parameter editor, \<^verbatim>\<open>b\<close> has a stored value, \<^verbatim>\<open>color\<close> has neither and an
  editor, \<^verbatim>\<open>c\<close> has neither and no editor, and \<^verbatim>\<open>r\<close> is stored as removed.
\<close>

definition priority_surface :: surface where
  "priority_surface =
     example_surface\<lparr>
       parsedProperties :=
         [text_property ''a'', text_property ''b'', color_property,
          (text_property ''c'')\<lparr>default := JStr ''d''\<rparr>, text_property ''r''],
       values := [(''a'', JNum 1), (''b'', JNum 2), (''r'', JRemovedProperty)],
       editors := [stringEditor (text_property ''a'') RootGroup,
                   stringEditor (text_property ''b'') RootGroup,
                   stringEditor color_property (Group (Some 1) RootGroup)],
       externalParameterEditors :=
         [\<lparr>extPropertyName = Some ''b'', isEditorVisible = False, getValue = ''hidden'',
           extValidate = True\<rparr>,
          \<lparr>extPropertyName = Some ''a'', isEditorVisible = True, getValue = ''expr'',
           extValidate = True\<rparr>]\<rparr>"

text \<open>
  The name \<^verbatim>\<open>a"b\<close>, and the surface that the constructor builds for one
  property of that name and no values.
\<close>

definition quoted_name :: string where
  "quoted_name = [CHR ''a'', CHR 0x22, CHR ''b'']"

definition quote_surface :: surface where
  "quote_surface =
     \<lparr>inspectorUniqueId = ''inspector-5'',
      surfaceOptions = DEFAULTS,
      parsedProperties = [text_property quoted_name],
      values = [],
      valuesPrototype = ObjectPrototype,
      originalValues = [],
      editors = [stringEditor (text_property quoted_name) RootGroup],
      externalParameterEditors = [],
      rows = [text_row 0 quoted_name],
      surfaceGroup = RootGroup,
      groupManager = (\<lambda>g. True),
      timers = [],
      journal = [],
      page = plain_host\<rparr>"

section \<open>Object lemmas\<close>

lemma obj_has_Nil: "obj_has [] key = False"
  by (simp add: obj_has_def)

lemma obj_has_Cons: "obj_has (kv # kvs) key = (fst kv = key \<or> obj_has kvs key)"
  by (auto simp: obj_has_def)

lemmas obj_has_simps = obj_has_Nil obj_has_Cons

lemma obj_has_append: "obj_has (xs @ ys) key = (obj_has xs key \<or> obj_has ys key)"
  by (auto simp: obj_has_def)

lemma obj_get_absent: "\<not> obj_has obj key \<Longrightarrow> obj_get obj key = JUndefined"
  by (induction obj) (auto simp: obj_has_simps)

lemma obj_get_replace: "obj_has obj key \<Longrightarrow> obj_get (obj_replace key v obj) key = v"
  by (induction obj) (auto simp: obj_has_simps)

lemma obj_get_replace_other: "k \<noteq> key \<Longrightarrow> obj_get (obj_replace key v obj) k = obj_get obj k"
  by (induction obj) auto

lemma obj_get_insert_index: "obj_get (obj_insert_index n key v obj) key = (if obj_has obj key then obj_get (obj_insert_index n key v obj) key else v)"
  by (induction obj) (auto simp: obj_has_simps split: option.splits)

lemma obj_get_insert_index_other:
  "k \<noteq> key \<Longrightarrow> obj_get (obj_insert_index n key v obj) k = obj_get obj k"
  by (induction obj) (auto split: option.splits)

lemma obj_get_append: "obj_get (obj @ [(key, v)]) k = (if obj_has obj k then obj_get obj k else if k = key then v else JUndefined)"
  by (induction obj) (auto simp: obj_has_simps)

lemma obj_get_set_same: "obj_get (own_set key v obj) key = v"
  using obj_get_insert_index[of _ key v obj]
  by (auto simp: own_set_def obj_get_replace obj_get_append split: option.splits)

lemma obj_get_set_other: "k \<noteq> key \<Longrightarrow> obj_get (own_set key v obj) k = obj_get obj k"
  by (auto simp: own_set_def obj_get_replace_other obj_get_insert_index_other obj_get_append obj_get_absent split: option.splits)

lemma obj_has_replace: "obj_has (obj_replace key v obj) k = obj_has obj k"
  by (induction obj) (auto simp: obj_has_simps split: if_splits)

lemma obj_has_insert_index: "obj_has (obj_insert_index n key v obj) k = (k = key \<or> obj_has obj k)"
  by (induction obj) (auto simp: obj_has_simps split: option.splits if_splits)

lemma obj_has_set: "obj_has (own_set key v obj) k = (k = key \<or> obj_has obj k)"
  by (auto simp: own_set_def obj_has_replace obj_has_insert_index obj_has_append obj_has_simps split: option.splits)

lemma obj_get_delete_same: "obj_get (obj_delete key obj) key = JUndefined"
  by (induction obj) (auto simp: obj_delete_def)

lemma obj_get_delete_other: "k \<noteq> key \<Longrightarrow> obj_get (obj_delete key obj) k = obj_get obj k"
  by (induction obj) (auto simp: obj_delete_def)

lemma obj_has_delete: "obj_has (obj_delete key obj) k = (k \<noteq> key \<and> obj_has obj k)"
  by (auto simp: obj_delete_def obj_has_def)

lemma obj_delete_absent: "\<not> obj_has obj key \<Longrightarrow> obj_delete key obj = obj"
  by (induction obj) (auto simp: obj_has_simps obj_delete_def)

lemma obj_read_standard:
  "obj_read through ObjectPrototype obj key
     = (if obj_has obj key then obj_get obj key else object_prototype key)"
  by (simp add: obj_read_def inherited_def)

lemma obj_read_own: "obj_has obj key \<Longrightarrow> obj_read through proto obj key = obj_get obj key"
  by (simp add: obj_read_def)

lemma obj_assign_standard:
  "key \<noteq> ''__proto__'' \<Longrightarrow>
   obj_assign through key v (obj, ObjectPrototype) = Returns (own_set key v obj, ObjectPrototype)"
  by (simp add: obj_assign_def assignment_of_def)

lemma obj_assign_own:
  "obj_has obj key \<Longrightarrow> obj_assign through key v (obj, proto) = Returns (own_set key v obj, proto)"
  by (simp add: obj_assign_def)

lemma obj_assign_proto:
  "\<not> obj_has obj ''__proto__'' \<Longrightarrow>
   obj_assign through ''__proto__'' v (obj, ObjectPrototype)
     = Returns (obj, if v = JObjectPrototype then ObjectPrototype
                     else if is_object v \<or> v = JNull then SetTo v else ObjectPrototype)"
  by (simp add: obj_assign_def assignment_of_def)

section \<open>Construction of the example\<close>

lemmas example_defs = example_surface_def example_schema_def appearance_group_def
  color_property_def stringEditor_def example_inspector_def DEFAULTS_def

lemmas build_defs = Surface_def buildRow_def buildEditor_def validateEditorType_def
  applyGroupIndexAttribute_def buildGroupExpandControl_def applyGroupLevelToRow_def
  getRowCssClass_def isGroupExpanded_def createGroup_def clone_values_def

lemma example_surface_built:
  "Surface example_inspector plain_host example_schema (Some []) (Some ''inspector-1'') DEFAULTS
     (\<lambda>g. True) = Returns example_surface"
  by (simp add: example_defs build_defs Let_def)

section \<open>Searching\<close>

lemma first_index_Some:
  "first_index P xs = Some i \<Longrightarrow> i < length xs \<and> P (xs ! i) \<and> (\<forall>j<i. \<not> P (xs ! j))"
proof (induction xs arbitrary: i)
  case Nil
  then show ?case by simp
next
  case (Cons x xs)
  show ?case
  proof (cases "P x")
    case True
    with Cons.prems show ?thesis by simp
  next
    case False
    with Cons.prems obtain k where k: "first_index P xs = Some k" "i = Suc k"
      by auto
    from Cons.IH[OF k(1)] False k(2) show ?thesis
      by (auto simp: less_Suc_eq_0_disj)
  qed
qed

lemma first_index_None: "first_index P xs = None \<longleftrightarrow> (\<forall>x\<in>set xs. \<not> P x)"
  by (induction xs) auto

lemma first_index_update:
  "P y = P (xs ! i) \<Longrightarrow> i < length xs \<Longrightarrow> first_index P (xs[i := y]) = first_index P xs"
proof (induction xs arbitrary: i)
  case Nil
  then show ?case by simp
next
  case (Cons x xs)
  then show ?case by (cases i) auto
qed

lemma first_index_map: "first_index (\<lambda>x. P (f x)) xs = first_index P (map f xs)"
  by (induction xs) simp_all

lemma first_index_first:
  assumes "i < length xs" "P (xs ! i)" "\<forall>j<i. \<not> P (xs ! j)"
  shows "first_index P xs = Some i"
  using assms
proof (induction xs arbitrary: i)
  case Nil
  then show ?case by simp
next
  case (Cons x xs)
  show ?case
  proof (cases i)
    case 0
    with Cons.prems show ?thesis by simp
  next
    case (Suc k)
    with Cons.prems have x: "\<not> P x" by auto
    from Cons.prems Suc have "k < length xs" "P (xs ! k)" "\<forall>j<k. \<not> P (xs ! j)"
      by auto
    from Cons.IH[OF this] x Suc show ?thesis by simp
  qed
qed

lemma first_named_index:
  "first_named f name xs j \<longleftrightarrow> first_index (\<lambda>x. f x = name) xs = Some j"
  unfolding first_named_def
  using first_index_Some[of "\<lambda>x. f x = name" xs j] first_index_first[of j xs "\<lambda>x. f x = name"]
  by blast

section \<open>Writing a value\<close>

lemma querySelector_row_plain:
  "selector_plain name \<Longrightarrow>
   querySelector_row h name table = Returns (first_index (\<lambda>r. data_property r = Some name) table)"
  by (simp add: querySelector_row_def)

lemma markPropertyChanged_frame:
  "markPropertyChanged name changed s = (r, s') \<Longrightarrow>
     values s' = values s \<and> valuesPrototype s' = valuesPrototype s
     \<and> originalValues s' = originalValues s \<and> editors s' = editors s
     \<and> externalParameterEditors s' = externalParameterEditors s
     \<and> parsedProperties s' = parsedProperties s \<and> journal s' = journal s
     \<and> surfaceOptions s' = surfaceOptions s \<and> page s' = page s"
  by (auto simp: markPropertyChanged_def split: option.splits outcome.splits if_splits)

lemma markPropertyChanged_none:
  assumes "selector_plain name"
    and "first_index (\<lambda>r. data_property r = Some name) (rows s) = None"
  shows "markPropertyChanged name changed s = (Throws NullElement, s)"
  by (simp add: markPropertyChanged_def querySelector_row_plain[OF assms(1)] assms(2))

lemma markPropertyChanged_found:
  assumes "selector_plain name"
    and "first_index (\<lambda>r. data_property r = Some name) (rows s) = Some i"
  shows "markPropertyChanged name changed s
     = (Returns (),
        s\<lparr>rows := (rows s)[i := (rows s ! i)\<lparr>classes :=
             (if changed then addClass ''changed'' (classes (rows s ! i))
              else removeClass ''changed'' (classes (rows s ! i)))\<rparr>]\<rparr>)"
proof -
  from first_index_Some[OF assms(2)] have "i < length (rows s)" by simp
  then show ?thesis
    by (simp add: markPropertyChanged_def querySelector_row_plain[OF assms(1)] assms(2))
qed

lemma writeValue_standard:
  assumes "valuesPrototype s = ObjectPrototype" "name \<noteq> ''__proto__''"
  shows "writeValue name v s = Returns (s\<lparr>values := written name v (values s)\<rparr>)"
proof (cases "v = JUndefined")
  case False
  have "s\<lparr>values := x, valuesPrototype := ObjectPrototype\<rparr> = s\<lparr>values := x\<rparr>" for x
    using assms(1) by (cases s) simp
  with False show ?thesis
    by (simp add: writeValue_def assms(1) obj_assign_standard[OF assms(2)] written_def)
next
  case True
  have same: "s\<lparr>values := values s\<rparr> = s"
    by (cases s) simp
  show ?thesis
  proof (cases "obj_has (values s) name")
    case True
    with \<open>v = JUndefined\<close> same show ?thesis
      by (simp add: writeValue_def assms(1) obj_read_standard written_def)
  next
    case False
    with \<open>v = JUndefined\<close> same show ?thesis
      by (simp add: writeValue_def assms(1) obj_read_standard written_def obj_get_absent
          obj_delete_absent)
  qed
qed

lemma originalValue_read:
  "obj_read through ObjectPrototype (originalValues s) name = originalValue s name"
  by (simp add: obj_read_standard originalValue_def)

lemma setPropertyValue_supressed:
  assumes "valuesPrototype s = ObjectPrototype" "name \<noteq> ''__proto__''"
  shows "setPropertyValue coerce name v True force s
     = (Returns v, forceUpdate name v force (s\<lparr>values := written name v (values s)\<rparr>))"
  unfolding setPropertyValue_def writeValue_standard[OF assms]
  by (simp add: forceUpdate_def Let_def)

lemma setPropertyValue_no_row:
  assumes "valuesPrototype s = ObjectPrototype" "name \<noteq> ''__proto__''"
    and "selector_plain name"
    and "first_index (\<lambda>r. data_property r = Some name) (rows s) = None"
  shows "setPropertyValue coerce name v False force s
     = (Throws NullElement, s\<lparr>values := written name v (values s)\<rparr>)"
proof -
  have m: "markPropertyChanged name c (s\<lparr>values := written name v (values s)\<rparr>)
      = (Throws NullElement, s\<lparr>values := written name v (values s)\<rparr>)" for c
    by (rule markPropertyChanged_none[OF assms(3)]) (simp add: assms(4))
  show ?thesis
    unfolding setPropertyValue_def writeValue_standard[OF assms(1,2)]
    by (simp add: m Let_def)
qed

lemma setPropertyValue_row:
  assumes "valuesPrototype s = ObjectPrototype" "name \<noteq> ''__proto__''"
    and "selector_plain name"
    and "first_index (\<lambda>r. data_property r = Some name) (rows s) = Some i"
  shows "setPropertyValue coerce name v False force s
     = (Returns v,
        forceUpdate name v force
          ((if onChange (surfaceOptions s) then record_event (OnChange name v) else id)
             (notifyEditorsPropertyChanged name v
                (s\<lparr>values := written name v (values s),
                   rows := (rows s)[i := (rows s ! i)\<lparr>classes :=
                     (if (if originalValue s name = JUndefined then True
                          else \<not> comparePropertyValues coerce (originalValue s name) v)
                        then addClass ''changed'' (classes (rows s ! i))
                      else removeClass ''changed'' (classes (rows s ! i)))\<rparr>]\<rparr>))))"
proof -
  let ?s1 = "s\<lparr>values := written name v (values s)\<rparr>"
  have row: "first_index (\<lambda>r. data_property r = Some name) (rows ?s1) = Some i"
    by (simp add: assms(4))
  have orig: "originalValue ?s1 name = originalValue s name"
    by (simp add: originalValue_def)
  show ?thesis
    unfolding setPropertyValue_def writeValue_standard[OF assms(1,2)]
    by (simp add: markPropertyChanged_found[OF assms(3) row] originalValue_read orig
        forceUpdate_def notifyEditorsPropertyChanged_def record_event_def
        findPropertyEditor_def Let_def split: option.splits)
qed

lemma forceUpdate_frame:
  "values (forceUpdate name v force s) = values s
   \<and> valuesPrototype (forceUpdate name v force s) = valuesPrototype s
   \<and> originalValues (forceUpdate name v force s) = originalValues s
   \<and> editors (forceUpdate name v force s) = editors s
   \<and> externalParameterEditors (forceUpdate name v force s) = externalParameterEditors s
   \<and> parsedProperties (forceUpdate name v force s) = parsedProperties s
   \<and> surfaceOptions (forceUpdate name v force s) = surfaceOptions s
   \<and> rows (forceUpdate name v force s) = rows s
   \<and> page (forceUpdate name v force s) = page s"
  by (simp add: forceUpdate_def record_event_def split: option.splits)

lemma setPropertyValue_cases [consumes 3, case_names supressed no_row row]:
  assumes "valuesPrototype s = ObjectPrototype" "name \<noteq> ''__proto__''"
    and "supress \<or> selector_plain name"
  obtains (supressed) "supress"
      "setPropertyValue coerce name v supress force s
         = (Returns v, forceUpdate name v force (s\<lparr>values := written name v (values s)\<rparr>))"
    | (no_row) "\<not> supress"
      "first_index (\<lambda>r. data_property r = Some name) (rows s) = None"
      "setPropertyValue coerce name v supress force s
         = (Throws NullElement, s\<lparr>values := written name v (values s)\<rparr>)"
    | (row) i where "\<not> supress" "first_index (\<lambda>r. data_property r = Some name) (rows s) = Some i"
      "setPropertyValue coerce name v supress force s
     = (Returns v,
        forceUpdate name v force
          ((if onChange (surfaceOptions s) then record_event (OnChange name v) else id)
             (notifyEditorsPropertyChanged name v
                (s\<lparr>values := written name v (values s),
                   rows := (rows s)[i := (rows s ! i)\<lparr>classes :=
                     (if (if originalValue s name = JUndefined then True
                          else \<not> comparePropertyValues coerce (originalValue s name) v)
                        then addClass ''changed'' (classes (rows s ! i))
                      else removeClass ''changed'' (classes (rows s ! i)))\<rparr>]\<rparr>))))"
proof (cases supress)
  case True
  then show ?thesis using supressed setPropertyValue_supressed[OF assms(1,2)] by simp
next
  case False
  with assms(3) have plain: "selector_plain name" by simp
  show ?thesis
  proof (cases "first_index (\<lambda>r. data_property r = Some name) (rows s)")
    case None
    with False show ?thesis
      using no_row setPropertyValue_no_row[OF assms(1,2) plain None] by simp
  next
    case (Some i)
    with False show ?thesis
      using row[of i] setPropertyValue_row[OF assms(1,2) plain Some] by simp
  qed
qed

text \<open>
  Whatever the name and the page, a call of \<open>setPropertyValue\<close> leaves the snapshot, the
  editors, the schema and the options as they are.
\<close>

lemma writeValue_frame:
  "writeValue name v s = Returns s1 \<Longrightarrow>
     originalValues s1 = originalValues s \<and> editors s1 = editors s
     \<and> externalParameterEditors s1 = externalParameterEditors s
     \<and> parsedProperties s1 = parsedProperties s \<and> surfaceOptions s1 = surfaceOptions s
     \<and> rows s1 = rows s \<and> journal s1 = journal s \<and> page s1 = page s"
  by (auto simp: writeValue_def split: if_splits outcome.splits)

lemma setPropertyValue_unfold:
  "writeValue name v s = Returns s1 \<Longrightarrow>
   \<exists>c. setPropertyValue coerce name v supress force s
     = (case (if \<not> supress then
                (case markPropertyChanged name c s1 of
                   (Throws e, s2) \<Rightarrow> (Throws e, s2)
                 | (Returns u, s2) \<Rightarrow>
                     (Returns (),
                      (if onChange (surfaceOptions s2) then record_event (OnChange name v) else id)
                        (notifyEditorsPropertyChanged name v s2)))
              else (Returns (), s1)) of
          (Throws e, s4) \<Rightarrow> (Throws e, s4)
        | (Returns u, s4) \<Rightarrow> (Returns v, forceUpdate name v force s4))"
  by (rule exI[of _ "if obj_read (readThrough (page s1)) ObjectPrototype (originalValues s1) name
                          = JUndefined then True
                     else \<not> comparePropertyValues coerce
                              (obj_read (readThrough (page s1)) ObjectPrototype
                                 (originalValues s1) name) v"])
     (simp add: setPropertyValue_def forceUpdate_def Let_def notifyEditorsPropertyChanged_def
        record_event_def split: prod.splits outcome.splits option.splits)

lemma setPropertyValue_frame:
  "originalValues (snd (setPropertyValue coerce name v supress force s)) = originalValues s
   \<and> editors (snd (setPropertyValue coerce name v supress force s)) = editors s
   \<and> externalParameterEditors (snd (setPropertyValue coerce name v supress force s))
       = externalParameterEditors s
   \<and> parsedProperties (snd (setPropertyValue coerce name v supress force s)) = parsedProperties s
   \<and> surfaceOptions (snd (setPropertyValue coerce name v supress force s)) = surfaceOptions s
   \<and> page (snd (setPropertyValue coerce name v supress force s)) = page s"
proof (cases "writeValue name v s")
  case (Throws e)
  then show ?thesis by (simp add: setPropertyValue_def)
next
  case (Returns s1)
  note w = writeValue_frame[OF Returns]
  from setPropertyValue_unfold[OF Returns, of coerce supress force] obtain c where
    sp: "setPropertyValue coerce name v supress force s
     = (case (if \<not> supress then
                (case markPropertyChanged name c s1 of
                   (Throws e, s2) \<Rightarrow> (Throws e, s2)
                 | (Returns u, s2) \<Rightarrow>
                     (Returns (),
                      (if onChange (surfaceOptions s2) then record_event (OnChange name v) else id)
                        (notifyEditorsPropertyChanged name v s2)))
              else (Returns (), s1)) of
          (Throws e, s4) \<Rightarrow> (Throws e, s4)
        | (Returns u, s4) \<Rightarrow> (Returns v, forceUpdate name v force s4))"
    by blast
  obtain r s2 where m: "markPropertyChanged name c s1 = (r, s2)"
    by (cases "markPropertyChanged name c s1")
  note f = markPropertyChanged_frame[OF m]
  from w f show ?thesis
    unfolding sp m
    by (cases r)
       (simp_all add: forceUpdate_frame record_event_def notifyEditorsPropertyChanged_def)
qed

lemma externalVisible_frame:
  "externalParameterEditors s' = externalParameterEditors s \<Longrightarrow>
   externalVisible s' name = externalVisible s name"
  by (simp add: externalVisible_def findExternalParameterEditor_def split: option.splits)

lemma setPropertyValue_values:
  assumes "valuesPrototype s = ObjectPrototype" "name \<noteq> ''__proto__''"
  shows "values (snd (setPropertyValue coerce name v supress force s)) = written name v (values s)
    \<and> valuesPrototype (snd (setPropertyValue coerce name v supress force s)) = ObjectPrototype"
proof -
  let ?s1 = "s\<lparr>values := written name v (values s)\<rparr>"
  note w = writeValue_standard[OF assms, of v]
  from setPropertyValue_unfold[OF w, of coerce supress force] obtain c where
    sp: "setPropertyValue coerce name v supress force s
     = (case (if \<not> supress then
                (case markPropertyChanged name c ?s1 of
                   (Throws e, s2) \<Rightarrow> (Throws e, s2)
                 | (Returns u, s2) \<Rightarrow>
                     (Returns (),
                      (if onChange (surfaceOptions s2) then record_event (OnChange name v) else id)
                        (notifyEditorsPropertyChanged name v s2)))
              else (Returns (), ?s1)) of
          (Throws e, s4) \<Rightarrow> (Throws e, s4)
        | (Returns u, s4) \<Rightarrow> (Returns v, forceUpdate name v force s4))"
    by blast
  obtain r s2 where m: "markPropertyChanged name c ?s1 = (r, s2)"
    by (cases "markPropertyChanged name c ?s1")
  note f = markPropertyChanged_frame[OF m]
  from f assms(1) show ?thesis
    unfolding sp m
    by (cases r)
       (simp_all add: forceUpdate_frame record_event_def notifyEditorsPropertyChanged_def)
qed

section \<open>Reading the values back\<close>

lemma getValues_loop_Cons:
  "itemType p = PropertyItem \<longrightarrow> property p \<noteq> Some ''__proto__'' \<Longrightarrow>
   getValues_loop s (p # ps) (result, ObjectPrototype)
     = getValues_loop s ps (getValues_step s p result, ObjectPrototype)"
proof (cases "itemType p = PropertyItem")
  case False
  then show ?thesis by (simp add: getValues_step_def)
next
  case True
  moreover assume "itemType p = PropertyItem \<longrightarrow> property p \<noteq> Some ''__proto__''"
  ultimately have "property_key (property p) \<noteq> ''__proto__''"
    by (cases "property p") (simp_all add: property_key_def)
  from obj_assign_standard[OF this] True show ?thesis
    by (simp add: getValues_step_def externalVisible_def Let_def split: option.splits)
qed

declare getValues_loop.simps(2) [simp del]

lemma getValues_loop_fold:
  "\<forall>p\<in>set ps. itemType p = PropertyItem \<longrightarrow> property p \<noteq> Some ''__proto__'' \<Longrightarrow>
   getValues_loop s ps (result, ObjectPrototype)
     = Returns (fold (getValues_step s) ps result, ObjectPrototype)"
proof (induction ps arbitrary: result)
  case Nil
  show ?case by simp
next
  case (Cons p ps)
  from Cons.prems have p: "itemType p = PropertyItem \<longrightarrow> property p \<noteq> Some ''__proto__''"
    and rest: "\<forall>p\<in>set ps. itemType p = PropertyItem \<longrightarrow> property p \<noteq> Some ''__proto__''"
    by simp_all
  show ?case
    unfolding getValues_loop_Cons[OF p] Cons.IH[OF rest] by simp
qed

lemma named_schema_keys:
  "named_schema ps \<Longrightarrow>
   \<forall>p\<in>set ps. itemType p = PropertyItem \<longrightarrow> property p \<noteq> Some ''__proto__''"
  by (auto simp: named_schema_def list_all_iff)

lemma getValues_named:
  "named_schema (parsedProperties s) \<Longrightarrow>
   getValues s = Returns (fold (getValues_step s) (parsedProperties s) [], ObjectPrototype)"
  unfolding getValues_def by (rule getValues_loop_fold[OF named_schema_keys])

lemma getValues_step_other:
  "itemType p = PropertyItem \<longrightarrow> property_key (property p) \<noteq> k \<Longrightarrow>
   obj_get (getValues_step s p result) k = obj_get result k
   \<and> obj_has (getValues_step s p result) k = obj_has result k"
  by (auto simp: getValues_step_def obj_get_set_other obj_has_set split: option.splits)

lemma getValues_fold_other:
  "\<forall>p\<in>set ps. itemType p = PropertyItem \<longrightarrow> property_key (property p) \<noteq> k \<Longrightarrow>
   obj_get (fold (getValues_step s) ps result) k = obj_get result k
   \<and> obj_has (fold (getValues_step s) ps result) k = obj_has result k"
proof (induction ps arbitrary: result)
  case Nil
  show ?case by simp
next
  case (Cons p ps)
  have step: "obj_get (getValues_step s p result) k = obj_get result k
     \<and> obj_has (getValues_step s p result) k = obj_has result k"
    using Cons.prems by (intro getValues_step_other) simp
  have "\<forall>p\<in>set ps. itemType p = PropertyItem \<longrightarrow> property_key (property p) \<noteq> k"
    using Cons.prems by simp
  from Cons.IH[OF this, of "getValues_step s p result"] step
  show ?case by simp
qed

lemma wellformed_schema_split:
  assumes wf: "wellformed_schema ps" and q: "q \<in> set ps" "itemType q = PropertyItem"
  shows "\<exists>xs ys. ps = xs @ q # ys
    \<and> (\<forall>p\<in>set xs \<union> set ys. itemType p = PropertyItem
           \<longrightarrow> property_key (property p) \<noteq> property_key (property q))"
proof -
  from q(1) obtain xs ys where ps: "ps = xs @ q # ys"
    by (auto simp: in_set_conv_decomp)
  have named: "\<And>p. p \<in> set ps \<Longrightarrow> itemType p = PropertyItem \<Longrightarrow> property p \<noteq> None"
    using wf by (auto simp: wellformed_schema_def named_schema_def list_all_iff)
  have dist: "distinct (map property (filter (\<lambda>p. itemType p = PropertyItem) ps))"
    using wf by (simp add: wellformed_schema_def)
  have other: "property p \<noteq> property q"
    if "p \<in> set xs \<union> set ys" "itemType p = PropertyItem" for p
    using dist that q(2) unfolding ps by (fastforce simp: image_iff)
  have "property_key (property p) \<noteq> property_key (property q)"
    if "p \<in> set xs \<union> set ys" "itemType p = PropertyItem" for p
  proof -
    have "property p \<noteq> None" "property q \<noteq> None"
      using named[of p] named[of q] that q unfolding ps by auto
    with other[OF that] show ?thesis
      by (auto simp: property_key_def)
  qed
  with ps show ?thesis by blast
qed

lemma getValues_entry:
  assumes wf: "wellformed_schema (parsedProperties s)"
    and q: "q \<in> set (parsedProperties s)" "itemType q = PropertyItem"
  shows "\<exists>result. getValues s = Returns (result, ObjectPrototype)
       \<and> obj_get result (property_key (property q))
           = obj_get (getValues_step s q []) (property_key (property q))
       \<and> obj_has result (property_key (property q))
           = obj_has (getValues_step s q []) (property_key (property q))"
proof -
  let ?k = "property_key (property q)"
  let ?f = "getValues_step s"
  from wf have named: "named_schema (parsedProperties s)"
    by (simp add: wellformed_schema_def)
  from wellformed_schema_split[OF wf q] obtain xs ys where
    ps: "parsedProperties s = xs @ q # ys" and
    other: "\<forall>p\<in>set xs \<union> set ys. itemType p = PropertyItem \<longrightarrow> property_key (property p) \<noteq> ?k"
    by blast
  let ?r = "fold ?f xs []"
  let ?res = "fold ?f (parsedProperties s) []"
  have before: "obj_get ?r ?k = JUndefined \<and> obj_has ?r ?k = False"
    using getValues_fold_other[of xs ?k s "[]"] other by (simp add: obj_has_Nil)
  have after: "obj_get ?res ?k = obj_get (?f q ?r) ?k \<and> obj_has ?res ?k = obj_has (?f q ?r) ?k"
    unfolding ps
    using getValues_fold_other[of ys ?k s "?f q ?r"] other by simp
  have "obj_get (?f q ?r) ?k = obj_get (?f q []) ?k \<and> obj_has (?f q ?r) ?k = obj_has (?f q []) ?k"
    using before
    by (auto simp: getValues_step_def obj_get_set_same obj_has_set obj_has_Nil split: option.splits)
  with after getValues_named[OF named] show ?thesis by simp
qed

lemma getValues_frame:
  assumes "parsedProperties s' = parsedProperties s" "values s' = values s"
    "valuesPrototype s' = valuesPrototype s"
    "editors s' = editors s" "externalParameterEditors s' = externalParameterEditors s"
    "page s' = page s"
  shows "getValues s' = getValues s"
proof -
  have "getValues_loop s' ps r = getValues_loop s ps r" for ps r
  proof (induction ps arbitrary: r)
    case Nil
    show ?case by simp
  next
    case (Cons p ps)
    show ?case
      by (simp add: getValues_loop.simps(2) Cons.IH getPropertyValue_def
          findExternalParameterEditor_def findPropertyEditor_def assms Let_def
          split: option.splits outcome.splits)
  qed
  then show ?thesis
    by (simp add: getValues_def assms(1))
qed

section \<open>The example surface\<close>

lemmas obj_eval = own_set_def obj_has_def obj_delete_def array_index_def is_digit_def
  digits_val_def digit_val_def

lemma ex_fields:
  "parsedProperties example_surface = [appearance_group, color_property]"
  "values example_surface = []"
  "originalValues example_surface = []"
  "editors example_surface = [stringEditor color_property (Group (Some 1) RootGroup)]"
  "externalParameterEditors example_surface = []"
  "surfaceOptions example_surface = DEFAULTS"
  "journal example_surface = []"
  "timers example_surface = []"
  "valuesPrototype example_surface = ObjectPrototype"
  "page example_surface = plain_host"
  by (simp_all add: example_surface_def example_schema_def)

lemma ex_items:
  "itemType appearance_group = GroupItem" "itemType color_property = PropertyItem"
  "property appearance_group = None"
  "property color_property = Some ''color''" "default color_property = JStr ''#fff''"
  by (simp_all add: appearance_group_def color_property_def)

lemma ex_wf: "wellformed_schema (parsedProperties example_surface)"
  by (simp add: ex_fields ex_items wellformed_schema_def named_schema_def)

lemma ex_named: "named_schema (parsedProperties example_surface)"
  by (simp add: ex_fields ex_items named_schema_def)

lemma ex_hidden: "\<not> externalVisible example_surface name"
  by (simp add: ex_fields externalVisible_def findExternalParameterEditor_def)

lemma ex_editor: "findPropertyEditor example_surface (Some ''color'') = Some 0"
  "getUndefinedValue (editors example_surface ! 0) = JStr ''#fff''"
  by (simp_all add: ex_fields ex_items findPropertyEditor_def stringEditor_def)

lemma plain_names:
  "selector_plain ''color''" "selector_plain ''size''" "selector_plain ''a''"
  "selector_plain ''constructor''" "selector_plain ''__proto__''"
  "''color'' \<noteq> ''__proto__''" "''size'' \<noteq> ''__proto__''" "''a'' \<noteq> ''__proto__''"
  "''constructor'' \<noteq> ''__proto__''"
  by (simp_all add: selector_plain_def)

lemma prototype_names:
  "object_prototype ''color'' = JUndefined" "object_prototype ''size'' = JUndefined"
  "object_prototype ''a'' = JUndefined" "object_prototype ''b'' = JUndefined"
  "object_prototype ''string'' = JUndefined" "object_prototype ''dropdown'' = JUndefined"
  "object_prototype ''constructor'' = JBuiltin ''constructor''"
  "object_prototype ''toString'' = JBuiltin ''toString''"
  "object_prototype ''__proto__'' = JObjectPrototype"
  by (simp_all add: object_prototype_def object_prototype_methods_def)

lemma ex_getValues:
  "getValues example_surface = Returns ([(''color'', JStr ''#fff'')], ObjectPrototype)"
  by (simp add: getValues_named[OF ex_named] ex_fields getValues_step_def ex_items
      ex_hidden ex_editor property_key_def obj_eval stringEditor_def getPropertyValue_def
      obj_read_standard prototype_names)

lemma ex_row:
  "first_index (\<lambda>r. data_property r = Some ''color'') (rows example_surface) = Some 1"
  "first_index (\<lambda>r. data_property r = Some ''size'') (rows example_surface) = None"
  by (simp_all add: example_surface_def)

section \<open>Value synchronisation\<close>

text \<open>
  C5, as amended: for a name other than \<^verbatim>\<open>__proto__\<close>, on a surface whose values have
  \<^verbatim>\<open>Object.prototype\<close> for their prototype, \<open>setPropertyValue\<close> writes the value into the
  values map; an undefined value stores nothing: the key is deleted if it held a
  defined value, and the map is left as it is otherwise. No other key changes. When
  change events are suppressed, or the name is plain in a selector and has a row in the
  table, the call returns the value, and unless suppressed it has notified every editor
  of the surface with \<open>onInspectorPropertyChanged(name, value)\<close> in the order of the
  editor list, and after all of them has called the \<open>onChange\<close> callback if one is
  configured; a forced redisplay of the owning editor comes last. When change events
  are not suppressed and the name has no row, the call fails after the write and
  notifies nobody.
\<close>

theorem setPropertyValue_writes_and_notifies:
  assumes "valuesPrototype s = ObjectPrototype" and "name \<noteq> ''__proto__''"
    and "s' = snd (setPropertyValue coerce name v supress force s)"
  shows "valuesPrototype s' = ObjectPrototype
    \<and> (v \<noteq> JUndefined \<longrightarrow>
          values s' = own_set name v (values s)
          \<and> obj_has (values s') name \<and> getPropertyValue s' name = v)
    \<and> (v = JUndefined \<longrightarrow>
          obj_get (values s') name = JUndefined
          \<and> (obj_get (values s) name \<noteq> JUndefined \<longrightarrow> \<not> obj_has (values s') name)
          \<and> (obj_get (values s) name = JUndefined \<longrightarrow> values s' = values s))
    \<and> (\<forall>k. k \<noteq> name \<longrightarrow> obj_get (values s') k = obj_get (values s) k)
    \<and> (supress \<or> (selector_plain name
                    \<and> first_index (\<lambda>r. data_property r = Some name) (rows s) \<noteq> None) \<longrightarrow>
          fst (setPropertyValue coerce name v supress force s) = Returns v
          \<and> journal s' = journal s
               @ (if supress then []
                  else map (\<lambda>i. OnInspectorPropertyChanged i name v) [0..<length (editors s)]
                       @ (if onChange (surfaceOptions s) then [OnChange name v] else []))
               @ (if force then (case findPropertyEditor s (Some name) of
                                   Some i \<Rightarrow> [UpdateDisplayedValue i v]
                                 | None \<Rightarrow> [])
                  else [])
          \<and> (\<not> supress \<longrightarrow>
                (\<forall>i<length (editors s). OnInspectorPropertyChanged i name v \<in> set (journal s'))))
    \<and> (\<not> supress \<and> selector_plain name
          \<and> first_index (\<lambda>r. data_property r = Some name) (rows s) = None \<longrightarrow>
          fst (setPropertyValue coerce name v supress force s) = Throws NullElement
          \<and> journal s' = journal s)"
proof -
  have vals: "values s' = written name v (values s)"
    and v0: "valuesPrototype s' = ObjectPrototype"
    unfolding assms(3) using setPropertyValue_values[OF assms(1,2)] by simp_all
  have v1: "v \<noteq> JUndefined \<longrightarrow>
          values s' = own_set name v (values s)
          \<and> obj_has (values s') name \<and> getPropertyValue s' name = v"
    unfolding getPropertyValue_def v0 vals
    by (simp add: written_def obj_read_standard obj_has_set obj_get_set_same)
  have v2: "v = JUndefined \<longrightarrow>
          obj_get (values s') name = JUndefined
          \<and> (obj_get (values s) name \<noteq> JUndefined \<longrightarrow> \<not> obj_has (values s') name)
          \<and> (obj_get (values s) name = JUndefined \<longrightarrow> values s' = values s)"
    unfolding vals by (simp add: written_def obj_get_delete_same obj_has_delete)
  have v3: "\<forall>k. k \<noteq> name \<longrightarrow> obj_get (values s') k = obj_get (values s) k"
    unfolding vals by (simp add: written_def obj_get_delete_other obj_get_set_other)
  have finished: "supress \<or> (selector_plain name
                    \<and> first_index (\<lambda>r. data_property r = Some name) (rows s) \<noteq> None) \<longrightarrow>
          fst (setPropertyValue coerce name v supress force s) = Returns v
          \<and> journal s' = journal s
               @ (if supress then []
                  else map (\<lambda>i. OnInspectorPropertyChanged i name v) [0..<length (editors s)]
                       @ (if onChange (surfaceOptions s) then [OnChange name v] else []))
               @ (if force then (case findPropertyEditor s (Some name) of
                                   Some i \<Rightarrow> [UpdateDisplayedValue i v]
                                 | None \<Rightarrow> [])
                  else [])
          \<and> (\<not> supress \<longrightarrow>
                (\<forall>i<length (editors s). OnInspectorPropertyChanged i name v \<in> set (journal s')))"
  proof
    assume a: "supress \<or> (selector_plain name
                    \<and> first_index (\<lambda>r. data_property r = Some name) (rows s) \<noteq> None)"
    have rj: "fst (setPropertyValue coerce name v supress force s) = Returns v
      \<and> journal s' = journal s
           @ (if supress then []
              else map (\<lambda>i. OnInspectorPropertyChanged i name v) [0..<length (editors s)]
                   @ (if onChange (surfaceOptions s) then [OnChange name v] else []))
           @ (if force then (case findPropertyEditor s (Some name) of
                               Some i \<Rightarrow> [UpdateDisplayedValue i v]
                             | None \<Rightarrow> [])
              else [])"
    proof (cases supress)
      case True
      show ?thesis
        unfolding assms(3) using True
        by (simp add: setPropertyValue_supressed[OF assms(1,2)] forceUpdate_def record_event_def
            findPropertyEditor_def split: option.splits)
    next
      case False
      with a obtain i where plain: "selector_plain name"
        and i: "first_index (\<lambda>r. data_property r = Some name) (rows s) = Some i"
        by auto
      show ?thesis
        unfolding assms(3) using False
        by (simp add: setPropertyValue_row[OF assms(1,2) plain i] forceUpdate_def record_event_def
            notifyEditorsPropertyChanged_def findPropertyEditor_def split: option.splits)
    qed
    have every: "\<not> supress \<longrightarrow>
        (\<forall>i<length (editors s). OnInspectorPropertyChanged i name v \<in> set (journal s'))"
    proof (intro impI allI)
      fix i
      assume ns: "\<not> supress" and i: "i < length (editors s)"
      then have m: "OnInspectorPropertyChanged i name v
          \<in> set (map (\<lambda>i. OnInspectorPropertyChanged i name v) [0..<length (editors s)])"
        by simp
      have jeq: "journal s' = journal s
           @ (map (\<lambda>i. OnInspectorPropertyChanged i name v) [0..<length (editors s)]
              @ (if onChange (surfaceOptions s) then [OnChange name v] else []))
           @ (if force then (case findPropertyEditor s (Some name) of
                               Some i \<Rightarrow> [UpdateDisplayedValue i v]
                             | None \<Rightarrow> [])
              else [])"
        using rj ns by simp
      show "OnInspectorPropertyChanged i name v \<in> set (journal s')"
        unfolding jeq using m by (simp only: set_append Un_iff simp_thms)
    qed
    from rj have r: "fst (setPropertyValue coerce name v supress force s) = Returns v"
      by (rule conjunct1)
    note j = conjunct2[OF rj]
    show "fst (setPropertyValue coerce name v supress force s) = Returns v
          \<and> journal s' = journal s
               @ (if supress then []
                  else map (\<lambda>i. OnInspectorPropertyChanged i name v) [0..<length (editors s)]
                       @ (if onChange (surfaceOptions s) then [OnChange name v] else []))
               @ (if force then (case findPropertyEditor s (Some name) of
                                   Some i \<Rightarrow> [UpdateDisplayedValue i v]
                                 | None \<Rightarrow> [])
                  else [])
          \<and> (\<not> supress \<longrightarrow>
                (\<forall>i<length (editors s). OnInspectorPropertyChanged i name v \<in> set (journal s')))"
      by (rule conjI[OF r conjI[OF j every]])
  qed
  have failed: "\<not> supress \<and> selector_plain name
          \<and> first_index (\<lambda>r. data_property r = Some name) (rows s) = None \<longrightarrow>
          fst (setPropertyValue coerce name v supress force s) = Throws NullElement
          \<and> journal s' = journal s"
  proof
    assume a: "\<not> supress \<and> selector_plain name
          \<and> first_index (\<lambda>r. data_property r = Some name) (rows s) = None"
    then have plain: "selector_plain name"
      and none: "first_index (\<lambda>r. data_property r = Some name) (rows s) = None"
      by simp_all
    show "fst (setPropertyValue coerce name v supress force s) = Throws NullElement
          \<and> journal s' = journal s"
      unfolding assms(3) using a
      by (simp add: setPropertyValue_no_row[OF assms(1,2) plain none])
  qed
  show ?thesis
    by (rule conjI[OF v0 conjI[OF v1 conjI[OF v2 conjI[OF v3 conjI[OF finished failed]]]]])
qed

text \<open>
  C10, as amended: when \<^verbatim>\<open>this.originalValues[name]\<close> reads undefined (the snapshot has
  no defined value under the name, and the name is not that of a member of
  \<^verbatim>\<open>Object.prototype\<close>) and the property has a row that the selector finds, a call of
  \<open>setPropertyValue\<close> with change events not suppressed leaves the row of the property
  with the class \<^verbatim>\<open>changed\<close>, whatever the value, the undefined one included; the
  snapshot itself is not modified, and deleting a key that is already absent leaves
  the values as they are.
\<close>

theorem setPropertyValue_marks_changed:
  assumes "valuesPrototype s = ObjectPrototype" and "name \<noteq> ''__proto__''"
    and "selector_plain name"
    and "originalValue s name = JUndefined"
    and "first_index (\<lambda>r. data_property r = Some name) (rows s) = Some i"
    and "s' = snd (setPropertyValue coerce name v False force s)"
  shows "hasClass (classes (rows s' ! i)) ''changed''
    \<and> first_index (\<lambda>r. data_property r = Some name) (rows s') = Some i
    \<and> originalValues s' = originalValues s
    \<and> (v = JUndefined \<and> obj_get (values s) name = JUndefined \<longrightarrow> values s' = values s)"
proof -
  from first_index_Some[OF assms(5)] have i: "i < length (rows s)" by simp
  have rows': "rows s' = (rows s)[i := (rows s ! i)\<lparr>classes := addClass ''changed'' (classes (rows s ! i))\<rparr>]"
    unfolding assms(6) using assms(4)
    by (simp add: setPropertyValue_row[OF assms(1,2,3,5)] forceUpdate_def record_event_def
          notifyEditorsPropertyChanged_def split: option.splits)
  have c1: "hasClass (classes (rows s' ! i)) ''changed''"
    unfolding rows' using i by (simp add: addClass_def hasClass_def)
  have c2: "first_index (\<lambda>r. data_property r = Some name) (rows s') = Some i"
    unfolding rows' using i assms(5) by (simp add: first_index_update)
  have c3: "originalValues s' = originalValues s"
    unfolding assms(6) by (simp add: setPropertyValue_frame)
  have c4: "v = JUndefined \<and> obj_get (values s) name = JUndefined \<longrightarrow> values s' = values s"
    unfolding assms(6) using setPropertyValue_values[OF assms(1,2), of coerce v False force]
    by (auto simp: written_def)
  from c1 c2 c3 c4 show ?thesis by blast
qed

lemma externalVisible_first_named:
  "externalVisible s name
     \<longleftrightarrow> (\<exists>j. first_named extPropertyName name (externalParameterEditors s) j
              \<and> isEditorVisible (externalParameterEditors s ! j))"
  by (cases "findExternalParameterEditor s name")
     (simp_all add: externalVisible_def first_named_index
        findExternalParameterEditor_def[symmetric])

text \<open>
  C2, as amended: for every property item of a well-formed schema (the property items
  have names, each its own, none of them \<^verbatim>\<open>__proto__\<close>), \<open>getValues\<close> resolves the
  entry of the property in this order: the value of a visible external parameter
  editor, wrapped as \<^verbatim>\<open>{{ expr }}\<close>; otherwise what \<^verbatim>\<open>this.values[name]\<close> reads, if that
  is not undefined (the stored value, or for a name that is not stored the member of
  \<^verbatim>\<open>Object.prototype\<close> of that name, if there is one); otherwise the undefined-value
  substitute of the property's editor; otherwise, there being no editor, the default of
  the schema. A value that is resolved without the external editor to the
  removed-property object leaves the property out. The external editor and the editor
  of a property are the first of their lists that go by its name.
\<close>

theorem getValues_priority:
  assumes "wellformed_schema (parsedProperties s)"
    and "q \<in> set (parsedProperties s)" and "itemType q = PropertyItem"
    and "key = property_key (property q)" and "stored = getPropertyValue s key"
    and "hidden = (\<forall>j. first_named extPropertyName (property q) (externalParameterEditors s) j
                       \<longrightarrow> \<not> isEditorVisible (externalParameterEditors s ! j))"
  shows "\<exists>result. getValues s = Returns (result, ObjectPrototype)
     \<and> (\<forall>j. first_named extPropertyName (property q) (externalParameterEditors s) j
              \<and> isEditorVisible (externalParameterEditors s ! j) \<longrightarrow>
            obj_get result key
              = JStr (''{{ '' @ getValue (externalParameterEditors s ! j) @ '' }}''))
     \<and> (hidden \<and> stored \<noteq> JUndefined \<longrightarrow>
          (if stored = JRemovedProperty then \<not> obj_has result key
           else obj_has result key \<and> obj_get result key = stored))
     \<and> (hidden \<and> stored = JUndefined \<longrightarrow>
          (\<forall>i. first_named getPropertyName (property q) (editors s) i \<longrightarrow>
             (if getUndefinedValue (editors s ! i) = JRemovedProperty
                then \<not> obj_has result key
              else obj_has result key
                   \<and> obj_get result key = getUndefinedValue (editors s ! i))))
     \<and> (hidden \<and> stored = JUndefined
          \<and> (\<forall>e\<in>set (editors s). getPropertyName e \<noteq> property q) \<longrightarrow>
          (if default q = JRemovedProperty then \<not> obj_has result key
           else obj_has result key \<and> obj_get result key = default q))"
proof -
  from getValues_entry[OF assms(1,2,3)] obtain result where
    res: "getValues s = Returns (result, ObjectPrototype)"
    and entry: "obj_get result key = obj_get (getValues_step s q []) key"
      "obj_has result key = obj_has (getValues_step s q []) key"
    using assms(4) by auto
  have hid: "hidden = (\<not> externalVisible s (property q))"
    unfolding assms(6) externalVisible_first_named by blast
  have c1: "\<forall>j. first_named extPropertyName (property q) (externalParameterEditors s) j
              \<and> isEditorVisible (externalParameterEditors s ! j) \<longrightarrow>
            obj_get result key
              = JStr (''{{ '' @ getValue (externalParameterEditors s ! j) @ '' }}'')"
  proof (intro allI impI)
    fix j
    assume a: "first_named extPropertyName (property q) (externalParameterEditors s) j
              \<and> isEditorVisible (externalParameterEditors s ! j)"
    then have f: "findExternalParameterEditor s (property q) = Some j"
      by (simp add: first_named_index findExternalParameterEditor_def)
    with a have "externalVisible s (property q)"
      by (simp add: externalVisible_def)
    with f show "obj_get result key
              = JStr (''{{ '' @ getValue (externalParameterEditors s ! j) @ '' }}'')"
      unfolding entry using assms(3,4)
      by (simp add: getValues_step_def obj_get_set_same)
  qed
  have c2: "hidden \<and> stored \<noteq> JUndefined \<longrightarrow>
          (if stored = JRemovedProperty then \<not> obj_has result key
           else obj_has result key \<and> obj_get result key = stored)"
    unfolding entry hid using assms(3,4,5)
    by (simp add: getValues_step_def obj_get_set_same obj_has_set obj_has_Nil)
  have c3: "hidden \<and> stored = JUndefined \<longrightarrow>
          (\<forall>i. first_named getPropertyName (property q) (editors s) i \<longrightarrow>
             (if getUndefinedValue (editors s ! i) = JRemovedProperty
                then \<not> obj_has result key
              else obj_has result key
                   \<and> obj_get result key = getUndefinedValue (editors s ! i)))"
    unfolding entry hid first_named_index using assms(3,4,5)
    by (simp add: getValues_step_def obj_get_set_same obj_has_set obj_has_Nil
        findPropertyEditor_def)
  have none: "findPropertyEditor s (property q) = None"
    if "\<forall>e\<in>set (editors s). getPropertyName e \<noteq> property q"
    using that by (simp add: findPropertyEditor_def first_index_None)
  have c4: "hidden \<and> stored = JUndefined
          \<and> (\<forall>e\<in>set (editors s). getPropertyName e \<noteq> property q) \<longrightarrow>
          (if default q = JRemovedProperty then \<not> obj_has result key
           else obj_has result key \<and> obj_get result key = default q)"
    unfolding entry hid using assms(3,4,5) none
    by (simp add: getValues_step_def obj_get_set_same obj_has_set obj_has_Nil)
  from res c1 c2 c3 c4 show ?thesis by blast
qed

text \<open>
  The four ways on one surface: the expression of the visible external editor for
  \<^verbatim>\<open>a\<close> in place of its stored value, the stored value for \<^verbatim>\<open>b\<close>, whose external
  editor is hidden, the editor's substitute for \<^verbatim>\<open>color\<close>, and the default for
  \<^verbatim>\<open>c\<close>; \<^verbatim>\<open>r\<close>, stored as removed, is left out.
\<close>

lemma getValues_priority_example:
  "getValues priority_surface
     = Returns ([(''a'', JStr ''{{ expr }}''), (''b'', JNum 2), (''color'', JStr ''#fff''),
                 (''c'', JStr ''d'')], ObjectPrototype)"
proof -
  have named: "named_schema (parsedProperties priority_surface)"
    by (simp add: priority_surface_def named_schema_def text_property_def ex_items)
  show ?thesis
    by (simp add: getValues_named[OF named])
       (simp add: priority_surface_def ex_fields getValues_step_def externalVisible_def
          findExternalParameterEditor_def findPropertyEditor_def getPropertyValue_def
          obj_read_standard property_key_def text_property_def ex_items stringEditor_def
          obj_eval prototype_names object_prototype_def object_prototype_methods_def)
qed

lemma getValues_step_named:
  assumes "itemType p = PropertyItem" "property p = Some name"
    and "\<not> externalVisible s (Some name)"
    and "getPropertyValue s name = v" "v \<noteq> JUndefined"
  shows "getValues_step s p result = (if v = JRemovedProperty then result else own_set name v result)"
  using assms by (simp add: getValues_step_def property_key_def)

lemma getValues_fold_same_key:
  assumes "named_schema ps"
    and "\<not> externalVisible s (Some name)"
    and "getPropertyValue s name = v" "v \<noteq> JUndefined"
  shows "if v = JRemovedProperty
           then obj_has (fold (getValues_step s) ps result) name = obj_has result name
         else if \<exists>p\<in>set ps. itemType p = PropertyItem \<and> property p = Some name
           then obj_has (fold (getValues_step s) ps result) name
                \<and> obj_get (fold (getValues_step s) ps result) name = v
         else obj_has (fold (getValues_step s) ps result) name = obj_has result name
              \<and> obj_get (fold (getValues_step s) ps result) name = obj_get result name"
  using assms(1)
proof (induction ps arbitrary: result rule: rev_induct)
  case Nil
  show ?case by simp
next
  case (snoc p ps)
  from snoc.prems have named: "named_schema ps" and p: "itemType p = GroupItem \<or> property p \<noteq> None"
    by (auto simp: named_schema_def)
  note ih = snoc.IH[OF named, of result]
  have loop: "fold (getValues_step s) (ps @ [p]) result
      = getValues_step s p (fold (getValues_step s) ps result)"
    by simp
  show ?case
  proof (cases "itemType p = PropertyItem \<and> property p = Some name")
    case True
    with getValues_step_named[OF _ _ assms(2,3,4), of p] ih show ?thesis
      unfolding loop by (simp add: obj_has_set obj_get_set_same)
  next
    case False
    with p have "itemType p = PropertyItem \<longrightarrow> property_key (property p) \<noteq> name"
      by (cases "property p") (auto simp: property_key_def)
    from getValues_step_other[OF this, of s "fold (getValues_step s) ps result"] ih False
    show ?thesis
      unfolding loop by auto
  qed
qed

text \<open>
  C1, as amended: for a property item of a schema whose property items all have names,
  none of them \<^verbatim>\<open>__proto__\<close>, on a surface whose values have \<^verbatim>\<open>Object.prototype\<close> for
  their prototype and where no external parameter editor of that name is visible, and
  for a value other than undefined, \<open>getValues\<close> after \<open>setPropertyValue\<close> has the value
  under the property's name, except for the removed-property object, which leaves the
  name out.
\<close>

theorem setPropertyValue_getValues_roundtrip:
  assumes "named_schema (parsedProperties s)"
    and "q \<in> set (parsedProperties s)" and "itemType q = PropertyItem"
    and "property q = Some name"
    and "valuesPrototype s = ObjectPrototype"
    and "\<forall>e\<in>set (externalParameterEditors s). extPropertyName e = Some name \<longrightarrow> \<not> isEditorVisible e"
    and "v \<noteq> JUndefined"
    and "s' = snd (setPropertyValue coerce name v supress force s)"
  shows "\<exists>result. getValues s' = Returns (result, ObjectPrototype)
         \<and> (if v = JRemovedProperty then \<not> obj_has result name
            else obj_has result name \<and> obj_get result name = v)"
proof -
  have name: "name \<noteq> ''__proto__''"
    using assms(1,2,3,4) by (auto simp: named_schema_def list_all_iff)
  have frame: "parsedProperties s' = parsedProperties s"
    "externalParameterEditors s' = externalParameterEditors s"
    unfolding assms(8) by (simp_all add: setPropertyValue_frame)
  have vals: "values s' = own_set name v (values s)" "valuesPrototype s' = ObjectPrototype"
    unfolding assms(8) using setPropertyValue_values[OF assms(5) name, of coerce v supress force]
      assms(7)
    by (simp_all add: written_def)
  have stored: "getPropertyValue s' name = v"
    by (simp add: getPropertyValue_def vals obj_read_standard obj_has_set obj_get_set_same)
  have hidden: "\<not> externalVisible s' (Some name)"
  proof
    assume "externalVisible s' (Some name)"
    then obtain j where j: "first_named extPropertyName (Some name) (externalParameterEditors s) j"
      and vis: "isEditorVisible (externalParameterEditors s ! j)"
      unfolding externalVisible_first_named frame by blast
    from j have "externalParameterEditors s ! j \<in> set (externalParameterEditors s)"
      "extPropertyName (externalParameterEditors s ! j) = Some name"
      by (simp_all add: first_named_def)
    with assms(6) vis show False by blast
  qed
  have named: "named_schema (parsedProperties s')"
    using assms(1) frame(1) by simp
  have ex: "\<exists>p\<in>set (parsedProperties s'). itemType p = PropertyItem \<and> property p = Some name"
    using assms(2,3,4) frame(1) by auto
  from getValues_fold_same_key[OF named hidden stored assms(7), of "[]"] ex
  have "if v = JRemovedProperty
          then \<not> obj_has (fold (getValues_step s') (parsedProperties s') []) name
        else obj_has (fold (getValues_step s') (parsedProperties s') []) name
             \<and> obj_get (fold (getValues_step s') (parsedProperties s') []) name = v"
    by (simp add: obj_has_Nil)
  with getValues_named[OF named] show ?thesis
    by simp
qed

text \<open>
  The round trip on the example with a hidden external parameter editor for
  \<^verbatim>\<open>color\<close>, for a string and for the removed-property object.
\<close>

theorem setPropertyValue_getValues_roundtrip_witness:
  "named_schema (parsedProperties example_surface)
   \<and> color_property \<in> set (parsedProperties example_surface)
   \<and> (\<exists>result.
         getValues (snd (setPropertyValue no_coercion ''color'' (JStr ''#000'') False False
            (example_surface\<lparr>externalParameterEditors :=
               [\<lparr>extPropertyName = Some ''color'', isEditorVisible = False, getValue = ''x'',
                  extValidate = True\<rparr>]\<rparr>)))
           = Returns (result, ObjectPrototype)
         \<and> obj_has result ''color'' \<and> obj_get result ''color'' = JStr ''#000'')
   \<and> (\<exists>result.
         getValues (snd (setPropertyValue no_coercion ''color'' JRemovedProperty False False
            (example_surface\<lparr>externalParameterEditors :=
               [\<lparr>extPropertyName = Some ''color'', isEditorVisible = False, getValue = ''x'',
                  extValidate = True\<rparr>]\<rparr>)))
           = Returns (result, ObjectPrototype)
         \<and> \<not> obj_has result ''color'')"
proof -
  let ?s = "example_surface\<lparr>externalParameterEditors :=
               [\<lparr>extPropertyName = Some ''color'', isEditorVisible = False, getValue = ''x'',
                  extValidate = True\<rparr>]\<rparr>"
  have named: "named_schema (parsedProperties ?s)"
    using ex_named by simp
  have q: "color_property \<in> set (parsedProperties ?s)"
    by (simp add: ex_fields)
  have std: "valuesPrototype ?s = ObjectPrototype"
    by (simp add: ex_fields)
  have hid: "\<forall>e\<in>set (externalParameterEditors ?s).
      extPropertyName e = Some ''color'' \<longrightarrow> \<not> isEditorVisible e"
    by simp
  note rt = setPropertyValue_getValues_roundtrip[OF named q ex_items(2) ex_items(4) std hid _ refl]
  from rt[of "JStr ''#000''" no_coercion False False]
  have a: "\<exists>result.
         getValues (snd (setPropertyValue no_coercion ''color'' (JStr ''#000'') False False ?s))
           = Returns (result, ObjectPrototype)
         \<and> obj_has result ''color'' \<and> obj_get result ''color'' = JStr ''#000''"
    by simp
  from rt[of JRemovedProperty no_coercion False False]
  have b: "\<exists>result.
         getValues (snd (setPropertyValue no_coercion ''color'' JRemovedProperty False False ?s))
           = Returns (result, ObjectPrototype)
         \<and> \<not> obj_has result ''color''"
    by simp
  from ex_named q a b show ?thesis by simp
qed

lemma quote_surface_built:
  "Surface example_inspector plain_host [text_property quoted_name] None (Some ''inspector-5'')
     DEFAULTS (\<lambda>g. True) = Returns quote_surface"
  by (simp add: quote_surface_def quoted_name_def text_property_def text_row_def
      example_inspector_def stringEditor_def DEFAULTS_def build_defs Let_def)

lemma quote_call:
  "setPropertyValue coerce quoted_name (JNum 1) False force quote_surface
     = (Throws InvalidSelector, quote_surface\<lparr>values := [(quoted_name, JNum 1)]\<rparr>)"
proof -
  have std: "valuesPrototype quote_surface = ObjectPrototype"
    by (simp add: quote_surface_def)
  have name: "quoted_name \<noteq> ''__proto__''"
    by (simp add: quoted_name_def)
  have w: "written quoted_name (JNum 1) (values quote_surface) = [(quoted_name, JNum 1)]"
    by (simp add: written_def quote_surface_def quoted_name_def obj_eval)
  have sel: "querySelector_row plain_host quoted_name table = Throws InvalidSelector" for table
    by (simp add: querySelector_row_def selector_plain_def quoted_name_def plain_host_def)
  have p: "page (quote_surface\<lparr>values := x\<rparr>) = plain_host" for x
    by (simp add: quote_surface_def)
  show ?thesis
    unfolding setPropertyValue_def writeValue_standard[OF std name] w
    by (simp add: markPropertyChanged_def p sel Let_def)
qed

lemma proto_surface_built:
  "Surface example_inspector plain_host [text_property ''__proto__''] None (Some ''inspector-4'')
     DEFAULTS (\<lambda>g. True) = Returns proto_surface"
  by (simp add: proto_surface_def text_property_def text_row_def example_inspector_def
      stringEditor_def DEFAULTS_def build_defs Let_def)

text \<open>
  C1 as stated fails for the undefined value and for a name outside the schema: on the
  example, \<open>setPropertyValue('color', undefined)\<close> is followed by the entry \<^verbatim>\<open>#fff\<close> for
  \<^verbatim>\<open>color\<close>, and a value written for \<^verbatim>\<open>size\<close> is stored but is not among the values
  read back. It also fails for a property named \<^verbatim>\<open>__proto__\<close>: the assignment stores no
  key, and the result of \<open>getValues\<close> has no entry of that name.
\<close>

theorem setPropertyValue_getValues_roundtrip_counterexample:
  "externalParameterEditors example_surface = []
   \<and> fst (setPropertyValue no_coercion ''color'' JUndefined False False example_surface)
       = Returns JUndefined
   \<and> getValues (snd (setPropertyValue no_coercion ''color'' JUndefined False False example_surface))
       = Returns ([(''color'', JStr ''#fff'')], ObjectPrototype)
   \<and> fst (setPropertyValue no_coercion ''size'' (JNum 12) True False example_surface)
       = Returns (JNum 12)
   \<and> values (snd (setPropertyValue no_coercion ''size'' (JNum 12) True False example_surface))
       = [(''size'', JNum 12)]
   \<and> getValues (snd (setPropertyValue no_coercion ''size'' (JNum 12) True False example_surface))
       = Returns ([(''color'', JStr ''#fff'')], ObjectPrototype)
   \<and> externalParameterEditors proto_surface = []
   \<and> map property (parsedProperties proto_surface) = [Some ''__proto__'']
   \<and> fst (setPropertyValue no_coercion ''__proto__'' (JStr ''x'') False False proto_surface)
       = Returns (JStr ''x'')
   \<and> values (snd (setPropertyValue no_coercion ''__proto__'' (JStr ''x'') False False proto_surface))
       = []
   \<and> getValues (snd (setPropertyValue no_coercion ''__proto__'' (JStr ''x'') False False
        proto_surface))
       = Returns ([], ObjectPrototype)"
proof -
  let ?a = "setPropertyValue no_coercion ''color'' JUndefined False False example_surface"
  let ?b = "setPropertyValue no_coercion ''size'' (JNum 12) True False example_surface"
  let ?c = "setPropertyValue no_coercion ''__proto__'' (JStr ''x'') False False proto_surface"
  note std = ex_fields(9)
  have a1: "fst ?a = Returns JUndefined"
    by (simp add: setPropertyValue_row[OF std plain_names(6) plain_names(1) ex_row(1)])
  have "getValues (snd ?a) = getValues example_surface"
    using setPropertyValue_values[OF std plain_names(6), of no_coercion JUndefined False False]
    by (intro getValues_frame) (simp_all add: setPropertyValue_frame written_def ex_fields)
  then have a2: "getValues (snd ?a) = Returns ([(''color'', JStr ''#fff'')], ObjectPrototype)"
    by (simp add: ex_getValues)
  have b1: "fst ?b = Returns (JNum 12)"
    by (simp add: setPropertyValue_supressed[OF std plain_names(7)])
  have b2: "values (snd ?b) = [(''size'', JNum 12)]" "valuesPrototype (snd ?b) = ObjectPrototype"
    using setPropertyValue_values[OF std plain_names(7), of no_coercion "JNum 12" True False]
    by (simp_all add: written_def ex_fields obj_eval)
  have bn: "named_schema (parsedProperties (snd ?b))"
    using ex_named by (simp add: setPropertyValue_frame)
  have b3: "getValues (snd ?b) = Returns ([(''color'', JStr ''#fff'')], ObjectPrototype)"
    by (simp add: getValues_named[OF bn] setPropertyValue_frame ex_fields
        getValues_step_def ex_items externalVisible_def findExternalParameterEditor_def
        findPropertyEditor_def b2 property_key_def obj_eval stringEditor_def
        getPropertyValue_def obj_read_standard prototype_names)
  have c: "?c = (Returns (JStr ''x''),
      proto_surface\<lparr>rows := [(text_row 0 ''__proto__'')\<lparr>classes := [''property'', ''changed'']\<rparr>],
        journal := [OnInspectorPropertyChanged 0 ''__proto__'' (JStr ''x'')]\<rparr>)"
    by (simp add: setPropertyValue_def writeValue_def obj_assign_proto obj_has_Nil
        proto_surface_def markPropertyChanged_def querySelector_row_plain[OF plain_names(5)]
        obj_read_standard prototype_names
        comparePropertyValues_def abstract_eq_def is_nullish_def no_coercion_def
        notifyEditorsPropertyChanged_def DEFAULTS_def Let_def text_row_def addClass_def
        hasClass_def)
  have c1: "fst ?c = Returns (JStr ''x'')" and c2: "values (snd ?c) = []"
    unfolding c by (simp_all add: proto_surface_def)
  have c3: "getValues (snd ?c) = Returns ([], ObjectPrototype)"
    unfolding c
    by (simp add: getValues_def proto_surface_def getValues_loop.simps(2) text_property_def
        findExternalParameterEditor_def getPropertyValue_def obj_read_standard prototype_names
        property_key_def obj_assign_proto obj_has_Nil plain_host_def Let_def)
  have p: "externalParameterEditors proto_surface = []"
    "map property (parsedProperties proto_surface) = [Some ''__proto__'']"
    by (simp_all add: proto_surface_def text_property_def)
  from ex_fields(5) a1 a2 b1 b2(1) b3 p c1 c2 c3 show ?thesis by simp
qed

text \<open>
  On the example with an \<open>onChange\<close> callback: setting \<^verbatim>\<open>color\<close> with a forced
  redisplay, then deleting it again with change events suppressed. And on the example
  itself: deleting \<^verbatim>\<open>size\<close>, which is not stored and has no row.
\<close>

theorem setPropertyValue_writes_and_notifies_witness:
  "valuesPrototype example_surface = ObjectPrototype
   \<and> selector_plain ''color''
   \<and> first_index (\<lambda>r. data_property r = Some ''color'') (rows example_surface) = Some 1
   \<and> length (editors example_surface) = 1
   \<and> fst (setPropertyValue no_coercion ''color'' (JStr ''#000'') False True
        (example_surface\<lparr>surfaceOptions := DEFAULTS\<lparr>onChange := True\<rparr>\<rparr>)) = Returns (JStr ''#000'')
   \<and> values (snd (setPropertyValue no_coercion ''color'' (JStr ''#000'') False True
        (example_surface\<lparr>surfaceOptions := DEFAULTS\<lparr>onChange := True\<rparr>\<rparr>)))
       = [(''color'', JStr ''#000'')]
   \<and> journal (snd (setPropertyValue no_coercion ''color'' (JStr ''#000'') False True
        (example_surface\<lparr>surfaceOptions := DEFAULTS\<lparr>onChange := True\<rparr>\<rparr>)))
       = [OnInspectorPropertyChanged 0 ''color'' (JStr ''#000''),
          OnChange ''color'' (JStr ''#000''),
          UpdateDisplayedValue 0 (JStr ''#000'')]
   \<and> fst (setPropertyValue no_coercion ''color'' JUndefined True False
        (snd (setPropertyValue no_coercion ''color'' (JStr ''#000'') False True
           (example_surface\<lparr>surfaceOptions := DEFAULTS\<lparr>onChange := True\<rparr>\<rparr>))))
       = Returns JUndefined
   \<and> values (snd (setPropertyValue no_coercion ''color'' JUndefined True False
        (snd (setPropertyValue no_coercion ''color'' (JStr ''#000'') False True
           (example_surface\<lparr>surfaceOptions := DEFAULTS\<lparr>onChange := True\<rparr>\<rparr>)))))
       = []
   \<and> selector_plain ''size''
   \<and> first_index (\<lambda>r. data_property r = Some ''size'') (rows example_surface) = None
   \<and> fst (setPropertyValue no_coercion ''size'' JUndefined False False example_surface)
       = Throws NullElement
   \<and> values (snd (setPropertyValue no_coercion ''size'' JUndefined False False example_surface))
       = []
   \<and> journal (snd (setPropertyValue no_coercion ''size'' JUndefined False False example_surface))
       = []"
proof -
  let ?s = "example_surface\<lparr>surfaceOptions := DEFAULTS\<lparr>onChange := True\<rparr>\<rparr>"
  let ?t = "snd (setPropertyValue no_coercion ''color'' (JStr ''#000'') False True ?s)"
  have std: "valuesPrototype ?s = ObjectPrototype"
    by (simp add: ex_fields)
  note first = setPropertyValue_writes_and_notifies[OF std plain_names(6) refl,
      where v = "JStr ''#000''" and coerce = no_coercion and supress = False and force = True]
  from first have v: "values ?t = [(''color'', JStr ''#000'')]"
    by (simp add: ex_fields obj_eval)
  from first have rj: "fst (setPropertyValue no_coercion ''color'' (JStr ''#000'') False True ?s)
        = Returns (JStr ''#000'')
      \<and> journal ?t = [OnInspectorPropertyChanged 0 ''color'' (JStr ''#000''),
          OnChange ''color'' (JStr ''#000''), UpdateDisplayedValue 0 (JStr ''#000'')]"
    by (simp add: ex_row plain_names ex_fields findPropertyEditor_def stringEditor_def ex_items)
  have std': "valuesPrototype ?t = ObjectPrototype"
    using setPropertyValue_values[OF std plain_names(6)] by simp
  note second = setPropertyValue_writes_and_notifies[OF std' plain_names(6) refl,
      where v = JUndefined and coerce = no_coercion and supress = True and force = False]
  from second have w: "fst (setPropertyValue no_coercion ''color'' JUndefined True False ?t)
        = Returns JUndefined
      \<and> \<not> obj_has (values (snd (setPropertyValue no_coercion ''color'' JUndefined True False ?t)))
            ''color''
      \<and> (\<forall>k. k \<noteq> ''color'' \<longrightarrow>
            obj_get (values (snd (setPropertyValue no_coercion ''color'' JUndefined True False ?t))) k
              = JUndefined)"
    by (simp add: v)
  note third = setPropertyValue_writes_and_notifies[OF ex_fields(9) plain_names(7) refl,
      where v = JUndefined and coerce = no_coercion and supress = False and force = False]
  from third ex_row(2) plain_names(2)
  have n: "fst (setPropertyValue no_coercion ''size'' JUndefined False False example_surface)
        = Throws NullElement
      \<and> values (snd (setPropertyValue no_coercion ''size'' JUndefined False False example_surface))
        = []
      \<and> journal (snd (setPropertyValue no_coercion ''size'' JUndefined False False
            example_surface)) = []"
    by (simp add: ex_fields)
  have gone: "values (snd (setPropertyValue no_coercion ''color'' JUndefined True False ?t)) = []"
    using setPropertyValue_values[OF std' plain_names(6), of no_coercion JUndefined True False]
    by (simp add: v written_def obj_eval)
  from rj v w gone n ex_row plain_names(1,2) ex_fields(9) show ?thesis
    by (simp add: ex_fields)
qed

text \<open>
  C5 as stated fails for a name without a row and for a key that holds undefined. On
  the example, \<open>setPropertyValue('size', 12)\<close> stores the value and then fails in
  \<open>markPropertyChanged\<close>: the one editor of the surface is not notified. And when the
  values hold the key \<^verbatim>\<open>color\<close> with the value undefined,
  \<open>setPropertyValue('color', undefined)\<close> leaves the key where it is. It also fails for
  the name \<^verbatim>\<open>__proto__\<close>, under which nothing is written, and for the property named
  \<^verbatim>\<open>a"b\<close>, whose row the selector does not find: the call fails before it notifies.
\<close>

theorem setPropertyValue_writes_and_notifies_counterexample:
  "length (editors example_surface) = 1
   \<and> journal example_surface = []
   \<and> fst (setPropertyValue no_coercion ''size'' (JNum 12) False False example_surface)
       = Throws NullElement
   \<and> values (snd (setPropertyValue no_coercion ''size'' (JNum 12) False False example_surface))
       = [(''size'', JNum 12)]
   \<and> journal (snd (setPropertyValue no_coercion ''size'' (JNum 12) False False example_surface))
       = []
   \<and> fst (setPropertyValue no_coercion ''color'' JUndefined True False
        (example_surface\<lparr>values := [(''color'', JUndefined)]\<rparr>)) = Returns JUndefined
   \<and> values (snd (setPropertyValue no_coercion ''color'' JUndefined True False
        (example_surface\<lparr>values := [(''color'', JUndefined)]\<rparr>))) = [(''color'', JUndefined)]
   \<and> obj_has (values (snd (setPropertyValue no_coercion ''color'' JUndefined True False
        (example_surface\<lparr>values := [(''color'', JUndefined)]\<rparr>)))) ''color''
   \<and> fst (setPropertyValue no_coercion ''__proto__'' (JStr ''x'') True False proto_surface)
       = Returns (JStr ''x'')
   \<and> values (snd (setPropertyValue no_coercion ''__proto__'' (JStr ''x'') True False
        proto_surface)) = []
   \<and> map data_property (rows quote_surface) = [Some quoted_name]
   \<and> length (editors quote_surface) = 1
   \<and> fst (setPropertyValue no_coercion quoted_name (JNum 1) False True quote_surface)
       = Throws InvalidSelector
   \<and> journal (snd (setPropertyValue no_coercion quoted_name (JNum 1) False True quote_surface))
       = []"
proof -
  let ?u = "example_surface\<lparr>values := [(''color'', JUndefined)]\<rparr>"
  have q: "setPropertyValue no_coercion quoted_name (JNum 1) False True quote_surface
      = (Throws InvalidSelector, quote_surface\<lparr>values := [(quoted_name, JNum 1)]\<rparr>)"
    by (rule quote_call)
  have qf: "map data_property (rows quote_surface) = [Some quoted_name]"
    "length (editors quote_surface) = 1" "journal quote_surface = []"
    by (simp_all add: quote_surface_def text_row_def)
  have c: "setPropertyValue no_coercion ''__proto__'' (JStr ''x'') True False proto_surface
      = (Returns (JStr ''x''), proto_surface)"
    by (simp add: setPropertyValue_def writeValue_def obj_assign_proto obj_has_Nil
        proto_surface_def)
  note std = ex_fields(9)
  have a: "setPropertyValue no_coercion ''size'' (JNum 12) False False example_surface
      = (Throws NullElement, example_surface\<lparr>values := [(''size'', JNum 12)]\<rparr>)"
    by (simp add: setPropertyValue_no_row[OF std plain_names(7) plain_names(2) ex_row(2)]
        written_def ex_fields obj_eval)
  have stdu: "valuesPrototype ?u = ObjectPrototype"
    by (simp add: ex_fields)
  have b: "setPropertyValue no_coercion ''color'' JUndefined True False ?u = (Returns JUndefined, ?u)"
    by (simp add: setPropertyValue_supressed[OF stdu plain_names(6)] written_def forceUpdate_def)
  show ?thesis
    unfolding a b c q by (simp add: ex_fields obj_has_def proto_surface_def qf)
qed

lemma constructor_surface_built:
  "Surface example_inspector plain_host [constructor_property] None (Some ''inspector-3'')
     DEFAULTS (\<lambda>g. True) = Returns constructor_surface"
  by (simp add: constructor_surface_def constructor_property_def example_inspector_def
      stringEditor_def DEFAULTS_def build_defs Let_def)

lemma constructor_fields:
  "parsedProperties constructor_surface = [constructor_property]"
  "values constructor_surface = []"
  "originalValues constructor_surface = []"
  "editors constructor_surface = [stringEditor constructor_property RootGroup]"
  "externalParameterEditors constructor_surface = []"
  "valuesPrototype constructor_surface = ObjectPrototype"
  "surfaceOptions constructor_surface = DEFAULTS"
  "journal constructor_surface = []"
  "rows constructor_surface =
        [\<lparr>rowId = 0, data_property = Some ''constructor'', data_group_index = None,
           data_parent_group_index = None, data_group_level = Some 0,
           classes = [''property'', ''no-external-parameter''],
           link = None, hasHead = True\<rparr>]"
  by (simp_all add: constructor_surface_def)

lemma constructor_items:
  "itemType constructor_property = PropertyItem"
  "property constructor_property = Some ''constructor''"
  "default constructor_property = JStr ''x''"
  by (simp_all add: constructor_property_def)

text \<open>
  C2 as stated fails on the surface built for one string property named
  \<^verbatim>\<open>constructor\<close> with default \<^verbatim>\<open>x\<close> and no values: nothing is stored under the name
  and the substitute of the property's editor is \<^verbatim>\<open>x\<close>, yet reading the property finds
  the function \<^verbatim>\<open>Object\<close> on the prototype chain of the values, and \<open>getValues\<close>
  returns that function as the value of the property. And on the surface built for one
  property named \<^verbatim>\<open>__proto__\<close> the result of \<open>getValues\<close> has no entry at all.
\<close>

theorem getValues_priority_counterexample:
  "values constructor_surface = []
   \<and> externalParameterEditors constructor_surface = []
   \<and> map getPropertyName (editors constructor_surface) = [Some ''constructor'']
   \<and> map getUndefinedValue (editors constructor_surface) = [JStr ''x'']
   \<and> default constructor_property = JStr ''x''
   \<and> getPropertyValue constructor_surface ''constructor'' = JBuiltin ''constructor''
   \<and> getValues constructor_surface
       = Returns ([(''constructor'', JBuiltin ''constructor'')], ObjectPrototype)
   \<and> map property (parsedProperties proto_surface) = [Some ''__proto__'']
   \<and> values proto_surface = []
   \<and> map getUndefinedValue (editors proto_surface) = [JUndefined]
   \<and> getValues proto_surface = Returns ([], ObjectPrototype)"
proof -
  have p: "map property (parsedProperties proto_surface) = [Some ''__proto__'']"
    "values proto_surface = []"
    "map getUndefinedValue (editors proto_surface) = [JUndefined]"
    by (simp_all add: proto_surface_def text_property_def stringEditor_def)
  have pg: "getValues proto_surface = Returns ([], ObjectPrototype)"
    by (simp add: getValues_def proto_surface_def getValues_loop.simps(2) text_property_def
        findExternalParameterEditor_def getPropertyValue_def obj_read_standard prototype_names
        property_key_def obj_assign_proto obj_has_Nil Let_def)
  have named: "named_schema (parsedProperties constructor_surface)"
    by (simp add: constructor_fields constructor_items named_schema_def)
  have read: "getPropertyValue constructor_surface ''constructor'' = JBuiltin ''constructor''"
    by (simp add: getPropertyValue_def constructor_fields obj_read_standard obj_has_Nil
        prototype_names)
  have g: "getValues constructor_surface
       = Returns ([(''constructor'', JBuiltin ''constructor'')], ObjectPrototype)"
    by (simp add: getValues_named[OF named] constructor_fields(1) getValues_step_def
        constructor_items externalVisible_def findExternalParameterEditor_def
        constructor_fields(5) property_key_def read obj_eval)
  from read g p pg show ?thesis
    by (simp add: constructor_fields constructor_items stringEditor_def)
qed

text \<open>
  C10 as stated fails on the same surface: the snapshot has no key \<^verbatim>\<open>constructor\<close>, but
  \<^verbatim>\<open>this.originalValues['constructor']\<close> reads the function \<^verbatim>\<open>Object\<close>, so the value
  is compared with it: setting the property to that function, or to the string that
  \<^verbatim>\<open>==\<close> equates with it, leaves the row without the class \<^verbatim>\<open>changed\<close>. Another
  value marks the row. It also fails for the property named \<^verbatim>\<open>a"b\<close>, which has a
  row: the selector made from the name is refused, and the row is left as it was.
\<close>

theorem setPropertyValue_marks_changed_counterexample:
  "\<not> obj_has (originalValues constructor_surface) ''constructor''
   \<and> first_index (\<lambda>r. data_property r = Some ''constructor'') (rows constructor_surface) = Some 0
   \<and> classes (rows constructor_surface ! 0) = [''property'', ''no-external-parameter'']
   \<and> fst (setPropertyValue no_coercion ''constructor'' (JBuiltin ''constructor'') False False
        constructor_surface) = Returns (JBuiltin ''constructor'')
   \<and> classes (rows (snd (setPropertyValue no_coercion ''constructor'' (JBuiltin ''constructor'')
        False False constructor_surface)) ! 0) = [''property'', ''no-external-parameter'']
   \<and> fst (setPropertyValue source_coercion ''constructor''
        (JStr ''function Object() { [native code] }'') False False constructor_surface)
       = Returns (JStr ''function Object() { [native code] }'')
   \<and> classes (rows (snd (setPropertyValue source_coercion ''constructor''
        (JStr ''function Object() { [native code] }'') False False constructor_surface)) ! 0)
       = [''property'', ''no-external-parameter'']
   \<and> classes (rows (snd (setPropertyValue no_coercion ''constructor'' (JStr ''y'') False False
        constructor_surface)) ! 0) = [''property'', ''no-external-parameter'', ''changed'']
   \<and> \<not> obj_has (originalValues quote_surface) quoted_name
   \<and> map data_property (rows quote_surface) = [Some quoted_name]
   \<and> map classes (rows quote_surface) = [[''property'']]
   \<and> fst (setPropertyValue no_coercion quoted_name (JNum 1) False False quote_surface)
       = Throws InvalidSelector
   \<and> map classes (rows (snd (setPropertyValue no_coercion quoted_name (JNum 1) False False
        quote_surface))) = [[''property'']]"
proof -
  have q: "setPropertyValue no_coercion quoted_name (JNum 1) False False quote_surface
      = (Throws InvalidSelector, quote_surface\<lparr>values := [(quoted_name, JNum 1)]\<rparr>)"
    by (rule quote_call)
  have qf: "\<not> obj_has (originalValues quote_surface) quoted_name"
    "map data_property (rows quote_surface) = [Some quoted_name]"
    "map classes (rows quote_surface) = [[''property'']]"
    by (simp_all add: quote_surface_def obj_has_Nil text_row_def)
  have row: "first_index (\<lambda>r. data_property r = Some ''constructor'') (rows constructor_surface)
      = Some 0"
    by (simp add: constructor_fields)
  have orig: "originalValue constructor_surface ''constructor'' = JBuiltin ''constructor''"
    by (simp add: originalValue_def constructor_fields obj_has_Nil prototype_names)
  note sp = setPropertyValue_row[OF constructor_fields(6) plain_names(9) plain_names(4) row]
  have a: "fst (setPropertyValue no_coercion ''constructor'' (JBuiltin ''constructor'') False False
        constructor_surface) = Returns (JBuiltin ''constructor'')
     \<and> classes (rows (snd (setPropertyValue no_coercion ''constructor'' (JBuiltin ''constructor'')
        False False constructor_surface)) ! 0) = [''property'', ''no-external-parameter'']"
    unfolding sp orig
    by (simp add: forceUpdate_def notifyEditorsPropertyChanged_def record_event_def
        constructor_fields comparePropertyValues_def abstract_eq_def is_nullish_def
        removeClass_def DEFAULTS_def)
  have b: "fst (setPropertyValue source_coercion ''constructor''
        (JStr ''function Object() { [native code] }'') False False constructor_surface)
       = Returns (JStr ''function Object() { [native code] }'')
     \<and> classes (rows (snd (setPropertyValue source_coercion ''constructor''
        (JStr ''function Object() { [native code] }'') False False constructor_surface)) ! 0)
       = [''property'', ''no-external-parameter'']"
    unfolding sp orig
    by (simp add: forceUpdate_def notifyEditorsPropertyChanged_def record_event_def
        constructor_fields comparePropertyValues_def abstract_eq_def is_nullish_def
        source_coercion_def removeClass_def DEFAULTS_def)
  have c: "classes (rows (snd (setPropertyValue no_coercion ''constructor'' (JStr ''y'') False False
        constructor_surface)) ! 0) = [''property'', ''no-external-parameter'', ''changed'']"
    unfolding sp orig
    by (simp add: forceUpdate_def notifyEditorsPropertyChanged_def record_event_def
        constructor_fields comparePropertyValues_def abstract_eq_def is_nullish_def
        no_coercion_def addClass_def hasClass_def DEFAULTS_def)
  from a b c row qf show ?thesis
    unfolding q by (simp add: constructor_fields obj_has_Nil)
qed

lemma priority_fields:
  "parsedProperties priority_surface
     = [text_property ''a'', text_property ''b'', color_property,
        (text_property ''c'')\<lparr>default := JStr ''d''\<rparr>, text_property ''r'']"
  "map getPropertyName (editors priority_surface) = [Some ''a'', Some ''b'', Some ''color'']"
  "map getUndefinedValue (editors priority_surface) = [JUndefined, JUndefined, JStr ''#fff'']"
  "map extPropertyName (externalParameterEditors priority_surface) = [Some ''b'', Some ''a'']"
  "map isEditorVisible (externalParameterEditors priority_surface) = [False, True]"
  "map getValue (externalParameterEditors priority_surface) = [''hidden'', ''expr'']"
  "values priority_surface = [(''a'', JNum 1), (''b'', JNum 2), (''r'', JRemovedProperty)]"
  "valuesPrototype priority_surface = ObjectPrototype"
  by (simp_all add: priority_surface_def ex_fields stringEditor_def text_property_def ex_items)

lemma priority_reads:
  "getPropertyValue priority_surface ''a'' = JNum 1"
  "getPropertyValue priority_surface ''b'' = JNum 2"
  "getPropertyValue priority_surface ''color'' = JUndefined"
  "getPropertyValue priority_surface ''c'' = JUndefined"
  "getPropertyValue priority_surface ''r'' = JRemovedProperty"
  by (simp_all add: getPropertyValue_def priority_fields obj_read_standard obj_has_def
      object_prototype_def object_prototype_methods_def)

text \<open>
  All four ways on one surface: \<^verbatim>\<open>a\<close> has a stored value and a visible external
  parameter editor, \<^verbatim>\<open>b\<close> a stored value and a hidden one, \<^verbatim>\<open>color\<close> no value and an
  editor, \<^verbatim>\<open>c\<close> no value and no editor, \<^verbatim>\<open>r\<close> the removed-property object for a
  value. And the example of the spec, a group and one string property with default
  \<^verbatim>\<open>#fff\<close> and no values.
\<close>

theorem getValues_priority_witness:
  "wellformed_schema (parsedProperties priority_surface)
   \<and> map property (parsedProperties priority_surface)
       = [Some ''a'', Some ''b'', Some ''color'', Some ''c'', Some ''r'']
   \<and> map default (parsedProperties priority_surface)
       = [JUndefined, JUndefined, JStr ''#fff'', JStr ''d'', JUndefined]
   \<and> values priority_surface = [(''a'', JNum 1), (''b'', JNum 2), (''r'', JRemovedProperty)]
   \<and> map extPropertyName (externalParameterEditors priority_surface) = [Some ''b'', Some ''a'']
   \<and> map isEditorVisible (externalParameterEditors priority_surface) = [False, True]
   \<and> map getValue (externalParameterEditors priority_surface) = [''hidden'', ''expr'']
   \<and> map getPropertyName (editors priority_surface) = [Some ''a'', Some ''b'', Some ''color'']
   \<and> map getUndefinedValue (editors priority_surface) = [JUndefined, JUndefined, JStr ''#fff'']
   \<and> (\<exists>result. getValues priority_surface = Returns (result, ObjectPrototype)
          \<and> obj_get result ''a'' = JStr ''{{ expr }}''
          \<and> obj_get result ''b'' = JNum 2
          \<and> obj_get result ''color'' = JStr ''#fff''
          \<and> obj_get result ''c'' = JStr ''d''
          \<and> \<not> obj_has result ''r'')
   \<and> (\<exists>result. getValues example_surface = Returns (result, ObjectPrototype)
          \<and> obj_get result ''color'' = JStr ''#fff'')
   \<and> getValues example_surface = Returns ([(''color'', JStr ''#fff'')], ObjectPrototype)"
proof -
  let ?s = priority_surface
  let ?pc = "(text_property ''c'')\<lparr>default := JStr ''d''\<rparr>"
  have wf: "wellformed_schema (parsedProperties ?s)"
    by (simp add: priority_fields wellformed_schema_def named_schema_def text_property_def
        ex_items)
  have items: "itemType (text_property ''a'') = PropertyItem"
    "itemType (text_property ''b'') = PropertyItem" "itemType ?pc = PropertyItem"
    "property (text_property ''a'') = Some ''a''" "property (text_property ''b'') = Some ''b''"
    "property ?pc = Some ''c''" "default ?pc = JStr ''d''"
    "itemType (text_property ''r'') = PropertyItem" "property (text_property ''r'') = Some ''r''"
    by (simp_all add: text_property_def)
  have ext_a: "first_named extPropertyName (Some ''a'') (externalParameterEditors ?s) j
      \<longleftrightarrow> j = 1" for j
    unfolding first_named_index first_index_map[of "\<lambda>x. x = Some ''a''" extPropertyName]
      priority_fields by auto
  have ext_b: "first_named extPropertyName (Some ''b'') (externalParameterEditors ?s) j
      \<longleftrightarrow> j = 0" for j
    unfolding first_named_index first_index_map[of "\<lambda>x. x = Some ''b''" extPropertyName]
      priority_fields by auto
  have ext_none: "\<not> first_named extPropertyName (Some n) (externalParameterEditors ?s) j"
    if "n \<noteq> ''a''" "n \<noteq> ''b''" for n j
    unfolding first_named_index first_index_map[of "\<lambda>x. x = Some n" extPropertyName]
      priority_fields
    using that by simp
  have ed_color: "first_named getPropertyName (Some ''color'') (editors ?s) i \<longleftrightarrow> i = 2" for i
    unfolding first_named_index first_index_map[of "\<lambda>x. x = Some ''color''" getPropertyName]
      priority_fields by auto
  have vis: "isEditorVisible (externalParameterEditors ?s ! 1)"
    "\<not> isEditorVisible (externalParameterEditors ?s ! 0)"
    "getValue (externalParameterEditors ?s ! 1) = ''expr''"
    "getUndefinedValue (editors ?s ! 2) = JStr ''#fff''"
    by (simp_all add: priority_surface_def stringEditor_def ex_items)
  have no_c: "\<forall>e\<in>set (editors ?s). getPropertyName e \<noteq> Some ''c''"
    by (simp add: priority_surface_def stringEditor_def text_property_def ex_items)
  have mem: "text_property ''a'' \<in> set (parsedProperties ?s)"
    "text_property ''b'' \<in> set (parsedProperties ?s)"
    "color_property \<in> set (parsedProperties ?s)" "?pc \<in> set (parsedProperties ?s)"
    "text_property ''r'' \<in> set (parsedProperties ?s)"
    by (simp_all add: priority_fields)
  have key: "''a'' = property_key (property (text_property ''a''))"
    "''b'' = property_key (property (text_property ''b''))"
    "''color'' = property_key (property color_property)"
    "''c'' = property_key (property ?pc)"
    "''r'' = property_key (property (text_property ''r''))"
    by (simp_all add: property_key_def text_property_def ex_items)
  from getValues_priority[OF wf mem(1) items(1) key(1) priority_reads(1)[symmetric] refl]
  obtain ra where ga: "getValues ?s = Returns (ra, ObjectPrototype)"
    and a: "obj_get ra ''a'' = JStr ''{{ expr }}''"
    using vis by (auto simp: items ext_a)
  from getValues_priority[OF wf mem(2) items(2) key(2) priority_reads(2)[symmetric] refl]
  obtain rb where gb: "getValues ?s = Returns (rb, ObjectPrototype)"
    and b: "obj_get rb ''b'' = JNum 2"
    using vis by (auto simp: items ext_b)
  from getValues_priority[OF wf mem(3) ex_items(2) key(3) priority_reads(3)[symmetric] refl]
  obtain rc where gc: "getValues ?s = Returns (rc, ObjectPrototype)"
    and c: "obj_get rc ''color'' = JStr ''#fff''"
    using vis by (auto simp: ex_items ext_none ed_color)
  from getValues_priority[OF wf mem(4) items(3) key(4) priority_reads(4)[symmetric] refl]
  obtain rd where gd: "getValues ?s = Returns (rd, ObjectPrototype)"
    and d: "obj_get rd ''c'' = JStr ''d''"
    using no_c by (auto simp: items ext_none)
  from getValues_priority[OF wf mem(5) items(8) key(5) priority_reads(5)[symmetric] refl]
  obtain re where ge: "getValues ?s = Returns (re, ObjectPrototype)"
    and e: "\<not> obj_has re ''r''"
    by (auto simp: items ext_none)
  from ga gb gc gd ge have same: "rb = ra" "rc = ra" "rd = ra" "re = ra"
    by simp_all
  from ga a b c d e have all: "\<exists>result. getValues ?s = Returns (result, ObjectPrototype)
          \<and> obj_get result ''a'' = JStr ''{{ expr }}''
          \<and> obj_get result ''b'' = JNum 2
          \<and> obj_get result ''color'' = JStr ''#fff''
          \<and> obj_get result ''c'' = JStr ''d''
          \<and> \<not> obj_has result ''r''"
    unfolding same by blast
  have exq: "color_property \<in> set (parsedProperties example_surface)"
    by (simp add: ex_fields)
  have exstored: "JUndefined = getPropertyValue example_surface ''color''"
    by (simp add: getPropertyValue_def ex_fields obj_read_standard obj_has_Nil prototype_names)
  have exed: "first_named getPropertyName (Some ''color'') (editors example_surface) i
      \<longleftrightarrow> i = 0" for i
    unfolding first_named_index using ex_editor(1) by (auto simp: findPropertyEditor_def)
  have exext: "\<not> first_named extPropertyName n (externalParameterEditors example_surface) j" for n j
    by (simp add: first_named_def ex_fields)
  from getValues_priority[OF ex_wf exq ex_items(2) key(3) exstored refl]
  have ex: "\<exists>result. getValues example_surface = Returns (result, ObjectPrototype)
          \<and> obj_get result ''color'' = JStr ''#fff''"
    using ex_editor(2) by (auto simp: ex_items exed exext)
  have p: "map property (parsedProperties ?s)
      = [Some ''a'', Some ''b'', Some ''color'', Some ''c'', Some ''r'']"
    "map default (parsedProperties ?s)
      = [JUndefined, JUndefined, JStr ''#fff'', JStr ''d'', JUndefined]"
    by (simp_all add: priority_fields text_property_def ex_items)
  from wf p priority_fields(2-7) all ex ex_getValues show ?thesis
    by simp
qed

text \<open>
  On the example, \<^verbatim>\<open>color\<close> is absent from the snapshot: setting it to undefined, or
  to the value it is shown with, marks its row.
\<close>

theorem setPropertyValue_marks_changed_witness:
  "valuesPrototype example_surface = ObjectPrototype
   \<and> selector_plain ''color''
   \<and> originalValues example_surface = []
   \<and> first_index (\<lambda>r. data_property r = Some ''color'') (rows example_surface) = Some 1
   \<and> classes (rows example_surface ! 1) = [''property'', ''expanded'', ''no-external-parameter'']
   \<and> classes (rows (snd (setPropertyValue no_coercion ''color'' JUndefined False False
        example_surface)) ! 1)
       = [''property'', ''expanded'', ''no-external-parameter'', ''changed'']
   \<and> hasClass (classes (rows (snd (setPropertyValue no_coercion ''color'' JUndefined False False
        example_surface)) ! 1)) ''changed''
   \<and> values (snd (setPropertyValue no_coercion ''color'' JUndefined False False example_surface))
       = values example_surface
   \<and> hasClass (classes (rows (snd (setPropertyValue no_coercion ''color'' (JStr ''#fff'') False
        False example_surface)) ! 1)) ''changed''"
proof -
  note std = ex_fields(9)
  have orig: "originalValue example_surface ''color'' = JUndefined"
    by (simp add: originalValue_def ex_fields obj_has_Nil prototype_names)
  have cls: "classes (rows (snd (setPropertyValue no_coercion ''color'' JUndefined False False
        example_surface)) ! 1)
       = [''property'', ''expanded'', ''no-external-parameter'', ''changed'']"
    by (simp add: setPropertyValue_row[OF std plain_names(6) plain_names(1) ex_row(1)]
        forceUpdate_def notifyEditorsPropertyChanged_def record_event_def ex_fields orig)
       (simp add: example_surface_def addClass_def hasClass_def)
  have before: "classes (rows example_surface ! 1)
      = [''property'', ''expanded'', ''no-external-parameter'']"
    by (simp add: example_surface_def)
  note m = setPropertyValue_marks_changed[OF std plain_names(6) plain_names(1) orig ex_row(1) refl]
  from m[of no_coercion JUndefined False] m[of no_coercion "JStr ''#fff''" False]
    cls before ex_row(1) plain_names(1)
  show ?thesis
    by (simp add: ex_fields)
qed

section \<open>Validation\<close>





section \<open>Detecting changes\<close>

lemma ab_surface_built:
  "Surface example_inspector plain_host [text_property ''a'', text_property ''b'']
     (Some [(''a'', JNum 1), (''b'', JNum 2)]) (Some ''inspector-2'') DEFAULTS (\<lambda>g. True)
     = Returns ab_surface"
  by (simp add: ab_surface_def text_property_def text_row_def example_inspector_def
      stringEditor_def DEFAULTS_def build_defs Let_def)

lemma ab_fields:
  "values ab_surface = [(''a'', JNum 1), (''b'', JNum 2)]"
  "originalValues ab_surface = [(''a'', JNum 1), (''b'', JNum 2)]"
  "rows ab_surface = [text_row 0 ''a'', text_row 1 ''b'']"
  "valuesPrototype ab_surface = ObjectPrototype"
  by (simp_all add: ab_surface_def)

lemma hasChanges_iff:
  "hasChanges coerce s \<longleftrightarrow> JSON_stringify (JObj (originalValues s)) \<noteq> JSON_stringify (JObj (values s))"
  by (simp add: hasChanges_def comparePropertyValues_def)

lemma setPropertyValue_rows:
  assumes "valuesPrototype s = ObjectPrototype" "name \<noteq> ''__proto__''"
    and "supress \<or> selector_plain name"
  shows "map data_property (rows (snd (setPropertyValue coerce name v supress force s)))
     = map data_property (rows s)"
  using assms
proof (cases rule: setPropertyValue_cases[where coerce = coerce and v = v and force = force])
  case supressed
  then show ?thesis by (simp add: forceUpdate_frame)
next
  case no_row
  then show ?thesis by simp
next
  case (row i)
  from first_index_Some[OF row(2)] have "i < length (rows s)" by simp
  then show ?thesis
    unfolding row(3)
    by (simp add: forceUpdate_frame notifyEditorsPropertyChanged_def record_event_def
        map_update list_update_same_conv)
qed

lemma setPropertyValue_row_index:
  assumes "valuesPrototype s = ObjectPrototype" "name \<noteq> ''__proto__''"
    and "supress \<or> selector_plain name"
  shows "first_index (\<lambda>r. data_property r = Some n)
      (rows (snd (setPropertyValue coerce name v supress force s)))
     = first_index (\<lambda>r. data_property r = Some n) (rows s)"
  unfolding first_index_map[of "\<lambda>p. p = Some n" data_property] setPropertyValue_rows[OF assms] ..

text \<open>
  C3 at the input on which the code departs from it: on the surface built for
  \<^verbatim>\<open>{a: 1, b: 2}\<close>, deleting \<^verbatim>\<open>a\<close> and then setting it back to its original value 1
  leaves the values \<^verbatim>\<open>{b: 2, a: 1}\<close>, equal to the snapshot key by key, and
  \<open>hasChanges\<close> is true: the serialisations differ in the order of the keys.
\<close>

theorem hasChanges_after_delete_and_restore:
  "\<not> hasChanges no_coercion ab_surface
   \<and> fst (setPropertyValue no_coercion ''a'' JUndefined False False ab_surface) = Returns JUndefined
   \<and> values (snd (setPropertyValue no_coercion ''a'' JUndefined False False ab_surface))
       = [(''b'', JNum 2)]
   \<and> fst (setPropertyValue no_coercion ''a'' (JNum 1) False False
        (snd (setPropertyValue no_coercion ''a'' JUndefined False False ab_surface)))
       = Returns (JNum 1)
   \<and> values (snd (setPropertyValue no_coercion ''a'' (JNum 1) False False
        (snd (setPropertyValue no_coercion ''a'' JUndefined False False ab_surface))))
       = [(''b'', JNum 2), (''a'', JNum 1)]
   \<and> originalValues (snd (setPropertyValue no_coercion ''a'' (JNum 1) False False
        (snd (setPropertyValue no_coercion ''a'' JUndefined False False ab_surface))))
       = [(''a'', JNum 1), (''b'', JNum 2)]
   \<and> (\<forall>key. obj_get (values (snd (setPropertyValue no_coercion ''a'' (JNum 1) False False
          (snd (setPropertyValue no_coercion ''a'' JUndefined False False ab_surface))))) key
        = obj_get (originalValues (snd (setPropertyValue no_coercion ''a'' (JNum 1) False False
          (snd (setPropertyValue no_coercion ''a'' JUndefined False False ab_surface))))) key)
   \<and> (\<forall>coerce. hasChanges coerce (snd (setPropertyValue no_coercion ''a'' (JNum 1) False False
        (snd (setPropertyValue no_coercion ''a'' JUndefined False False ab_surface)))))"
proof -
  let ?s1 = "snd (setPropertyValue no_coercion ''a'' JUndefined False False ab_surface)"
  let ?s2 = "snd (setPropertyValue no_coercion ''a'' (JNum 1) False False ?s1)"
  note std = ab_fields(4)
  note a = plain_names(8)
  have plain: "False \<or> selector_plain ''a''"
    by (simp add: plain_names)
  have row0: "first_index (\<lambda>r. data_property r = Some ''a'') (rows ab_surface) = Some 0"
    by (simp add: ab_fields text_row_def)
  have r1: "fst (setPropertyValue no_coercion ''a'' JUndefined False False ab_surface)
      = Returns JUndefined"
    by (simp add: setPropertyValue_row[OF std a plain_names(3) row0])
  have std1: "valuesPrototype ?s1 = ObjectPrototype"
    using setPropertyValue_values[OF std a] by simp
  have row1: "first_index (\<lambda>r. data_property r = Some ''a'') (rows ?s1) = Some 0"
    unfolding setPropertyValue_row_index[OF std a plain] by (rule row0)
  have r2: "fst (setPropertyValue no_coercion ''a'' (JNum 1) False False ?s1) = Returns (JNum 1)"
    by (simp add: setPropertyValue_row[OF std1 a plain_names(3) row1])
  have v1: "values ?s1 = [(''b'', JNum 2)]"
    using setPropertyValue_values[OF std a, of no_coercion JUndefined False False]
    by (simp add: written_def ab_fields obj_eval)
  have v2: "values ?s2 = [(''b'', JNum 2), (''a'', JNum 1)]"
    using setPropertyValue_values[OF std1 a, of no_coercion "JNum 1" False False]
    by (simp add: written_def v1 obj_eval)
  have o2: "originalValues ?s2 = [(''a'', JNum 1), (''b'', JNum 2)]"
    by (simp add: setPropertyValue_frame ab_fields)
  have h0: "\<not> hasChanges no_coercion ab_surface"
    by (simp add: hasChanges_iff ab_fields)
  have h2: "\<forall>coerce. hasChanges coerce ?s2"
    unfolding hasChanges_iff o2 v2 by simp
  have same: "\<forall>key. obj_get (values ?s2) key = obj_get (originalValues ?s2) key"
    unfolding o2 v2 by auto
  from h0 r1 v1 r2 v2 o2 h2 same show ?thesis by simp
qed

lemma Surface_originalValues:
  "Surface env h properties vals uniqueId opts manager = Returns s \<Longrightarrow>
   originalValues s = clone_values (values s) \<and> valuesPrototype s = ObjectPrototype"
  by (auto simp: Surface_def Let_def split: option.splits outcome.splits)

lemma obj_replace_revert:
  "obj_replace key (obj_get obj key) (obj_replace key v obj) = obj"
  by (induction obj) auto

lemma obj_replace_absent: "\<not> obj_has obj key \<Longrightarrow> obj_replace key v obj = obj"
  by (induction obj) (auto simp: obj_has_simps)

lemma obj_delete_insert_index:
  "\<not> obj_has obj key \<Longrightarrow> obj_delete key (obj_insert_index n key v obj) = obj"
proof (induction obj)
  case Nil
  show ?case by (simp add: obj_delete_def)
next
  case (Cons kv obj)
  from Cons.prems have absent: "\<not> obj_has obj key" and ne: "fst kv \<noteq> key"
    by (simp_all add: obj_has_simps)
  from obj_delete_absent[OF absent] have flt: "filter (\<lambda>kv. fst kv \<noteq> key) obj = obj"
    by (simp add: obj_delete_def)
  from Cons.IH[OF absent] have ih: "filter (\<lambda>kv. fst kv \<noteq> key) (obj_insert_index n key v obj) = obj"
    by (simp add: obj_delete_def)
  obtain k x where kv: "kv = (k, x)" by (cases kv)
  show ?case
    using ne flt ih unfolding kv by (simp add: obj_delete_def split: option.splits)
qed

lemma obj_delete_set_absent:
  assumes "\<not> obj_has obj key"
  shows "obj_delete key (own_set key v obj) = obj"
proof (cases "array_index key")
  case None
  from obj_delete_absent[OF assms] have "filter (\<lambda>kv. fst kv \<noteq> key) obj = obj"
    by (simp add: obj_delete_def)
  with None assms show ?thesis
    by (simp add: own_set_def obj_delete_def)
next
  case (Some n)
  with assms show ?thesis
    by (simp add: own_set_def obj_delete_insert_index)
qed

lemma written_revert_present:
  assumes "obj_has obj key" "obj_get obj key \<noteq> JUndefined" "v \<noteq> JUndefined"
  shows "written key (obj_get obj key) (written key v obj) = obj"
  using assms
  by (simp add: written_def own_set_def obj_has_replace obj_replace_revert)

lemma written_revert_absent:
  assumes "\<not> obj_has obj key"
  shows "written key JUndefined (written key v obj) = obj"
proof (cases "v = JUndefined")
  case True
  with assms show ?thesis
    by (simp add: written_def obj_get_absent)
next
  case False
  then have "written key v obj = own_set key v obj"
    by (simp add: written_def)
  with False assms show ?thesis
    by (simp add: written_def obj_get_set_same obj_delete_set_absent)
qed

lemma hasChanges_reverted:
  assumes "valuesPrototype s = ObjectPrototype" "name \<noteq> ''__proto__''"
    and "(obj_has (values s) name \<and> obj_get (values s) name \<noteq> JUndefined \<and> v \<noteq> JUndefined)
           \<or> \<not> obj_has (values s) name"
    and "s1 = snd (setPropertyValue coerce name v supress force s)"
    and "s2 = snd (setPropertyValue coerce name (obj_get (values s) name) supress' force' s1)"
  shows "values s2 = values s \<and> hasChanges coerce s2 = hasChanges coerce s"
proof -
  have one: "values s1 = written name v (values s)" "valuesPrototype s1 = ObjectPrototype"
    unfolding assms(4) using setPropertyValue_values[OF assms(1,2)] by simp_all
  have "values s2 = written name (obj_get (values s) name) (written name v (values s))"
    unfolding assms(5) using setPropertyValue_values[OF one(2) assms(2)] one(1) by simp
  also have "\<dots> = values s"
    using assms(3) written_revert_present written_revert_absent[of "values s" name v]
    by (auto simp: obj_get_absent)
  finally have v: "values s2 = values s" .
  have "originalValues s2 = originalValues s"
    unfolding assms(4,5) by (simp add: setPropertyValue_frame)
  with v show ?thesis by (simp add: hasChanges_iff)
qed

section \<open>Unknown editor kinds\<close>

lemma validateEditorType_eq:
  "validateEditorType env (type p)
     = (if propertyEditors env (editorKind p) = None \<and> object_prototype (editorKind p) = JUndefined
          then Throws (EditorClassNotDefined (editorKind p))
        else Returns ())"
  by (simp add: validateEditorType_def editorKind_def Let_def)

lemma buildRow_level:
  "data_group_level (buildRow manager rid p g) = None \<and> hasHead (buildRow manager rid p g)"
  by (simp add: buildRow_def buildGroupExpandControl_def applyGroupIndexAttribute_def)

lemma applyGroupLevelToRow_buildRow:
  "applyGroupLevelToRow h (buildRow manager rid p g)
     = Returns ((buildRow manager rid p g)\<lparr>data_group_level := Some (getLevel h)\<rparr>)"
  by (simp add: applyGroupLevelToRow_def buildRow_level)

lemma buildEditor_unknown:
  "unknownKind env p \<Longrightarrow> buildEditor env manager r p g = Throws (kindError (editorKind p))"
  by (simp add: buildEditor_def unknownKind_def validateEditorType_eq kindError_def
      editorKind_def[symmetric])

lemma buildEditor_known:
  "\<not> unknownKind env p \<Longrightarrow> \<exists>r' es. buildEditor env manager r p g = Returns (r', es)"
  by (auto simp: buildEditor_def unknownKind_def validateEditorType_eq editorKind_def Let_def
      split: option.splits)

lemma build_loop_Cons:
  "build_loop env manager sg (p # ps) cg tbody eds
     = (case buildEditor env manager
               ((buildRow manager (length tbody) p (nextGroup sg cg p))
                  \<lparr>data_group_level :=
                     Some (getLevel (if itemType p = GroupItem then sg else nextGroup sg cg p))\<rparr>)
               p (nextGroup sg cg p) of
          Throws e \<Rightarrow> Throws e
        | Returns (r2, new_editors) \<Rightarrow>
            build_loop env manager sg ps (nextGroup sg cg p) (tbody @ [r2]) (eds @ new_editors))"
proof (cases "itemType p = GroupItem")
  case True
  then show ?thesis
    by (simp add: Let_def nextGroup_def applyGroupLevelToRow_buildRow createGroup_def
        split: outcome.splits prod.splits)
next
  case False
  then show ?thesis
    by (simp add: Let_def nextGroup_def applyGroupLevelToRow_buildRow
        split: outcome.splits prod.splits)
qed

lemma build_loop_unknown:
  "unknownKind env p \<Longrightarrow>
   build_loop env manager sg (p # ps) cg tbody eds = Throws (kindError (editorKind p))"
  unfolding build_loop_Cons by (simp add: buildEditor_unknown)

lemma build_loop_known:
  assumes "\<not> unknownKind env p"
  shows "\<exists>cg' r es. build_loop env manager sg (p # ps) cg tbody eds
           = build_loop env manager sg ps cg' (tbody @ [r]) (eds @ es)"
proof -
  from buildEditor_known[OF assms]
  obtain r' es where "buildEditor env manager
               ((buildRow manager (length tbody) p (nextGroup sg cg p))
                  \<lparr>data_group_level :=
                     Some (getLevel (if itemType p = GroupItem then sg else nextGroup sg cg p))\<rparr>)
               p (nextGroup sg cg p) = Returns (r', es)"
    by blast
  then have "build_loop env manager sg (p # ps) cg tbody eds
      = build_loop env manager sg ps (nextGroup sg cg p) (tbody @ [r']) (eds @ es)"
    unfolding build_loop_Cons by simp
  then show ?thesis by blast
qed

lemma build_loop_result:
  "build_loop env manager sg ps cg tbody eds
     = (case find (unknownKind env) ps of
          Some p \<Rightarrow> Throws (kindError (editorKind p))
        | None \<Rightarrow> build_loop env manager sg ps cg tbody eds)
   \<and> (find (unknownKind env) ps = None
        \<longrightarrow> (\<exists>tbody' eds'. build_loop env manager sg ps cg tbody eds = Returns (tbody', eds')))"
proof (induction ps arbitrary: cg tbody eds)
  case Nil
  show ?case by simp
next
  case (Cons p ps)
  show ?case
  proof (cases "unknownKind env p")
    case True
    then show ?thesis by (simp add: build_loop_unknown del: build_loop.simps)
  next
    case False
    from build_loop_known[OF False, of manager sg ps cg tbody eds]
    obtain cg' r es where step: "build_loop env manager sg (p # ps) cg tbody eds
           = build_loop env manager sg ps cg' (tbody @ [r]) (eds @ es)"
      by blast
    from Cons.IH[of cg' "tbody @ [r]" "eds @ es"] False show ?thesis
      unfolding step by (simp del: build_loop.simps split: option.splits)
  qed
qed

text \<open>
  C9, as amended: the constructor fails exactly when some property item has a kind that
  is not registered, the kind of an item without a type being \<^verbatim>\<open>string\<close>. It fails at
  the first such item: with the error of \<open>validateEditorType\<close>, which names the kind,
  unless the kind is the name of a member of \<^verbatim>\<open>Object.prototype\<close>; for such a name the
  check passes and the making of the editor fails with a TypeError. When every property
  item has a registered kind the constructor returns the surface.
\<close>

theorem Surface_fails_fast_on_unknown_editor_kind:
  "(case find (unknownKind env) properties of
      Some p \<Rightarrow>
        Surface env h properties vals (Some uid) opts manager
          = Throws (if object_prototype (editorKind p) = JUndefined
                      then EditorClassNotDefined (editorKind p)
                    else NotAConstructor)
    | None \<Rightarrow>
        (\<exists>s. Surface env h properties vals (Some uid) opts manager = Returns s))
   \<and> ((\<exists>p\<in>set properties. itemType p = PropertyItem \<and> propertyEditors env (editorKind p) = None)
        \<longleftrightarrow> (\<exists>e. Surface env h properties vals (Some uid) opts manager = Throws e))"
proof -
  let ?b = "build_loop env manager RootGroup properties RootGroup [] []"
  have first: "case find (unknownKind env) properties of
      Some p \<Rightarrow>
        Surface env h properties vals (Some uid) opts manager
          = Throws (if object_prototype (editorKind p) = JUndefined
                      then EditorClassNotDefined (editorKind p)
                    else NotAConstructor)
    | None \<Rightarrow>
        (\<exists>s. Surface env h properties vals (Some uid) opts manager = Returns s)"
  proof (cases "find (unknownKind env) properties")
    case None
    with build_loop_result[of env manager RootGroup properties RootGroup "[]" "[]"]
    obtain tbody eds where "?b = Returns (tbody, eds)" by auto
    with None show ?thesis by (simp add: Surface_def Let_def)
  next
    case (Some p)
    with build_loop_result[of env manager RootGroup properties RootGroup "[]" "[]"]
    have "?b = Throws (kindError (editorKind p))" by simp
    with Some show ?thesis by (simp add: Surface_def Let_def kindError_def)
  qed
  have ex: "(\<exists>p\<in>set properties. itemType p = PropertyItem \<and> propertyEditors env (editorKind p) = None)
      \<longleftrightarrow> find (unknownKind env) properties \<noteq> None"
    by (auto simp: find_None_iff unknownKind_def)
  show ?thesis
    using first unfolding ex by (auto split: option.splits)
qed

section \<open>Merging a child surface\<close>

lemma rowId_leveled: "rowId (leveled g r) = rowId r"
  by (simp add: leveled_def)

lemma applyGroupLevelToRow_leveled:
  "data_group_level r \<noteq> None \<or> hasHead r \<Longrightarrow> applyGroupLevelToRow g r = Returns (leveled g r)"
  by (auto simp: applyGroupLevelToRow_def leveled_def)

lemma first_index_append_last:
  "\<forall>x\<in>set pre. \<not> P x \<Longrightarrow> P a \<Longrightarrow> first_index P (pre @ a # post) = Some (length pre)"
  by (induction pre) auto

lemma filter_id: "\<forall>x\<in>set xs. P x \<Longrightarrow> filter P xs = xs"
  by (induction xs) auto

lemma insertAfter_fresh:
  assumes "\<forall>x\<in>set pre. rowId x \<noteq> anchor" "rowId a = anchor"
    and "\<forall>x\<in>set (pre @ a # post). rowId x \<noteq> rowId r"
  shows "insertAfter anchor r (pre @ a # post) = Returns (pre @ a # r # post)"
proof -
  have ne: "rowId r \<noteq> anchor" using assms(2,3) by auto
  have flt: "filter (\<lambda>x. rowId x \<noteq> rowId r) (pre @ a # post) = pre @ a # post"
    using assms(3) by (intro filter_id) simp
  have idx: "first_index (\<lambda>x. rowId x = anchor) (pre @ a # post) = Some (length pre)"
    using assms(1,2) by (intro first_index_append_last) simp_all
  show ?thesis
    unfolding insertAfter_def Let_def flt idx using ne by simp
qed

lemma map_replace_fresh:
  assumes "\<forall>x\<in>set (pre @ a # post). rowId x \<noteq> rowId r"
  shows "map (\<lambda>x. if rowId x = rowId r then r' else x) (pre @ a # r # post) = pre @ a # r' # post"
proof -
  have "map (\<lambda>x. if rowId x = rowId r then r' else x) xs = xs"
    if "\<forall>x\<in>set xs. rowId x \<noteq> rowId r" for xs
    using that by (induction xs) auto
  from this[of pre] this[of post] assms show ?thesis by simp
qed

lemma mergeChildSurface_loop_inserts:
  assumes "\<forall>x\<in>set pre. rowId x \<noteq> anchor" "rowId a = anchor"
    and "distinct (map rowId rs)"
    and "\<forall>r\<in>set rs. \<forall>x\<in>set (pre @ a # post). rowId x \<noteq> rowId r"
    and "\<forall>r\<in>set rs. data_group_level r \<noteq> None \<or> hasHead r"
  shows "mergeChildSurface_loop g anchor rs (pre @ a # post)
           = (Returns (), pre @ a # map (leveled g) (rev rs) @ post)"
  using assms(3,4,5)
proof (induction rs arbitrary: post)
  case Nil
  show ?case by simp
next
  case (Cons r rs)
  have fresh: "\<forall>x\<in>set (pre @ a # post). rowId x \<noteq> rowId r"
    using Cons.prems(2) by simp
  have ins: "insertAfter anchor r (pre @ a # post) = Returns (pre @ a # r # post)"
    by (rule insertAfter_fresh[OF assms(1,2) fresh])
  have lev: "applyGroupLevelToRow g r = Returns (leveled g r)"
    using Cons.prems(3) by (intro applyGroupLevelToRow_leveled) simp
  have step: "mergeChildSurface_loop g anchor (r # rs) (pre @ a # post)
      = mergeChildSurface_loop g anchor rs (pre @ a # (leveled g r # post))"
    by (simp add: ins lev map_replace_fresh[OF fresh] del: append.simps map_append)
  have d: "distinct (map rowId rs)" using Cons.prems(1) by simp
  have f: "\<forall>r'\<in>set rs. \<forall>x\<in>set (pre @ a # (leveled g r # post)). rowId x \<noteq> rowId r'"
    using Cons.prems(1,2) by (auto simp: rowId_leveled)
  have h: "\<forall>r\<in>set rs. data_group_level r \<noteq> None \<or> hasHead r"
    using Cons.prems(3) by simp
  show ?case
    unfolding step Cons.IH[OF d f h] by simp
qed

text \<open>
  C8: when the anchor is a row of the table and the child's rows are new to the table,
  \<open>mergeChildSurface\<close> leaves the child's rows in their own order directly after the
  anchor. The loop takes the rows from the last to the first and puts each one right
  after the anchor: after it has handled the rows of any tail of the child's rows, that
  tail stands in order behind the anchor.
\<close>

theorem mergeChildSurface_keeps_child_order:
  assumes "rows s = pre @ a # post"
    and "\<forall>x\<in>set pre. rowId x \<noteq> rowId a"
    and "distinct (map rowId (rows child))"
    and "\<forall>r\<in>set (rows child). \<forall>x\<in>set (rows s). rowId x \<noteq> rowId r"
    and "\<forall>r\<in>set (rows child). data_group_level r \<noteq> None \<or> hasHead r"
  shows "fst (mergeChildSurface child (rowId a) s) = Returns ()
    \<and> rows (snd (mergeChildSurface child (rowId a) s))
        = pre @ a # map (leveled (surfaceGroup child)) (rows child) @ post
    \<and> map rowId (rows (snd (mergeChildSurface child (rowId a) s)))
        = map rowId pre @ rowId a # map rowId (rows child) @ map rowId post
    \<and> (\<forall>front rest. rows child = front @ rest \<longrightarrow>
          mergeChildSurface_loop (surfaceGroup child) (rowId a) (rev rest) (rows s)
            = (Returns (), pre @ a # map (leveled (surfaceGroup child)) rest @ post))"
proof -
  have part: "mergeChildSurface_loop (surfaceGroup child) (rowId a) (rev rest) (rows s)
            = (Returns (), pre @ a # map (leveled (surfaceGroup child)) rest @ post)"
    if split: "rows child = front @ rest" for front rest
  proof -
    have d: "distinct (map rowId (rev rest))"
      using assms(3) unfolding split by (simp add: rev_map[symmetric])
    have f: "\<forall>r\<in>set (rev rest). \<forall>x\<in>set (pre @ a # post). rowId x \<noteq> rowId r"
      using assms(4) unfolding assms(1) split by simp
    have h: "\<forall>r\<in>set (rev rest). data_group_level r \<noteq> None \<or> hasHead r"
      using assms(5) unfolding split by simp
    from mergeChildSurface_loop_inserts[OF assms(2) refl d f h, of "surfaceGroup child"]
    show ?thesis
      by (simp add: assms(1))
  qed
  from part[of "[]" "rows child"]
  have whole: "mergeChildSurface_loop (surfaceGroup child) (rowId a) (rev (rows child)) (rows s)
            = (Returns (), pre @ a # map (leveled (surfaceGroup child)) (rows child) @ post)"
    by simp
  have "fst (mergeChildSurface child (rowId a) s) = Returns ()
    \<and> rows (snd (mergeChildSurface child (rowId a) s))
        = pre @ a # map (leveled (surfaceGroup child)) (rows child) @ post
    \<and> map rowId (rows (snd (mergeChildSurface child (rowId a) s)))
        = map rowId pre @ rowId a # map rowId (rows child) @ map rowId post"
    by (simp add: mergeChildSurface_def whole rowId_leveled comp_def)
  with part show ?thesis by blast
qed

section \<open>Toggling groups\<close>

lemma skeleton_fields:
  "skeleton r = skeleton r' \<Longrightarrow>
     rowId r = rowId r' \<and> data_group_index r = data_group_index r'
     \<and> data_parent_group_index r = data_parent_group_index r' \<and> (link r = None) = (link r' = None)"
  by (simp add: skeleton_def)

lemma map_skeleton_nth:
  "map skeleton xs = map skeleton ys \<Longrightarrow> i < length xs \<Longrightarrow> skeleton (xs ! i) = skeleton (ys ! i)"
  by (metis length_map nth_map)

lemma first_index_skeleton:
  assumes "map skeleton xs = map skeleton ys"
  shows "first_index (\<lambda>r. rowId r = rid) xs = first_index (\<lambda>r. rowId r = rid) ys"
proof -
  have "first_index (\<lambda>r. rowId r = rid) zs = first_index (\<lambda>k. fst k = rid) (map skeleton zs)" for zs
    by (induction zs) (simp_all add: skeleton_def)
  with assms show ?thesis by simp
qed

lemma findGroupRows_skeleton:
  assumes "map skeleton xs = map skeleton ys"
  shows "findGroupRows xs g b = findGroupRows ys g b"
proof -
  have "findGroupRows zs g b
      = map fst (filter (\<lambda>k. case fst (snd (snd k)) of None \<Rightarrow> False
                              | Some h \<Rightarrow> h = g \<or> (b \<and> isDescendantOf h g)) (map skeleton zs))" for zs
    by (induction zs) (simp_all add: findGroupRows_def skeleton_def)
  with assms show ?thesis by simp
qed

lemma findGroupRow_skeleton:
  assumes "map skeleton xs = map skeleton ys"
  shows "findGroupRow xs g = findGroupRow ys g"
proof -
  have "findGroupRow zs g
      = map_option fst (find (\<lambda>k. fst (snd k) = Some g) (map skeleton zs))" for zs
    by (induction zs) (simp_all add: findGroupRow_def skeleton_def)
  with assms show ?thesis by simp
qed

lemma toggleRow_frame:
  "map skeleton (rows (toggleRow rid c s)) = map skeleton (rows s)
   \<and> timers (toggleRow rid c s) = timers s
   \<and> groupManager (toggleRow rid c s) = groupManager s
   \<and> journal (toggleRow rid c s) = journal s @ [RowToggled rid c]"
  by (simp add: toggleRow_def record_event_def skeleton_def comp_def)

declare expandOrCollapseRows.simps [simp del]

lemma expandOrCollapseRows_forced:
  "map skeleton (rows (expandOrCollapseRows rs c d True s)) = map skeleton (rows s)
   \<and> timers (expandOrCollapseRows rs c d True s) = timers s
   \<and> groupManager (expandOrCollapseRows rs c d True s) = groupManager s
   \<and> journal (expandOrCollapseRows rs c d True s) = journal s @ map (\<lambda>r. RowToggled r c) (rev rs)"
proof (induction rs arbitrary: s rule: rev_induct)
  case Nil
  show ?case by (simp add: expandOrCollapseRows.simps)
next
  case (snoc r rs)
  have "expandOrCollapseRows (rs @ [r]) c d True s
      = expandOrCollapseRows rs c d True (toggleRow r c s)"
    by (subst expandOrCollapseRows.simps) simp
  with snoc[of "toggleRow r c s"] show ?case
    by (simp add: toggleRow_frame)
qed

lemma expandOrCollapseRows_animated:
  "expandOrCollapseRows rs c d False s
     = (if rs = [] then s
        else record_event (SetTimeout d)
          (s\<lparr>timers := timers s @ [\<lparr>timerRow = last rs, timerRows = butlast rs,
                                      timerCollapse = c, timerDuration = d\<rparr>]\<rparr>))"
  by (subst expandOrCollapseRows.simps) simp

lemma map_skeleton_link_update:
  assumes "i < length xs" "link (xs ! i) \<noteq> None"
  shows "map skeleton (xs[i := (xs ! i)\<lparr>link := Some l\<rparr>]) = map skeleton xs"
proof -
  have "skeleton ((xs ! i)\<lparr>link := Some l\<rparr>) = skeleton (xs ! i)"
    using assms(2) by (simp add: skeleton_def)
  then show ?thesis
    using assms(1) by (simp add: map_update list_update_same_conv)
qed

lemma toggleGroup_found:
  assumes "first_index (\<lambda>r. rowId r = rid) (rows s) = Some i"
    and "link (rows s ! i) = Some lk" and "data_group_index (rows s ! i) = Some g"
  shows "toggleGroup rid forceExpand s
     = (Returns (),
        setGroupStatus g (\<not> (hasClass lk ''expanded'' \<and> \<not> forceExpand))
          (expandOrCollapseRows
             (findGroupRows (rows s) g (\<not> (hasClass lk ''expanded'' \<and> \<not> forceExpand)))
             (hasClass lk ''expanded'' \<and> \<not> forceExpand)
             (round_duration (length
                (findGroupRows (rows s) g (\<not> (hasClass lk ''expanded'' \<and> \<not> forceExpand)))))
             forceExpand
             (record_event (FindGroupRows g (\<not> (hasClass lk ''expanded'' \<and> \<not> forceExpand)))
                (s\<lparr>rows := (rows s)[i := (rows s ! i)\<lparr>link := Some
                     (if hasClass lk ''expanded'' \<and> \<not> forceExpand
                        then removeClass ''expanded'' lk
                      else addClass ''expanded'' lk)\<rparr>]\<rparr>))))"
proof -
  from first_index_Some[OF assms(1)] have i: "i < length (rows s)" by simp
  have skel: "map skeleton ((rows s)[i := (rows s ! i)\<lparr>link := Some l\<rparr>]) = map skeleton (rows s)" for l
    using i assms(2) by (intro map_skeleton_link_update) simp_all
  show ?thesis
    unfolding toggleGroup_def assms(1)
    by (simp add: assms(2,3) Let_def findGroupRows_skeleton[OF skel])
qed

lemma setGroupStatus_frame:
  "rows (setGroupStatus g b s) = rows s \<and> timers (setGroupStatus g b s) = timers s
   \<and> groupManager (setGroupStatus g b s) = (groupManager s)(g := b)
   \<and> journal (setGroupStatus g b s) = journal s @ [SetGroupStatus g b]"
  by (simp add: setGroupStatus_def record_event_def)

lemma toggleGroup_effects:
  assumes "first_index (\<lambda>r. rowId r = rid) (rows s) = Some i"
    and "link (rows s ! i) = Some lk" and "data_group_index (rows s ! i) = Some g"
    and "collapse = (hasClass lk ''expanded'' \<and> \<not> forceExpand)"
    and "selected = findGroupRows (rows s) g (\<not> collapse)"
    and "s' = snd (toggleGroup rid forceExpand s)"
  shows "fst (toggleGroup rid forceExpand s) = Returns ()
    \<and> groupManager s' = (groupManager s)(g := \<not> collapse)
    \<and> (forceExpand \<longrightarrow>
          journal s' = journal s @ [FindGroupRows g True]
                         @ map (\<lambda>r. RowToggled r False) (rev selected)
                         @ [SetGroupStatus g True]
          \<and> timers s' = timers s)
    \<and> (\<not> forceExpand \<longrightarrow>
          journal s' = journal s @ [FindGroupRows g (\<not> collapse)]
                         @ (if selected = [] then []
                            else [SetTimeout (round_duration (length selected))])
                         @ [SetGroupStatus g (\<not> collapse)]
          \<and> timers s' = timers s
               @ (if selected = [] then []
                  else [\<lparr>timerRow = last selected, timerRows = butlast selected,
                         timerCollapse = collapse,
                         timerDuration = round_duration (length selected)\<rparr>])
          \<and> map classes (rows s') = map classes (rows s))"
proof -
  from first_index_Some[OF assms(1)] have i: "i < length (rows s)" by simp
  note tg = toggleGroup_found[OF assms(1,2,3), of forceExpand, folded assms(4), folded assms(5)]
  have r: "fst (toggleGroup rid forceExpand s) = Returns ()"
    unfolding tg by simp
  have gm: "groupManager s' = (groupManager s)(g := \<not> collapse)"
  proof (cases forceExpand)
    case True
    then show ?thesis
      unfolding assms(6) tg
      by (simp add: setGroupStatus_frame expandOrCollapseRows_forced record_event_def)
  next
    case False
    then show ?thesis
      unfolding assms(6) tg
      by (simp add: setGroupStatus_frame expandOrCollapseRows_animated record_event_def)
  qed
  have forced: "forceExpand \<longrightarrow>
          journal s' = journal s @ [FindGroupRows g True]
                         @ map (\<lambda>r. RowToggled r False) (rev selected)
                         @ [SetGroupStatus g True]
          \<and> timers s' = timers s"
  proof
    assume f: forceExpand
    then have c: "collapse = False" using assms(4) by simp
    show "journal s' = journal s @ [FindGroupRows g True]
                         @ map (\<lambda>r. RowToggled r False) (rev selected)
                         @ [SetGroupStatus g True]
          \<and> timers s' = timers s"
      unfolding assms(6) tg using f c
      by (simp add: setGroupStatus_frame expandOrCollapseRows_forced record_event_def)
  qed
  have animated: "\<not> forceExpand \<longrightarrow>
          journal s' = journal s @ [FindGroupRows g (\<not> collapse)]
                         @ (if selected = [] then []
                            else [SetTimeout (round_duration (length selected))])
                         @ [SetGroupStatus g (\<not> collapse)]
          \<and> timers s' = timers s
               @ (if selected = [] then []
                  else [\<lparr>timerRow = last selected, timerRows = butlast selected,
                         timerCollapse = collapse,
                         timerDuration = round_duration (length selected)\<rparr>])
          \<and> map classes (rows s') = map classes (rows s)"
  proof
    assume f: "\<not> forceExpand"
    have cls: "map classes ((rows s)[i := (rows s ! i)\<lparr>link := l\<rparr>]) = map classes (rows s)" for l
      using i by (simp add: map_update list_update_same_conv)
    show "journal s' = journal s @ [FindGroupRows g (\<not> collapse)]
                         @ (if selected = [] then []
                            else [SetTimeout (round_duration (length selected))])
                         @ [SetGroupStatus g (\<not> collapse)]
          \<and> timers s' = timers s
               @ (if selected = [] then []
                  else [\<lparr>timerRow = last selected, timerRows = butlast selected,
                         timerCollapse = collapse,
                         timerDuration = round_duration (length selected)\<rparr>])
          \<and> map classes (rows s') = map classes (rows s)"
      unfolding assms(6) tg using f
      by (simp add: setGroupStatus_frame expandOrCollapseRows_animated record_event_def cls)
  qed
  from r gm forced animated show ?thesis by blast
qed

lemma fire_timer_single:
  assumes "timers s = [\<lparr>timerRow = r, timerRows = rev xs, timerCollapse = c, timerDuration = d\<rparr>]"
  shows "journal (fire_timer s) = journal s @ RowToggled r c # (if xs = [] then [] else [SetTimeout d])
    \<and> timers (fire_timer s)
        = (if xs = [] then []
           else [\<lparr>timerRow = hd xs, timerRows = rev (tl xs), timerCollapse = c, timerDuration = d\<rparr>])
    \<and> map skeleton (rows (fire_timer s)) = map skeleton (rows s)
    \<and> groupManager (fire_timer s) = groupManager s"
proof (cases xs)
  case Nil
  then show ?thesis
    by (simp add: fire_timer_def assms expandOrCollapseRows_animated toggleRow_def
        record_event_def skeleton_def comp_def)
next
  case (Cons x xs')
  then show ?thesis
    by (simp add: fire_timer_def assms expandOrCollapseRows_animated toggleRow_def
        record_event_def skeleton_def comp_def)
qed

lemma animation_runs:
  assumes "timers s = [\<lparr>timerRow = r, timerRows = rev xs, timerCollapse = c, timerDuration = d\<rparr>]"
  shows "journal ((fire_timer ^^ Suc (length xs)) s) = journal s @ animation_steps (r # xs) c d
    \<and> timers ((fire_timer ^^ Suc (length xs)) s) = []
    \<and> groupManager ((fire_timer ^^ Suc (length xs)) s) = groupManager s"
  using assms
proof (induction xs arbitrary: s r)
  case Nil
  from fire_timer_single[OF Nil] show ?case by simp
next
  case (Cons x xs)
  from fire_timer_single[OF Cons.prems]
  have j: "journal (fire_timer s) = journal s @ [RowToggled r c, SetTimeout d]"
    and t: "timers (fire_timer s)
        = [\<lparr>timerRow = x, timerRows = rev xs, timerCollapse = c, timerDuration = d\<rparr>]"
    and g: "groupManager (fire_timer s) = groupManager s"
    by simp_all
  have "(fire_timer ^^ Suc (length (x # xs))) s = (fire_timer ^^ Suc (length xs)) (fire_timer s)"
    by (simp add: funpow_swap1)
  with Cons.IH[OF t] j g show ?case by simp
qed

text \<open>
  C6, as amended: \<open>toggleGroup\<close> hands to the animation the rows that \<open>findGroupRows\<close>
  returns for the group of the row, called with its third argument true exactly when
  the transition is an expansion, and commits the new state with \<open>setGroupStatus\<close> at
  the end of the same call. A forced toggle has toggled every row by then, last row
  first. An animated toggle has toggled none: it has set one timer, and the rows are
  toggled afterwards, one per timer, last row first.
\<close>

theorem toggleGroup_rows_and_commit:
  assumes "first_index (\<lambda>r. rowId r = rid) (rows s) = Some i"
    and "link (rows s ! i) = Some lk" and "data_group_index (rows s ! i) = Some g"
    and "collapse = (hasClass lk ''expanded'' \<and> \<not> forceExpand)"
    and "selected = findGroupRows (rows s) g (\<not> collapse)"
    and "s' = snd (toggleGroup rid forceExpand s)"
  shows "fst (toggleGroup rid forceExpand s) = Returns ()
    \<and> groupManager s' = (groupManager s)(g := \<not> collapse)
    \<and> (forceExpand \<longrightarrow>
          journal s' = journal s @ [FindGroupRows g True]
                         @ map (\<lambda>r. RowToggled r False) (rev selected)
                         @ [SetGroupStatus g True]
          \<and> timers s' = timers s)
    \<and> (\<not> forceExpand \<longrightarrow>
          journal s' = journal s @ [FindGroupRows g (\<not> collapse)]
                         @ (if selected = [] then []
                            else [SetTimeout (round_duration (length selected))])
                         @ [SetGroupStatus g (\<not> collapse)]
          \<and> timers s' = timers s
               @ (if selected = [] then []
                  else [\<lparr>timerRow = last selected, timerRows = butlast selected,
                         timerCollapse = collapse,
                         timerDuration = round_duration (length selected)\<rparr>])
          \<and> map classes (rows s') = map classes (rows s))
    \<and> (\<not> forceExpand \<and> timers s = [] \<and> selected \<noteq> [] \<longrightarrow>
          journal ((fire_timer ^^ length selected) s')
            = journal s' @ animation_steps (rev selected) collapse (round_duration (length selected))
          \<and> timers ((fire_timer ^^ length selected) s') = []
          \<and> groupManager ((fire_timer ^^ length selected) s') = groupManager s')"
proof -
  note eff = toggleGroup_effects[OF assms]
  have later: "\<not> forceExpand \<and> timers s = [] \<and> selected \<noteq> [] \<longrightarrow>
          journal ((fire_timer ^^ length selected) s')
            = journal s' @ animation_steps (rev selected) collapse (round_duration (length selected))
          \<and> timers ((fire_timer ^^ length selected) s') = []
          \<and> groupManager ((fire_timer ^^ length selected) s') = groupManager s'"
  proof
    assume a: "\<not> forceExpand \<and> timers s = [] \<and> selected \<noteq> []"
    with eff have t: "timers s' = [\<lparr>timerRow = last selected, timerRows = rev (rev (butlast selected)),
                         timerCollapse = collapse,
                         timerDuration = round_duration (length selected)\<rparr>]"
      by simp
    have r: "last selected # rev (butlast selected) = rev selected"
      using a by (metis append_butlast_last_id rev.simps(2) rev_rev_ident rev_swap)
    have l: "Suc (length (rev (butlast selected))) = length selected"
      using a by (cases selected rule: rev_cases) simp_all
    from animation_runs[OF t] show "journal ((fire_timer ^^ length selected) s')
            = journal s' @ animation_steps (rev selected) collapse (round_duration (length selected))
          \<and> timers ((fire_timer ^^ length selected) s') = []
          \<and> groupManager ((fire_timer ^^ length selected) s') = groupManager s'"
      unfolding r l .
  qed
  from eff later show ?thesis by blast
qed

lemma ex_rows:
  "rows example_surface =
        [\<lparr>rowId = 0, data_property = None,
           data_group_index = Some (Group (Some 1) RootGroup),
           data_parent_group_index = Some RootGroup, data_group_level = Some 0,
           classes = [''group''], link = Some [''expandControl'', ''expanded''],
           hasHead = True\<rparr>,
         \<lparr>rowId = 1, data_property = Some ''color'', data_group_index = None,
           data_parent_group_index = Some (Group (Some 1) RootGroup),
           data_group_level = Some 1,
           classes = [''property'', ''expanded'', ''no-external-parameter''],
           link = None, hasHead = True\<rparr>]"
  by (simp add: example_surface_def)

lemma ex_group_row:
  "first_index (\<lambda>r. rowId r = 0) (rows example_surface) = Some 0"
  "link (rows example_surface ! 0) = Some [''expandControl'', ''expanded'']"
  "data_group_index (rows example_surface ! 0) = Some (Group (Some 1) RootGroup)"
  "findGroupRows (rows example_surface) (Group (Some 1) RootGroup) b = [1]"
  by (simp_all add: ex_rows findGroupRows_def isDescendantOf_def)

lemma nested_rows:
  "first_index (\<lambda>r. rowId r = 0) (rows nested_surface) = Some 0"
  "link (rows nested_surface ! 0) = Some [''expandControl'']"
  "data_group_index (rows nested_surface ! 0) = Some (Group (Some 1) RootGroup)"
  "findGroupRows (rows nested_surface) (Group (Some 1) RootGroup) True = [1, 2, 3]"
  "findGroupRows (rows nested_surface) (Group (Some 1) RootGroup) False = [1, 2]"
  "journal nested_surface = []" "timers nested_surface = []"
  by (simp_all add: nested_surface_def findGroupRows_def isDescendantOf_def ex_fields)

text \<open>Collapsing and force-expanding group 1 of the example.\<close>

theorem toggleGroup_rows_and_commit_witness:
  "first_index (\<lambda>r. rowId r = 0) (rows example_surface) = Some 0
   \<and> link (rows example_surface ! 0) = Some [''expandControl'', ''expanded'']
   \<and> data_group_index (rows example_surface ! 0) = Some (Group (Some 1) RootGroup)
   \<and> findGroupRows (rows example_surface) (Group (Some 1) RootGroup) False = [1]
   \<and> fst (toggleGroup 0 False example_surface) = Returns ()
   \<and> journal (snd (toggleGroup 0 False example_surface))
       = [FindGroupRows (Group (Some 1) RootGroup) False, SetTimeout 50,
          SetGroupStatus (Group (Some 1) RootGroup) False]
   \<and> journal (fire_timer (snd (toggleGroup 0 False example_surface)))
       = [FindGroupRows (Group (Some 1) RootGroup) False, SetTimeout 50,
          SetGroupStatus (Group (Some 1) RootGroup) False, RowToggled 1 True]
   \<and> journal (snd (toggleGroup 0 True example_surface))
       = [FindGroupRows (Group (Some 1) RootGroup) True, RowToggled 1 False,
          SetGroupStatus (Group (Some 1) RootGroup) True]"
proof -
  have c: "True = (hasClass [''expandControl'', ''expanded''] ''expanded'' \<and> \<not> False)"
    by (simp add: hasClass_def)
  have e: "False = (hasClass [''expandControl'', ''expanded''] ''expanded'' \<and> \<not> True)"
    by simp
  from toggleGroup_rows_and_commit[OF ex_group_row(1,2,3) c ex_group_row(4)[symmetric] refl]
       toggleGroup_rows_and_commit[OF ex_group_row(1,2,3) e ex_group_row(4)[symmetric] refl]
       ex_group_row
  show ?thesis
    by (simp add: ex_fields round_duration_def)
qed

text \<open>
  C6 as stated fails twice. Collapsing group 1 of the example commits the collapsed
  state while the row of the group still has its classes and waits for its timer. And
  expanding group 1 of the nested table selects row 3, a row of the descendant group 2,
  although the transition is not a collapse.
\<close>

theorem toggleGroup_rows_and_commit_counterexample:
  "fst (toggleGroup 0 False example_surface) = Returns ()
   \<and> journal (snd (toggleGroup 0 False example_surface))
       = [FindGroupRows (Group (Some 1) RootGroup) False, SetTimeout 50,
          SetGroupStatus (Group (Some 1) RootGroup) False]
   \<and> groupManager (snd (toggleGroup 0 False example_surface)) (Group (Some 1) RootGroup) = False
   \<and> map classes (rows (snd (toggleGroup 0 False example_surface)))
       = [[''group''], [''property'', ''expanded'', ''no-external-parameter'']]
   \<and> map timerRow (timers (snd (toggleGroup 0 False example_surface))) = [1]
   \<and> fst (toggleGroup 0 False nested_surface) = Returns ()
   \<and> journal (snd (toggleGroup 0 False nested_surface))
       = [FindGroupRows (Group (Some 1) RootGroup) True, SetTimeout 17,
          SetGroupStatus (Group (Some 1) RootGroup) True]
   \<and> findGroupRows (rows nested_surface) (Group (Some 1) RootGroup) True = [1, 2, 3]
   \<and> map data_parent_group_index (rows nested_surface)
       = [Some RootGroup, Some (Group (Some 1) RootGroup), Some (Group (Some 1) RootGroup),
          Some (Group (Some 2) (Group (Some 1) RootGroup))]
   \<and> map timerRow (timers (snd (toggleGroup 0 False nested_surface))) = [3]
   \<and> map timerRows (timers (snd (toggleGroup 0 False nested_surface))) = [[1, 2]]"
proof -
  have c: "True = (hasClass [''expandControl'', ''expanded''] ''expanded'' \<and> \<not> False)"
    by (simp add: hasClass_def)
  have e: "False = (hasClass [''expandControl''] ''expanded'' \<and> \<not> False)"
    by (simp add: hasClass_def)
  note a = toggleGroup_effects[OF ex_group_row(1,2,3) c ex_group_row(4)[symmetric] refl]
  note b = toggleGroup_effects[OF nested_rows(1,2,3) e, of "[1, 2, 3]", OF _ refl]
  have p: "map data_parent_group_index (rows nested_surface)
       = [Some RootGroup, Some (Group (Some 1) RootGroup), Some (Group (Some 1) RootGroup),
          Some (Group (Some 2) (Group (Some 1) RootGroup))]"
    by (simp add: nested_surface_def)
  from a b p nested_rows show ?thesis
    by (simp add: ex_fields ex_rows round_duration_def)
qed

section \<open>Expanding the parents of a group\<close>

lemma toggle_ready_skeleton:
  assumes "map skeleton xs = map skeleton ys"
  shows "toggle_ready xs = toggle_ready ys"
proof -
  have *: "toggle_ready zs
      = (distinct (map fst (map skeleton zs))
         \<and> list_all (\<lambda>k. fst (snd k) = None \<or> \<not> snd (snd (snd k))) (map skeleton zs))" for zs
    by (simp add: toggle_ready_def skeleton_def comp_def list_all_iff)
  show ?thesis
    unfolding *[of xs] *[of ys] assms by (rule refl)
qed

lemma forced_events_skeleton:
  "map skeleton xs = map skeleton ys \<Longrightarrow> forced_events xs h = forced_events ys h"
  by (simp add: forced_events_def findGroupRow_skeleton[of xs ys] findGroupRows_skeleton[of xs ys]
      split: option.splits)

lemma findGroupRow_located:
  assumes "toggle_ready table" "findGroupRow table h = Some rid"
  shows "\<exists>i lk. first_index (\<lambda>r. rowId r = rid) table = Some i
           \<and> link (table ! i) = Some lk \<and> data_group_index (table ! i) = Some h"
proof -
  from assms(2) obtain r where r: "find (\<lambda>r. data_group_index r = Some h) table = Some r"
    and rid: "rowId r = rid"
    by (auto simp: findGroupRow_def)
  from r obtain j where j: "j < length table" "table ! j = r" "data_group_index r = Some h"
    by (auto simp: find_Some_iff)
  have "r \<in> set table"
    using j(1,2) nth_mem by blast
  with rid have "\<exists>x\<in>set table. rowId x = rid"
    by blast
  then obtain i where i: "first_index (\<lambda>r. rowId r = rid) table = Some i"
    by (cases "first_index (\<lambda>r. rowId r = rid) table") (auto simp: first_index_None)
  from first_index_Some[OF i] have il: "i < length table" and ir: "rowId (table ! i) = rid"
    by simp_all
  have d: "distinct (map rowId table)"
    using assms(1) by (simp add: toggle_ready_def)
  have same: "map rowId table ! i = map rowId table ! j"
    using il j ir rid by simp
  have "(map rowId table ! i = map rowId table ! j) = (i = j)"
    using d il j(1) by (intro nth_eq_iff_index_eq) simp_all
  with same have "i = j"
    by blast
  with j have at: "table ! i = r" by simp
  have "data_group_index r = None \<or> link r \<noteq> None"
    using assms(1) j(1,2) by (auto simp: toggle_ready_def list_all_iff)
  with j(3) obtain lk where "link r = Some lk" by auto
  with i at j(3) show ?thesis by simp
qed

lemma toggleGroup_forced:
  assumes "toggle_ready (rows s)" "findGroupRow (rows s) h = Some rid"
  shows "fst (toggleGroup rid True s) = Returns ()
    \<and> journal (snd (toggleGroup rid True s)) = journal s @ forced_events (rows s) h
    \<and> timers (snd (toggleGroup rid True s)) = timers s
    \<and> groupManager (snd (toggleGroup rid True s)) = (groupManager s)(h := True)
    \<and> map skeleton (rows (snd (toggleGroup rid True s))) = map skeleton (rows s)"
proof -
  from findGroupRow_located[OF assms] obtain i lk where
    loc: "first_index (\<lambda>r. rowId r = rid) (rows s) = Some i"
      "link (rows s ! i) = Some lk" "data_group_index (rows s ! i) = Some h"
    by blast
  from first_index_Some[OF loc(1)] have i: "i < length (rows s)" by simp
  have skel: "map skeleton ((rows s)[i := (rows s ! i)\<lparr>link := Some l\<rparr>]) = map skeleton (rows s)" for l
    using i loc(2) by (intro map_skeleton_link_update) simp_all
  show ?thesis
    unfolding toggleGroup_found[OF loc]
    by (simp add: setGroupStatus_frame expandOrCollapseRows_forced record_event_def skel
        forced_events_def assms(2))
qed

lemma expandGroupParents_loop_trace:
  assumes "toggle_ready (rows s)"
  shows "fst (expandGroupParents_loop gs s) = Returns ()
    \<and> journal (snd (expandGroupParents_loop gs s))
        = journal s @ concat (map (forced_events (rows s)) gs)
    \<and> timers (snd (expandGroupParents_loop gs s)) = timers s
    \<and> (\<forall>h. groupManager (snd (expandGroupParents_loop gs s)) h
          = (if h \<in> set gs \<and> findGroupRow (rows s) h \<noteq> None then True else groupManager s h))"
  using assms
proof (induction gs arbitrary: s)
  case Nil
  show ?case by simp
next
  case (Cons g gs)
  show ?case
  proof (cases "findGroupRow (rows s) g")
    case None
    with Cons.IH[OF Cons.prems] show ?thesis
      by (auto simp: forced_events_def)
  next
    case (Some rid)
    let ?t = "toggleGroup rid True s"
    note tg = toggleGroup_forced[OF Cons.prems Some]
    have ready: "toggle_ready (rows (snd ?t))"
      using tg Cons.prems toggle_ready_skeleton by blast
    have step: "expandGroupParents_loop (g # gs) s = expandGroupParents_loop gs (snd ?t)"
      using tg Some by (cases ?t) (simp split: outcome.splits)
    have fe: "forced_events (rows (snd ?t)) h = forced_events (rows s) h" for h
      using tg forced_events_skeleton by blast
    have fr: "findGroupRow (rows (snd ?t)) h = findGroupRow (rows s) h" for h
      using tg findGroupRow_skeleton by blast
    from Cons.IH[OF ready] tg Some show ?thesis
      unfolding step by (auto simp: fe fr)
  qed
qed

text \<open>
  C7, as amended: \<open>expandGroupParents\<close> force-expands the group itself and its
  ancestors, those that have a row in the table, from the outermost down to the group,
  with no timer set; the expansion state of every other group is left as it was.
\<close>

theorem expandGroupParents_expands_group_and_ancestors:
  assumes "toggle_ready (rows s)" and "s' = snd (expandGroupParents g s)"
  shows "fst (expandGroupParents g s) = Returns ()
    \<and> journal s' = journal s @ concat (map (forced_events (rows s)) (rev (getGroupAndAllParents g)))
    \<and> timers s' = timers s
    \<and> (\<forall>h. groupManager s' h
          = (if h \<in> set (getGroupAndAllParents g) \<and> findGroupRow (rows s) h \<noteq> None then True
             else groupManager s h))"
  using expandGroupParents_loop_trace[OF assms(1), of "rev (getGroupAndAllParents g)"]
  unfolding assms(2) expandGroupParents_def by simp

lemma ex_manager: "groupManager example_surface = (\<lambda>g. True)"
  by (simp add: example_surface_def)

lemma collapsed_surface_reached:
  "rows (fire_timer (snd (toggleGroup 0 False example_surface))) = rows collapsed_surface
   \<and> groupManager (fire_timer (snd (toggleGroup 0 False example_surface)))
       = groupManager collapsed_surface"
proof -
  have found: "toggleGroup 0 False example_surface = (Returns (), snd (toggleGroup 0 False example_surface))"
    using toggleGroup_found[OF ex_group_row(1,2,3), of False] by simp
  show ?thesis
    unfolding toggleGroup_found[OF ex_group_row(1,2,3)] ex_group_row(4)
    by (simp add: ex_fields hasClass_def removeClass_def addClass_def
        expandOrCollapseRows_animated setGroupStatus_def record_event_def fire_timer_def
        toggleRow_def toggleClass_def collapsed_surface_def ex_rows ex_manager)
qed

lemma collapsed_fields:
  "rows collapsed_surface =
       [\<lparr>rowId = 0, data_property = None,
          data_group_index = Some (Group (Some 1) RootGroup),
          data_parent_group_index = Some RootGroup, data_group_level = Some 0,
          classes = [''group''], link = Some [''expandControl''], hasHead = True\<rparr>,
        \<lparr>rowId = 1, data_property = Some ''color'', data_group_index = None,
          data_parent_group_index = Some (Group (Some 1) RootGroup),
          data_group_level = Some 1,
          classes = [''property'', ''no-external-parameter'', ''collapsed''],
          link = None, hasHead = True\<rparr>]"
  "journal collapsed_surface = []" "timers collapsed_surface = []"
  "groupManager collapsed_surface (Group (Some 1) RootGroup) = False"
  by (simp_all add: collapsed_surface_def ex_fields)

lemma collapsed_ready:
  "toggle_ready (rows collapsed_surface)"
  "forced_events (rows collapsed_surface) RootGroup = []"
  "forced_events (rows collapsed_surface) (Group (Some 1) RootGroup)
     = [FindGroupRows (Group (Some 1) RootGroup) True, RowToggled 1 False,
        SetGroupStatus (Group (Some 1) RootGroup) True]"
  by (simp_all add: collapsed_fields toggle_ready_def forced_events_def findGroupRow_def
      findGroupRows_def isDescendantOf_def)

lemma nested_ready:
  "toggle_ready (rows nested_surface)"
  "forced_events (rows nested_surface) RootGroup = []"
  "forced_events (rows nested_surface) (Group (Some 1) RootGroup)
     = [FindGroupRows (Group (Some 1) RootGroup) True, RowToggled 3 False, RowToggled 2 False,
        RowToggled 1 False, SetGroupStatus (Group (Some 1) RootGroup) True]"
  "forced_events (rows nested_surface) (Group (Some 2) (Group (Some 1) RootGroup))
     = [FindGroupRows (Group (Some 2) (Group (Some 1) RootGroup)) True, RowToggled 3 False,
        SetGroupStatus (Group (Some 2) (Group (Some 1) RootGroup)) True]"
  "groupManager nested_surface (Group (Some 1) RootGroup) = False"
  by (simp_all add: nested_surface_def toggle_ready_def forced_events_def findGroupRow_def
      findGroupRows_def isDescendantOf_def)

text \<open>
  On the table with a subgroup, for group 2 inside the collapsed group 1: the rows of
  group 1, the ancestor, are toggled first, then the row of group 2, and both groups
  are recorded as expanded.
\<close>

theorem expandGroupParents_expands_group_and_ancestors_witness:
  "toggle_ready (rows nested_surface)
   \<and> getGroupAndAllParents (Group (Some 2) (Group (Some 1) RootGroup))
       = [Group (Some 2) (Group (Some 1) RootGroup), Group (Some 1) RootGroup, RootGroup]
   \<and> groupManager nested_surface (Group (Some 1) RootGroup) = False
   \<and> fst (expandGroupParents (Group (Some 2) (Group (Some 1) RootGroup)) nested_surface)
       = Returns ()
   \<and> journal (snd (expandGroupParents (Group (Some 2) (Group (Some 1) RootGroup)) nested_surface))
       = [FindGroupRows (Group (Some 1) RootGroup) True, RowToggled 3 False, RowToggled 2 False,
          RowToggled 1 False, SetGroupStatus (Group (Some 1) RootGroup) True,
          FindGroupRows (Group (Some 2) (Group (Some 1) RootGroup)) True, RowToggled 3 False,
          SetGroupStatus (Group (Some 2) (Group (Some 1) RootGroup)) True]
   \<and> timers (snd (expandGroupParents (Group (Some 2) (Group (Some 1) RootGroup)) nested_surface))
       = []
   \<and> groupManager (snd (expandGroupParents (Group (Some 2) (Group (Some 1) RootGroup))
        nested_surface)) (Group (Some 1) RootGroup) = True
   \<and> groupManager (snd (expandGroupParents (Group (Some 2) (Group (Some 1) RootGroup))
        nested_surface)) (Group (Some 2) (Group (Some 1) RootGroup)) = True"
proof -
  let ?g1 = "Group (Some 1) RootGroup"
  let ?g2 = "Group (Some 2) (Group (Some 1) RootGroup)"
  note e = expandGroupParents_expands_group_and_ancestors[OF nested_ready(1) refl, of ?g2]
  have rows: "findGroupRow (rows nested_surface) ?g1 = Some 0"
    "findGroupRow (rows nested_surface) ?g2 = Some 2"
    by (simp_all add: nested_surface_def findGroupRow_def)
  from e have r: "fst (expandGroupParents ?g2 nested_surface) = Returns ()"
    by blast
  from e nested_ready(2,3,4) nested_rows(6)
  have j: "journal (snd (expandGroupParents ?g2 nested_surface))
       = [FindGroupRows ?g1 True, RowToggled 3 False, RowToggled 2 False,
          RowToggled 1 False, SetGroupStatus ?g1 True,
          FindGroupRows ?g2 True, RowToggled 3 False, SetGroupStatus ?g2 True]"
    by simp
  from e nested_rows(7) have t: "timers (snd (expandGroupParents ?g2 nested_surface)) = []"
    by simp
  from e have m: "\<forall>h. groupManager (snd (expandGroupParents ?g2 nested_surface)) h
          = (if h \<in> set (getGroupAndAllParents ?g2) \<and> findGroupRow (rows nested_surface) h \<noteq> None
               then True else groupManager nested_surface h)"
    by blast
  from m rows have m1: "groupManager (snd (expandGroupParents ?g2 nested_surface)) ?g1 = True"
    by simp
  from m rows have m2: "groupManager (snd (expandGroupParents ?g2 nested_surface)) ?g2 = True"
    by simp
  from r j t m1 m2 nested_ready(1,5) show ?thesis
    by simp
qed

lemma collapsed_group_rows:
  "findGroupRow (rows collapsed_surface) RootGroup = None"
  "findGroupRow (rows collapsed_surface) (Group (Some 1) RootGroup) = Some 0"
  by (simp_all add: collapsed_fields findGroupRow_def)

text \<open>
  C7 as stated fails on the example with group 1 collapsed: \<open>expandGroupParents\<close> of
  group 1, whose only ancestor is the root, toggles the row of group 1 itself and
  records group 1 as expanded.
\<close>

theorem expandGroupParents_expands_group_and_ancestors_counterexample:
  "getGroupAndAllParents (Group (Some 1) RootGroup) = [Group (Some 1) RootGroup, RootGroup]
   \<and> groupManager collapsed_surface (Group (Some 1) RootGroup) = False
   \<and> fst (expandGroupParents (Group (Some 1) RootGroup) collapsed_surface) = Returns ()
   \<and> journal (snd (expandGroupParents (Group (Some 1) RootGroup) collapsed_surface))
       = [FindGroupRows (Group (Some 1) RootGroup) True, RowToggled 1 False,
          SetGroupStatus (Group (Some 1) RootGroup) True]
   \<and> groupManager (snd (expandGroupParents (Group (Some 1) RootGroup) collapsed_surface))
        (Group (Some 1) RootGroup) = True"
proof -
  let ?g = "Group (Some 1) RootGroup"
  have loop: "expandGroupParents ?g collapsed_surface
      = expandGroupParents_loop [RootGroup, ?g] collapsed_surface"
    by (simp add: expandGroupParents_def del: expandGroupParents_loop.simps)
  note tr = expandGroupParents_loop_trace[OF collapsed_ready(1), of "[RootGroup, ?g]"]
  from tr have r: "fst (expandGroupParents ?g collapsed_surface) = Returns ()"
    unfolding loop by blast
  from tr collapsed_ready(2,3) collapsed_fields(2)
  have j: "journal (snd (expandGroupParents ?g collapsed_surface))
       = [FindGroupRows ?g True, RowToggled 1 False, SetGroupStatus ?g True]"
    unfolding loop by (simp del: expandGroupParents_loop.simps)
  from tr have "groupManager (snd (expandGroupParents ?g collapsed_surface)) ?g
      = (if ?g \<in> set [RootGroup, ?g] \<and> findGroupRow (rows collapsed_surface) ?g \<noteq> None
         then True else groupManager collapsed_surface ?g)"
    unfolding loop by blast
  with collapsed_group_rows(2)
  have m: "groupManager (snd (expandGroupParents ?g collapsed_surface)) ?g = True"
    by simp
  from r j m collapsed_fields(4) show ?thesis by simp
qed

section \<open>Examples of validation, merging and building\<close>




lemma child_fields:
  "rows child_surface = [child_row 10 ''x'', child_row 11 ''y'']"
  "surfaceGroup child_surface = Group (Some 1) RootGroup"
  by (simp_all add: child_surface_def)

text \<open>Two child rows merged after the group row of the example.\<close>

theorem mergeChildSurface_keeps_child_order_witness:
  "rows example_surface = [] @ rows example_surface ! 0 # [rows example_surface ! 1]
   \<and> rowId (rows example_surface ! 0) = 0
   \<and> map rowId (rows child_surface) = [10, 11]
   \<and> fst (mergeChildSurface child_surface 0 example_surface) = Returns ()
   \<and> map rowId (rows (snd (mergeChildSurface child_surface 0 example_surface))) = [0, 10, 11, 1]
   \<and> map data_group_level (rows (snd (mergeChildSurface child_surface 0 example_surface)))
       = [Some 0, Some 1, Some 1, Some 1]
   \<and> mergeChildSurface_loop (surfaceGroup child_surface) 0 [child_row 11 ''y''] (rows example_surface)
       = (Returns (), [rows example_surface ! 0, leveled (Group (Some 1) RootGroup) (child_row 11 ''y''),
                       rows example_surface ! 1])"
proof -
  let ?a = "rows example_surface ! 0" and ?b = "rows example_surface ! 1"
  have split: "rows example_surface = [] @ ?a # [?b]"
    by (simp add: ex_rows)
  have a0: "rowId ?a = 0" by (simp add: ex_rows)
  have pre: "\<forall>x\<in>set []. rowId x \<noteq> rowId ?a" by simp
  have d: "distinct (map rowId (rows child_surface))"
    by (simp add: child_fields child_row_def)
  have f: "\<forall>r\<in>set (rows child_surface). \<forall>x\<in>set (rows example_surface). rowId x \<noteq> rowId r"
    by (simp add: child_fields child_row_def ex_rows)
  have h: "\<forall>r\<in>set (rows child_surface). data_group_level r \<noteq> None \<or> hasHead r"
    by (simp add: child_fields child_row_def)
  have lv: "map data_group_level [?a, leveled (Group (Some 1) RootGroup) (child_row 10 ''x''),
        leveled (Group (Some 1) RootGroup) (child_row 11 ''y''), ?b]
      = [Some 0, Some 1, Some 1, Some 1]"
    by (simp add: ex_rows leveled_def child_row_def)
  note m = mergeChildSurface_keeps_child_order[OF split pre d f h, unfolded a0]
  from m have every: "\<forall>front rest. rows child_surface = front @ rest \<longrightarrow>
          mergeChildSurface_loop (surfaceGroup child_surface) 0 (rev rest) (rows example_surface)
            = (Returns (), [] @ ?a # map (leveled (surfaceGroup child_surface)) rest @ [?b])"
    by blast
  from every[rule_format, of "[child_row 10 ''x'']" "[child_row 11 ''y'']"]
  have part: "mergeChildSurface_loop (surfaceGroup child_surface) 0 [child_row 11 ''y'']
       (rows example_surface)
       = (Returns (), [?a, leveled (Group (Some 1) RootGroup) (child_row 11 ''y''), ?b])"
    by (simp add: child_fields del: mergeChildSurface_loop.simps)
  from m have whole: "fst (mergeChildSurface child_surface 0 example_surface) = Returns ()
    \<and> rows (snd (mergeChildSurface child_surface 0 example_surface))
        = [?a, leveled (Group (Some 1) RootGroup) (child_row 10 ''x''),
           leveled (Group (Some 1) RootGroup) (child_row 11 ''y''), ?b]"
    by (simp add: child_fields del: mergeChildSurface_loop.simps)
  have ids: "map rowId [?a, leveled (Group (Some 1) RootGroup) (child_row 10 ''x''),
           leveled (Group (Some 1) RootGroup) (child_row 11 ''y''), ?b] = [0, 10, 11, 1]"
    by (simp add: ex_rows rowId_leveled child_row_def)
  from whole lv ids a0 split part show ?thesis
    by (simp add: child_fields child_row_def del: mergeChildSurface_loop.simps)
qed

text \<open>
  An unregistered kind on a property fails the build; on a group marker it is not looked
  at.
\<close>

theorem Surface_fails_fast_on_unknown_editor_kind_witness:
  "Surface example_inspector plain_host [appearance_group, color_property\<lparr>type := Some ''dropdown''\<rparr>]
      None (Some ''inspector-1'') DEFAULTS (\<lambda>g. True)
     = Throws (EditorClassNotDefined ''dropdown'')
   \<and> Surface example_inspector plain_host
        [appearance_group, color_property, color_property\<lparr>type := Some ''toString''\<rparr>,
         color_property\<lparr>type := Some ''dropdown''\<rparr>]
        None (Some ''inspector-1'') DEFAULTS (\<lambda>g. True)
     = Throws NotAConstructor
   \<and> (\<exists>s. Surface example_inspector plain_host
               [appearance_group\<lparr>type := Some ''dropdown''\<rparr>, text_property ''a'']
               None (Some ''inspector-1'') DEFAULTS (\<lambda>g. True) = Returns s)"
proof -
  have k: "unknownKind example_inspector (color_property\<lparr>type := Some ''dropdown''\<rparr>)"
    "unknownKind example_inspector (color_property\<lparr>type := Some ''toString''\<rparr>)"
    "\<not> unknownKind example_inspector color_property"
    "\<not> unknownKind example_inspector appearance_group"
    "\<not> unknownKind example_inspector (appearance_group\<lparr>type := Some ''dropdown''\<rparr>)"
    "\<not> unknownKind example_inspector (text_property ''a'')"
    "editorKind (color_property\<lparr>type := Some ''dropdown''\<rparr>) = ''dropdown''"
    "editorKind (color_property\<lparr>type := Some ''toString''\<rparr>) = ''toString''"
    by (simp_all add: unknownKind_def editorKind_def example_inspector_def ex_items
        text_property_def color_property_def)
  from Surface_fails_fast_on_unknown_editor_kind[of example_inspector plain_host
         "[appearance_group, color_property\<lparr>type := Some ''dropdown''\<rparr>]" None
         "''inspector-1''" DEFAULTS "\<lambda>g. True"]
       Surface_fails_fast_on_unknown_editor_kind[of example_inspector plain_host
         "[appearance_group, color_property, color_property\<lparr>type := Some ''toString''\<rparr>,
           color_property\<lparr>type := Some ''dropdown''\<rparr>]" None
         "''inspector-1''" DEFAULTS "\<lambda>g. True"]
       Surface_fails_fast_on_unknown_editor_kind[of example_inspector plain_host
         "[appearance_group\<lparr>type := Some ''dropdown''\<rparr>, text_property ''a'']" None
         "''inspector-1''" DEFAULTS "\<lambda>g. True"]
  show ?thesis
    by (simp add: k prototype_names)
qed

text \<open>
  C9 as stated fails for a property without a kind when \<^verbatim>\<open>string\<close> is not registered:
  the build looks the property up as \<^verbatim>\<open>string\<close> and raises the error for that kind.
  And for the kind \<^verbatim>\<open>toString\<close>, which is not registered either, the error that is
  raised is not the one of \<open>validateEditorType\<close>.
\<close>

theorem Surface_fails_fast_on_unknown_editor_kind_counterexample:
  "type (text_property ''a'') = None
   \<and> propertyEditors bare_inspector ''string'' = None
   \<and> Surface bare_inspector plain_host [text_property ''a''] None (Some ''inspector-1'') DEFAULTS
        (\<lambda>g. True)
       = Throws (EditorClassNotDefined ''string'')
   \<and> propertyEditors example_inspector ''toString'' = None
   \<and> validateEditorType example_inspector (Some ''toString'') = Returns ()
   \<and> Surface example_inspector plain_host [color_property\<lparr>type := Some ''toString''\<rparr>] None
        (Some ''inspector-1'') DEFAULTS (\<lambda>g. True)
       = Throws NotAConstructor"
  by (simp add: text_property_def bare_inspector_def example_inspector_def color_property_def
      build_defs prototype_names Let_def)

section \<open>Editors are built in schema order\<close>

lemma buildEditor_returns:
  assumes "buildEditor env manager r p g = Returns (r', es)"
  shows "if itemType p = PropertyItem
           then \<exists>new_editor. propertyEditors env (editorKind p) = Some new_editor
                  \<and> es = [new_editor p g]
         else es = []"
  using assms
  by (auto simp: buildEditor_def validateEditorType_eq editorKind_def Let_def
      split: if_splits option.splits)

lemma build_loop_editors:
  assumes "build_loop env manager sg ps cg tbody eds = Returns (tbody', eds')"
  shows "\<exists>new. eds' = eds @ new
    \<and> list_all2 (\<lambda>e p. \<exists>g new_editor. propertyEditors env (editorKind p) = Some new_editor
                          \<and> e = new_editor p g)
         new (filter (\<lambda>p. itemType p = PropertyItem) ps)"
  using assms
proof (induction ps arbitrary: cg tbody eds)
  case Nil
  then show ?case by simp
next
  case (Cons p ps)
  let ?g = "nextGroup sg cg p"
  let ?r = "(buildRow manager (length tbody) p ?g)
              \<lparr>data_group_level := Some (getLevel (if itemType p = GroupItem then sg else ?g))\<rparr>"
  from Cons.prems obtain r2 es where
    be: "buildEditor env manager ?r p ?g = Returns (r2, es)" and
    rest: "build_loop env manager sg ps ?g (tbody @ [r2]) (eds @ es) = Returns (tbody', eds')"
    unfolding build_loop_Cons by (auto split: outcome.splits)
  from Cons.IH[OF rest] obtain new where
    new: "eds' = (eds @ es) @ new"
      "list_all2 (\<lambda>e p. \<exists>g new_editor. propertyEditors env (editorKind p) = Some new_editor
                          \<and> e = new_editor p g)
         new (filter (\<lambda>p. itemType p = PropertyItem) ps)"
    by blast
  show ?case
  proof (cases "itemType p = PropertyItem")
    case True
    with buildEditor_returns[OF be] obtain new_editor where
      "propertyEditors env (editorKind p) = Some new_editor" "es = [new_editor p ?g]"
      by auto
    with new True show ?thesis
      by (intro exI[of _ "es @ new"]) auto
  next
    case False
    with buildEditor_returns[OF be] have "es = []" by simp
    with new False show ?thesis by simp
  qed
qed

lemma Surface_editors_in_schema_order:
  assumes "Surface env h properties vals uniqueId opts manager = Returns s"
  shows "list_all2 (\<lambda>e p. \<exists>g new_editor. propertyEditors env (editorKind p) = Some new_editor
                          \<and> e = new_editor p g)
         (editors s) (filter (\<lambda>p. itemType p = PropertyItem) properties)"
proof -
  from assms obtain tbody eds where
    b: "build_loop env manager RootGroup properties RootGroup [] [] = Returns (tbody, eds)"
    and e: "editors s = eds"
    by (auto simp: Surface_def Let_def split: option.splits outcome.splits)
  from build_loop_editors[OF b] e show ?thesis by simp
qed

end
